(* ===== verification/Prelude.thy ===== *)
theory Prelude
  imports Main "HOL-Library.Word"
begin

unbundle bit_operations_syntax

text \<open>
  Shared vocabulary of the development. A Rust value of type \<open>u8\<close>, \<open>u16\<close>, \<open>u32\<close> is a
  word of that width; \<open>usize\<close> is a \<open>nat\<close> (lengths and indices of objects in memory; the
  few places where a \<open>usize\<close> is computed from a device value are bounded explicitly).
  A fallible computation is a sum: \<open>Inl (Errno e)\<close> is \<open>Err(e)\<close>, \<open>Inl (Panic p)\<close> is a Rust
  panic (index or slice out of range, arithmetic overflow, division by zero, a failed assertion),
  \<open>Inl (Ax e)\<close> an \<open>AxError\<close>, \<open>Inl Hang\<close> a loop without a bound of its own that has not
  ended within the fuel given to the model, and \<open>Inr x\<close> is \<open>Ok(x)\<close>. Code that talks to a device is a computation in the state
  monad over a world type (\<open>('w, 'a) io\<close>): it returns the result and the new world also
  when it fails, because register writes made before an error stay made.
\<close>

type_synonym u8 = "8 word"
type_synonym u16 = "16 word"
type_synonym u32 = "32 word"
type_synonym byte = "8 word"

named_theorems wf_intros "preservation of the components' well-formedness invariants"
named_theorems abs_simps "equations of the components' abstraction functions"

section \<open>Results\<close>

datatype panic = SliceRange | IndexRange | ArithOverflow | DivZero | UnwrapNone | AssertFailed

datatype ax_error = BadState | InvalidInput

datatype rust_error = Errno int | Ax ax_error | Panic panic | Hang

type_synonym 'a result = "rust_error + 'a"

abbreviation err :: "int \<Rightarrow> 'a result" where
  "err e \<equiv> Inl (Errno e)"

abbreviation panic :: "panic \<Rightarrow> 'a result" where
  "panic p \<equiv> Inl (Panic p)"

abbreviation ok :: "'a \<Rightarrow> 'a result" where
  "ok x \<equiv> Inr x"

definition bind_res :: "'a result \<Rightarrow> ('a \<Rightarrow> 'b result) \<Rightarrow> 'b result" where
  "bind_res m f = (case m of Inl e \<Rightarrow> Inl e | Inr x \<Rightarrow> f x)"

lemma bind_res_simps [simp]:
  "bind_res (Inl e) f = Inl e"
  "bind_res (Inr x) f = f x"
  by (simp_all add: bind_res_def)

lemma bind_res_assoc: "bind_res (bind_res m f) g = bind_res m (\<lambda>x. bind_res (f x) g)"
  by (cases m) simp_all

lemma bind_res_Inr_iff: "bind_res m f = Inr y \<longleftrightarrow> (\<exists>x. m = Inr x \<and> f x = Inr y)"
  by (cases m) auto

text \<open>\<open>Option::ok_or\<close>.\<close>

definition ok_or :: "'a option \<Rightarrow> int \<Rightarrow> 'a result" where
  "ok_or x e = (case x of None \<Rightarrow> err e | Some y \<Rightarrow> ok y)"

lemma ok_or_simps [simp]:
  "ok_or None e = err e"
  "ok_or (Some y) e = ok y"
  by (simp_all add: ok_or_def)

text \<open>The call returned neither \<open>Ok\<close> nor \<open>Err\<close>: it panicked or ran out of fuel.\<close>

definition is_panic :: "'a result \<Rightarrow> bool" where
  "is_panic r = (case r of Inl (Panic _) \<Rightarrow> True | Inl Hang \<Rightarrow> True | _ \<Rightarrow> False)"

lemma is_panic_simps [simp]:
  "is_panic (Inr x) = False"
  "is_panic (err e) = False"
  "is_panic (Inl (Ax a)) = False"
  "is_panic (panic p) = True"
  "is_panic (Inl Hang) = True"
  by (simp_all add: is_panic_def)

section \<open>Computations over a world\<close>

type_synonym ('w, 'a) io = "'w \<Rightarrow> 'a result \<times> 'w"

definition io_return :: "'a \<Rightarrow> ('w, 'a) io" where
  "io_return x = (\<lambda>w. (ok x, w))"

definition io_fail :: "rust_error \<Rightarrow> ('w, 'a) io" where
  "io_fail e = (\<lambda>w. (Inl e, w))"

definition io_bind :: "('w, 'a) io \<Rightarrow> ('a \<Rightarrow> ('w, 'b) io) \<Rightarrow> ('w, 'b) io" where
  "io_bind m f = (\<lambda>w. case m w of (Inl e, w') \<Rightarrow> (Inl e, w') | (Inr x, w') \<Rightarrow> f x w')"

text \<open>\<open>let _ = m\<close> and \<open>m.unwrap_or(d)\<close>: an \<open>Err\<close> is absorbed, a panic is not.\<close>

definition io_unwrap_or :: "('w, 'a) io \<Rightarrow> 'a \<Rightarrow> ('w, 'a) io" where
  "io_unwrap_or m d = (\<lambda>w. case m w of (Inl (Errno _), w') \<Rightarrow> (ok d, w') | (Inl (Ax _), w') \<Rightarrow> (ok d, w') | r \<Rightarrow> r)"

text \<open>\<open>m.map_err(|_| e)\<close>: every \<open>Err\<close> becomes \<open>e\<close>.\<close>

definition io_map_err :: "('w, 'a) io \<Rightarrow> rust_error \<Rightarrow> ('w, 'a) io" where
  "io_map_err m e = (\<lambda>w. case m w of (Inl (Errno _), w') \<Rightarrow> (Inl e, w') | (Inl (Ax _), w') \<Rightarrow> (Inl e, w') | r \<Rightarrow> r)"

text \<open>A step that cannot fail.\<close>

definition io_do :: "('w \<Rightarrow> 'w) \<Rightarrow> ('w, unit) io" where
  "io_do f = (\<lambda>w. (ok (), f w))"

definition io_lift :: "'a result \<Rightarrow> ('w, 'a) io" where
  "io_lift r = (\<lambda>w. (r, w))"

lemma io_return_app [simp]: "io_return x w = (ok x, w)"
  by (simp add: io_return_def)

lemma io_fail_app [simp]: "io_fail e w = (Inl e, w)"
  by (simp add: io_fail_def)

lemma io_do_app [simp]: "io_do f w = (ok (), f w)"
  by (simp add: io_do_def)

lemma io_map_err_InrD: "io_map_err m e w = (Inr x, w') \<Longrightarrow> m w = (Inr x, w')"
  by (auto simp: io_map_err_def split: prod.splits sum.splits rust_error.splits)

lemma io_lift_app [simp]: "io_lift r w = (r, w)"
  by (simp add: io_lift_def)

lemma io_bind_return [simp]: "io_bind (io_return x) f = f x"
  by (simp add: io_bind_def fun_eq_iff)

lemma io_bind_fail [simp]: "io_bind (io_fail e) f = io_fail e"
  by (simp add: io_bind_def fun_eq_iff)

lemma io_bind_step:
  "m w = (Inr x, w') \<Longrightarrow> io_bind m f w = f x w'"
  "m w = (Inl e, w') \<Longrightarrow> io_bind m f w = (Inl e, w')"
  by (simp_all add: io_bind_def)

lemma io_bind_InrE:
  assumes "io_bind m f w = (Inr y, w2)"
  obtains x w1 where "m w = (Inr x, w1)" and "f x w1 = (Inr y, w2)"
  using assms by (auto simp: io_bind_def split: prod.splits sum.splits)

lemma io_bind_Inr_iff:
  "io_bind m f w = (Inr y, w2) \<longleftrightarrow> (\<exists>x w1. m w = (Inr x, w1) \<and> f x w1 = (Inr y, w2))"
  by (auto simp: io_bind_def split: prod.splits sum.splits)

lemma io_map_err_Inr_iff: "io_map_err m e w = (Inr x, w') \<longleftrightarrow> m w = (Inr x, w')"
  by (auto simp: io_map_err_def split: prod.splits sum.splits rust_error.splits)

text \<open>A computation on one half of a pair of states.\<close>

definition on_snd :: "('w, 'a) io \<Rightarrow> ('s \<times> 'w, 'a) io" where
  "on_snd m = (\<lambda>(s, w). case m w of (r, w') \<Rightarrow> (r, (s, w')))"

lemma on_snd_fst: "fst (snd (on_snd m (s, w))) = s"
  by (simp add: on_snd_def split: prod.splits)

text \<open>\<open>for x in xs { body(x)?; }\<close>\<close>

fun io_for :: "('a \<Rightarrow> ('w, unit) io) \<Rightarrow> 'a list \<Rightarrow> ('w, unit) io" where
  "io_for f [] = io_return ()"
| "io_for f (x # xs) = io_bind (f x) (\<lambda>_. io_for f xs)"

text \<open>A computation that preserves a property of the state, whatever it returns.\<close>

definition preserves :: "('s \<Rightarrow> bool) \<Rightarrow> ('s, 'a) io \<Rightarrow> bool" where
  "preserves P f \<longleftrightarrow> (\<forall>s. P s \<longrightarrow> P (snd (f s)))"

named_theorems preserves_intros "composition of computations that preserve a property"

lemma preserves_return [preserves_intros]: "preserves P (io_return x)"
  by (simp add: preserves_def)

lemma preserves_bind [preserves_intros]:
  "preserves P f \<Longrightarrow> (\<And>x. preserves P (g x)) \<Longrightarrow> preserves P (io_bind f g)"
  by (auto simp: preserves_def io_bind_def split: prod.splits sum.splits)

lemma preserves_if [preserves_intros]:
  "(c \<Longrightarrow> preserves P f) \<Longrightarrow> (\<not> c \<Longrightarrow> preserves P g) \<Longrightarrow> preserves P (if c then f else g)"
  by simp

lemma preserves_lift [preserves_intros]: "preserves P (io_lift r)"
  by (simp add: preserves_def)

lemma preserves_do [preserves_intros]: "(\<And>s. P s \<Longrightarrow> P (f s)) \<Longrightarrow> preserves P (io_do f)"
  by (simp add: preserves_def)

lemma preserves_fail [preserves_intros]: "preserves P (io_fail e)"
  by (simp add: preserves_def)

lemma preserves_for [preserves_intros]: "(\<And>x. preserves P (f x)) \<Longrightarrow> preserves P (io_for f xs)"
  by (induction xs) (auto intro: preserves_return preserves_bind)

lemma preservesD: "preserves P f \<Longrightarrow> P s \<Longrightarrow> f s = (r, s') \<Longrightarrow> P s'"
  unfolding preserves_def by (metis snd_conv)

section \<open>Slices\<close>

text \<open>\<open>&xs[a..b]\<close> and \<open>xs[a..b].copy_from_slice(ys)\<close>, with their panics.\<close>

definition slice_get :: "nat \<Rightarrow> nat \<Rightarrow> 'a list \<Rightarrow> 'a list result" where
  "slice_get a b xs =
     (if a \<le> b \<and> b \<le> length xs then ok (take (b - a) (drop a xs)) else panic SliceRange)"

definition slice_set :: "nat \<Rightarrow> nat \<Rightarrow> 'a list \<Rightarrow> 'a list \<Rightarrow> 'a list result" where
  "slice_set a b ys xs =
     (if a \<le> b \<and> b \<le> length xs \<and> length ys = b - a
      then ok (take a xs @ ys @ drop b xs) else panic SliceRange)"

lemma slice_get_ok: "a \<le> b \<Longrightarrow> b \<le> length xs \<Longrightarrow> slice_get a b xs = ok (take (b - a) (drop a xs))"
  by (simp add: slice_get_def)

lemma slice_set_ok:
  "a \<le> b \<Longrightarrow> b \<le> length xs \<Longrightarrow> length ys = b - a \<Longrightarrow>
   slice_set a b ys xs = ok (take a xs @ ys @ drop b xs)"
  by (simp add: slice_set_def)

lemma slice_set_length: "slice_set a b ys xs = ok zs \<Longrightarrow> length zs = length xs"
  by (auto simp: slice_set_def split: if_splits)

lemma take_drop_split:
  "h + n \<le> length xs \<Longrightarrow> take h xs @ take n (drop h xs) @ drop (h + n) xs = xs"
  by (metis add.commute append_assoc append_take_drop_id take_add)

section \<open>Masks\<close>

lemma and_not_disjoint:
  fixes x y :: "'a :: len word"
  assumes "x AND y = 0"
  shows "x AND NOT y = x"
proof (rule bit_word_eqI)
  fix n assume "n < LENGTH('a)"
  then show "bit (x AND NOT y) n = bit x n"
    using arg_cong [OF assms, of "\<lambda>w. bit w n"] by (auto simp: bit_and_iff bit_not_iff)
qed

lemma unat_and_not_mask:
  "unat ((w :: 'a :: len word) AND NOT (mask n)) = unat w div 2 ^ n * 2 ^ n"
proof -
  have "w AND NOT (mask n) = push_bit n (drop_bit n w)"
    by (rule bit_word_eqI) (auto simp: bit_simps)
  moreover have "unat w div 2 ^ n * 2 ^ n < 2 ^ LENGTH('a)"
    by (rule order.strict_trans1 [OF div_times_less_eq_dividend]) (rule unsigned_less)
  then have "unat (push_bit n (drop_bit n w)) = unat w div 2 ^ n * 2 ^ n"
    by (subst unsigned_push_bit_eq, subst unsigned_drop_bit_eq)
      (simp add: take_bit_eq_mod push_bit_eq_mult drop_bit_eq_div)
  ultimately show ?thesis by simp
qed

section \<open>Little-endian byte codecs\<close>

definition le16 :: "u16 \<Rightarrow> byte list" where
  "le16 w = [ucast w, ucast (drop_bit 8 w)]"

definition le32 :: "u32 \<Rightarrow> byte list" where
  "le32 w = [ucast w, ucast (drop_bit 8 w), ucast (drop_bit 16 w), ucast (drop_bit 24 w)]"

definition from_le16 :: "byte \<Rightarrow> byte \<Rightarrow> u16" where
  "from_le16 a b = ucast a OR push_bit 8 (ucast b)"

definition from_le32 :: "byte \<Rightarrow> byte \<Rightarrow> byte \<Rightarrow> byte \<Rightarrow> u32" where
  "from_le32 a b c d =
     ucast a OR push_bit 8 (ucast b) OR push_bit 16 (ucast c) OR push_bit 24 (ucast d)"

fun decode_le16 :: "byte list \<Rightarrow> u16 option" where
  "decode_le16 [a, b] = Some (from_le16 a b)"
| "decode_le16 _ = None"

fun decode_le32 :: "byte list \<Rightarrow> u32 option" where
  "decode_le32 [a, b, c, d] = Some (from_le32 a b c d)"
| "decode_le32 _ = None"

lemma length_le [simp]: "length (le16 w) = 2" "length (le32 v) = 4"
  by (simp_all add: le16_def le32_def)

lemma from_le16_le16: "from_le16 (ucast w) (ucast (drop_bit 8 w)) = w"
  by (rule bit_word_eqI) (auto simp: from_le16_def bit_simps)

lemma from_le32_le32:
  "from_le32 (ucast w) (ucast (drop_bit 8 w)) (ucast (drop_bit 16 w)) (ucast (drop_bit 24 w)) = w"
proof (rule bit_word_eqI)
  fix n :: nat
  assume "n < LENGTH(32)"
  then have n: "n < 32" by simp
  consider "n < 8" | "8 \<le> n" "n < 16" | "16 \<le> n" "n < 24" | "24 \<le> n"
    by linarith
  then show "bit (from_le32 (ucast w) (ucast (drop_bit 8 w)) (ucast (drop_bit 16 w))
                   (ucast (drop_bit 24 w))) n \<longleftrightarrow> bit w n"
    using n by cases (auto simp: from_le32_def bit_simps)
qed

text \<open>A fixed-width byte codec: what the message builders and parsers rely on.\<close>

locale byte_codec =
  fixes enc :: "'a \<Rightarrow> byte list"
    and dec :: "byte list \<Rightarrow> 'a option"
    and width :: nat
  assumes enc_length: "length (enc x) = width"
    and dec_enc: "dec (enc x) = Some x"
begin

lemma enc_inj: "enc x = enc y \<longleftrightarrow> x = y"
  using dec_enc option.inject by metis

lemma dec_prefix: "dec (take width (enc x @ ys)) = Some x"
  by (simp add: enc_length dec_enc)

lemma dec_at: "length xs = n \<Longrightarrow> dec (take width (drop n (xs @ enc x @ ys))) = Some x"
  by (simp add: enc_length dec_enc)

end

interpretation le16_codec: byte_codec le16 decode_le16 2
  by unfold_locales (simp_all add: le16_def from_le16_le16)

interpretation le32_codec: byte_codec le32 decode_le32 4
  by unfold_locales (simp_all add: le32_def from_le32_le32)

section \<open>Checked arithmetic\<close>

definition add_checked :: "'l::len word \<Rightarrow> 'l word \<Rightarrow> 'l word result" where
  "add_checked a b =
     (if unat a + unat b < 2 ^ LENGTH('l) then ok (a + b) else panic ArithOverflow)"

lemma add_checked_ok:
  fixes a b :: "'l::len word"
  assumes "add_checked a b = ok c"
  shows "unat c = unat a + unat b"
  using assms by (auto simp: add_checked_def unat_add_lem split: if_splits)

lemma word_succ_less:
  fixes a b :: "'l::len word"
  assumes "a < b"
  shows "unat (a + 1) = Suc (unat a)" and "unat b - Suc (unat a) < unat b - unat a"
proof -
  from assms have ab: "unat a < unat b" by (simp add: word_less_nat_alt)
  moreover have "unat b < 2 ^ LENGTH('l)" by (rule unsigned_less)
  ultimately have "unat a + 1 < 2 ^ LENGTH('l)" by linarith
  then show "unat (a + 1) = Suc (unat a)" by (simp add: unat_word_ariths)
  show "unat b - Suc (unat a) < unat b - unat a" using ab by simp
qed

lemma concat_map_split:
  assumes "i < length xs"
  shows "concat (map f xs) = concat (map f (take i xs)) @ f (xs ! i) @ concat (map f (drop (Suc i) xs))"
proof -
  have "concat (map f xs) = concat (map f (take i xs @ xs ! i # drop (Suc i) xs))"
    using assms by (simp add: id_take_nth_drop [symmetric])
  then show ?thesis by simp
qed

end
