(* ===== verification/Skb.thy ===== *)
theory Skb
  imports Prelude
begin

text \<open>
  The packet buffer and its queues (\<open>kernel/skb/src/skbuff.rs\<close>, \<open>kernel/skb/src/queue.rs\<close>).
  A \<open>SkBuff\<close> is a storage vector with the start and the length of its data area; a
  \<open>SkbQueue\<close> is the \<open>VecDeque\<close> it wraps; a \<open>FrameQueue\<close> is eight such queues with a
  cursor \<open>hi_prio\<close>. A mutable slice handed to the caller is modelled by the range of
  \<open>storage\<close> it covers, and \<open>skb_fill\<close> is the caller's \<open>copy_from_slice\<close> into it.
\<close>

section \<open>SkBuff\<close>

record skbuff =
  skb_storage :: "byte list"
  skb_head :: nat
  skb_len :: nat

definition alloc_with_headroom :: "nat \<Rightarrow> nat \<Rightarrow> skbuff" where
  "alloc_with_headroom capacity headroom =
     \<lparr>skb_storage = replicate capacity 0, skb_head = min headroom capacity, skb_len = 0\<rparr>"

definition skb_alloc :: "nat \<Rightarrow> skbuff" where
  "skb_alloc capacity = alloc_with_headroom capacity 0"

definition skb_data :: "skbuff \<Rightarrow> byte list result" where
  "skb_data s = slice_get (skb_head s) (skb_head s + skb_len s) (skb_storage s)"

definition skb_data_mut :: "skbuff \<Rightarrow> (nat \<times> nat) result" where
  "skb_data_mut s =
     (let e = skb_head s + (length (skb_storage s) - skb_head s)
      in if skb_head s \<le> e \<and> e \<le> length (skb_storage s) then ok (skb_head s, e)
         else panic SliceRange)"

text \<open>Dereferencing: a shared one sees the data, a mutable one everything from the head on.\<close>

definition skb_deref :: "skbuff \<Rightarrow> byte list result" where
  "skb_deref s = skb_data s"

definition skb_deref_mut :: "skbuff \<Rightarrow> (nat \<times> nat) result" where
  "skb_deref_mut s =
     (let e = skb_head s + (length (skb_storage s) - skb_head s)
      in if skb_head s \<le> e \<and> e \<le> length (skb_storage s) then ok (skb_head s, e)
         else panic SliceRange)"

definition skb_data_len :: "nat \<Rightarrow> skbuff \<Rightarrow> byte list result" where
  "skb_data_len l s =
     (let n = min l (skb_len s) in slice_get (skb_head s) (skb_head s + n) (skb_storage s))"

definition skb_set_len :: "nat \<Rightarrow> skbuff \<Rightarrow> skbuff" where
  "skb_set_len l s = s\<lparr>skb_len := min l (length (skb_storage s) - skb_head s)\<rparr>"

definition skb_is_empty :: "skbuff \<Rightarrow> bool" where
  "skb_is_empty s \<longleftrightarrow> skb_len s = 0"

definition skb_headroom :: "skbuff \<Rightarrow> nat" where
  "skb_headroom s = skb_head s"

definition skb_tailroom :: "skbuff \<Rightarrow> nat" where
  "skb_tailroom s = length (skb_storage s) - (skb_head s + skb_len s)"

definition skb_put :: "nat \<Rightarrow> skbuff \<Rightarrow> ((nat \<times> nat) option \<times> skbuff) result" where
  "skb_put n s =
     (if skb_tailroom s < n then ok (None, s)
      else let start = skb_head s + skb_len s
           in if start + n \<le> length (skb_storage s)
              then ok (Some (start, start + n), s\<lparr>skb_len := skb_len s + n\<rparr>)
              else panic SliceRange)"

definition skb_pull :: "nat \<Rightarrow> skbuff \<Rightarrow> skbuff" where
  "skb_pull n s =
     (let consume = min n (skb_len s)
      in s\<lparr>skb_head := skb_head s + consume, skb_len := skb_len s - consume\<rparr>)"

definition skb_push :: "nat \<Rightarrow> skbuff \<Rightarrow> bool \<times> skbuff" where
  "skb_push n s =
     (if skb_head s < n then (False, s)
      else (True, s\<lparr>skb_head := skb_head s - n, skb_len := skb_len s + n\<rparr>))"

definition skb_reserve :: "nat \<Rightarrow> skbuff \<Rightarrow> skbuff" where
  "skb_reserve n s =
     (if n \<le> skb_head s then s
      else let need = n - skb_head s
           in s\<lparr>skb_storage := replicate need 0 @ skb_storage s, skb_head := skb_head s + need\<rparr>)"

definition copy_bits :: "skbuff \<Rightarrow> byte list \<Rightarrow> nat \<Rightarrow> nat \<Rightarrow> (nat \<times> byte list) result" where
  "copy_bits s dst off n =
     bind_res (skb_data s) (\<lambda>d.
       let start = min off (length d);
           count = min (min (length d - start) n) (length dst)
       in bind_res (slice_get start (start + count) d) (\<lambda>src.
          bind_res (slice_set 0 count src dst) (\<lambda>dst'. ok (count, dst'))))"

definition skb_fill :: "nat \<times> nat \<Rightarrow> byte list \<Rightarrow> skbuff \<Rightarrow> skbuff result" where
  "skb_fill r ys s =
     bind_res (slice_set (fst r) (snd r) ys (skb_storage s)) (\<lambda>st. ok (s\<lparr>skb_storage := st\<rparr>))"

text \<open>One caller-visible operation; \<open>SPut xs\<close> is \<open>skb.put(n)\<close> followed by filling the slice.\<close>

datatype skb_op = SPut "byte list" | SPull nat | SPush nat | SReserve nat | SSetLen nat

fun skb_step :: "skb_op \<Rightarrow> skbuff \<Rightarrow> skbuff result" where
  "skb_step (SPut xs) s =
     bind_res (skb_put (length xs) s) (\<lambda>(r, s').
       case r of None \<Rightarrow> ok s' | Some rng \<Rightarrow> skb_fill rng xs s')"
| "skb_step (SPull n) s = ok (skb_pull n s)"
| "skb_step (SPush n) s = ok (snd (skb_push n s))"
| "skb_step (SReserve n) s = ok (skb_reserve n s)"
| "skb_step (SSetLen n) s = ok (skb_set_len n s)"

fun skb_run :: "skb_op list \<Rightarrow> skbuff \<Rightarrow> skbuff result" where
  "skb_run [] s = ok s"
| "skb_run (x # xs) s = bind_res (skb_step x s) (skb_run xs)"

subsection \<open>Invariant and abstract specification\<close>

definition skb_wf :: "skbuff \<Rightarrow> bool" where
  "skb_wf s \<longleftrightarrow> skb_head s + skb_len s \<le> length (skb_storage s)"

text \<open>The contract: three adjacent byte strings, headroom, payload and tailroom.\<close>

type_synonym skb_view = "byte list \<times> byte list \<times> byte list"

definition skb_abs :: "skbuff \<Rightarrow> skb_view" where
  "skb_abs s =
     (take (skb_head s) (skb_storage s),
      take (skb_len s) (drop (skb_head s) (skb_storage s)),
      drop (skb_head s + skb_len s) (skb_storage s))"

fun spec_skb_step :: "skb_op \<Rightarrow> skb_view \<Rightarrow> skb_view" where
  "spec_skb_step (SPut xs) (h, p, t) =
     (if length t < length xs then (h, p, t) else (h, p @ xs, drop (length xs) t))"
| "spec_skb_step (SPull n) (h, p, t) = (h @ take n p, drop n p, t)"
| "spec_skb_step (SPush n) (h, p, t) =
     (if length h < n then (h, p, t)
      else (take (length h - n) h, drop (length h - n) h @ p, t))"
| "spec_skb_step (SReserve n) (h, p, t) = (replicate (n - length h) 0 @ h, p, t)"
| "spec_skb_step (SSetLen n) (h, p, t) = (h, take n (p @ t), drop n (p @ t))"

fun spec_skb_run :: "skb_op list \<Rightarrow> skb_view \<Rightarrow> skb_view" where
  "spec_skb_run [] v = v"
| "spec_skb_run (x # xs) v = spec_skb_run xs (spec_skb_step x v)"

lemma skb_wf_alloc [wf_intros]: "skb_wf (alloc_with_headroom c h)"
  by (simp add: skb_wf_def alloc_with_headroom_def)

lemma skb_data_abs: "skb_wf s \<Longrightarrow> skb_data s = ok (fst (snd (skb_abs s)))"
  by (simp add: skb_data_def slice_get_def skb_wf_def skb_abs_def)

lemma skb_abs_lengths:
  assumes "skb_wf s" and "skb_abs s = (h, p, t)"
  shows "length h = skb_head s" "length p = skb_len s" "length t = skb_tailroom s"
  using assms by (auto simp: skb_wf_def skb_abs_def skb_tailroom_def)

text \<open>A well-formed buffer is the concatenation of its three parts.\<close>

lemma skb_wf_cases:
  assumes "skb_wf s"
  obtains h p t where "s = \<lparr>skb_storage = h @ p @ t, skb_head = length h, skb_len = length p\<rparr>"
proof
  let ?st = "skb_storage s"
  show "s = \<lparr>skb_storage = take (skb_head s) ?st @ take (skb_len s) (drop (skb_head s) ?st)
                 @ drop (skb_head s + skb_len s) ?st,
             skb_head = length (take (skb_head s) ?st),
             skb_len = length (take (skb_len s) (drop (skb_head s) ?st))\<rparr>"
    using assms by (cases s) (simp add: skb_wf_def take_drop_split)
qed

lemma skb_abs_parts [abs_simps]:
  "skb_abs \<lparr>skb_storage = h @ p @ t, skb_head = length h, skb_len = length p\<rparr> = (h, p, t)"
  by (simp add: skb_abs_def)

lemma skb_eq_parts:
  "\<lbrakk>skb_storage s = h @ p @ t; skb_head s = length h; skb_len s = length p\<rbrakk>
   \<Longrightarrow> skb_wf s \<and> skb_abs s = (h, p, t)"
  by (simp add: skb_abs_def skb_wf_def)

lemma skb_step_put:
  assumes "skb_wf s"
  shows "\<exists>s'. skb_step (SPut xs) s = ok s' \<and> skb_wf s' \<and>
              skb_abs s' = spec_skb_step (SPut xs) (skb_abs s)"
proof -
  from assms obtain h p t where s: "s = \<lparr>skb_storage = h @ p @ t, skb_head = length h, skb_len = length p\<rparr>"
    by (rule skb_wf_cases)
  show ?thesis
  proof (cases "length t < length xs")
    case True
    then show ?thesis
      by (simp add: s abs_simps skb_put_def skb_tailroom_def skb_wf_def)
  next
    case False
    let ?s = "\<lparr>skb_storage = h @ (p @ xs) @ drop (length xs) t,
               skb_head = length h, skb_len = length (p @ xs)\<rparr>"
    have "skb_step (SPut xs) s = ok ?s"
      using False by (simp add: s skb_put_def skb_tailroom_def skb_fill_def slice_set_def Let_def)
    moreover have "skb_wf ?s \<and> skb_abs ?s = (h, p @ xs, drop (length xs) t)"
      by (rule skb_eq_parts) simp_all
    ultimately show ?thesis
      using False by (simp add: s abs_simps)
  qed
qed

lemma skb_step_pull:
  assumes "skb_wf s"
  shows "skb_wf (skb_pull n s) \<and> skb_abs (skb_pull n s) = spec_skb_step (SPull n) (skb_abs s)"
proof -
  from assms obtain h p t where s: "s = \<lparr>skb_storage = h @ p @ t, skb_head = length h, skb_len = length p\<rparr>"
    by (rule skb_wf_cases)
  have "skb_wf (skb_pull n s) \<and> skb_abs (skb_pull n s) = (h @ take n p, drop n p, t)"
    by (rule skb_eq_parts) (simp_all add: s skb_pull_def Let_def min.commute)
  then show ?thesis by (simp add: s abs_simps)
qed

lemma skb_step_push:
  assumes "skb_wf s"
  shows "skb_wf (snd (skb_push n s)) \<and>
         skb_abs (snd (skb_push n s)) = spec_skb_step (SPush n) (skb_abs s)"
proof -
  from assms obtain h p t where s: "s = \<lparr>skb_storage = h @ p @ t, skb_head = length h, skb_len = length p\<rparr>"
    by (rule skb_wf_cases)
  show ?thesis
  proof (cases "length h < n")
    case True
    then show ?thesis using assms by (simp add: s abs_simps skb_push_def)
  next
    case False
    let ?k = "length h - n"
    have "take ?k h @ (drop ?k h @ p) @ t = h @ p @ t"
      by (simp flip: append_assoc)
    with False have "skb_wf (snd (skb_push n s)) \<and>
        skb_abs (snd (skb_push n s)) = (take ?k h, drop ?k h @ p, t)"
      by (intro skb_eq_parts) (simp_all add: s skb_push_def)
    with False show ?thesis by (simp add: s abs_simps)
  qed
qed

lemma skb_step_reserve:
  assumes "skb_wf s"
  shows "skb_wf (skb_reserve n s) \<and>
         skb_abs (skb_reserve n s) = spec_skb_step (SReserve n) (skb_abs s)"
proof -
  from assms obtain h p t where s: "s = \<lparr>skb_storage = h @ p @ t, skb_head = length h, skb_len = length p\<rparr>"
    by (rule skb_wf_cases)
  have "skb_wf (skb_reserve n s) \<and>
        skb_abs (skb_reserve n s) = (replicate (n - length h) 0 @ h, p, t)"
    by (rule skb_eq_parts) (simp_all add: s skb_reserve_def Let_def)
  then show ?thesis by (simp add: s abs_simps)
qed

lemma skb_step_set_len:
  assumes "skb_wf s"
  shows "skb_wf (skb_set_len n s) \<and>
         skb_abs (skb_set_len n s) = spec_skb_step (SSetLen n) (skb_abs s)"
proof -
  from assms obtain h p t where s: "s = \<lparr>skb_storage = h @ p @ t, skb_head = length h, skb_len = length p\<rparr>"
    by (rule skb_wf_cases)
  have "skb_wf (skb_set_len n s) \<and>
        skb_abs (skb_set_len n s) = (h, take n (p @ t), drop n (p @ t))"
    by (rule skb_eq_parts) (simp_all add: s skb_set_len_def min.commute del: take_append drop_append)
  then show ?thesis by (simp add: s abs_simps)
qed

lemmas skb_step_lemmas =
  skb_step_pull skb_step_push skb_step_reserve skb_step_set_len

lemma skb_step_refines:
  assumes "skb_wf s"
  shows "\<exists>s'. skb_step x s = ok s' \<and> skb_wf s' \<and> skb_abs s' = spec_skb_step x (skb_abs s)"
  using assms
proof (cases x)
  case (SPut xs)
  with assms show ?thesis by (simp only: skb_step_put)
qed (simp_all add: skb_step_lemmas)

lemma skb_run_refines:
  assumes "skb_wf s"
  shows "\<exists>s'. skb_run xs s = ok s' \<and> skb_wf s' \<and> skb_abs s' = spec_skb_run xs (skb_abs s)"
  using assms
proof (induction xs arbitrary: s)
  case Nil
  then show ?case by simp
next
  case (Cons x xs)
  from Cons.prems obtain s1 where s1: "skb_step x s = ok s1" "skb_wf s1"
      "skb_abs s1 = spec_skb_step x (skb_abs s)"
    using skb_step_refines by blast
  from Cons.IH [OF s1(2)] s1 show ?case by simp
qed

text \<open>
  A mutable dereference spans more than a shared one: the data and the whole tailroom behind it.
\<close>

lemma skb_deref_views:
  assumes "skb_wf s"
  shows "\<exists>xs a b. skb_deref s = ok xs \<and> skb_deref_mut s = ok (a, b) \<and> a = skb_head s \<and>
    length xs = skb_len s \<and> b - a = length xs + skb_tailroom s"
  using assms by (simp add: skb_wf_def skb_deref_def skb_deref_mut_def skb_data_def slice_get_def skb_tailroom_def Let_def)


text \<open>
  \<open>copy_bits\<close> never panics on a well-formed buffer: it copies the part of the payload
  that starts at \<open>off\<close>, cut to \<open>n\<close> bytes and to the destination, reports its length, and
  leaves the rest of the destination alone.
\<close>

theorem copy_bits_correct:
  assumes "skb_wf s" and "skb_abs s = (h, p, t)"
  shows "copy_bits s dst off n =
           (let xs = take (length dst) (take n (drop off p))
            in ok (length xs, xs @ drop (length xs) dst))"
proof -
  define st where "st = min off (length p)"
  define c where "c = min (min (length p - st) n) (length dst)"
  define xs where "xs = take (length dst) (take n (drop off p))"
  have len: "length xs = c"
    by (auto simp: xs_def c_def st_def min_def)
  have dr: "drop st p = drop off p"
    by (auto simp: st_def min_def)
  have st: "st + c \<le> length p" and c: "c \<le> length dst"
    by (auto simp: st_def c_def)
  have "take c (drop st p) = xs"
    unfolding dr xs_def using len
    by (metis append_take_drop_id append_eq_conv_conj take_take xs_def)
  then have get: "slice_get st (st + c) p = ok xs"
    using st by (simp add: slice_get_def)
  have set: "slice_set 0 c xs dst = ok (xs @ drop c dst)"
    using len c by (simp add: slice_set_def)
  have "copy_bits s dst off n = ok (c, xs @ drop c dst)"
    using assms get set by (simp add: copy_bits_def skb_data_abs Let_def flip: st_def c_def)
  then show ?thesis
    unfolding xs_def [symmetric] Let_def len .
qed

theorem copy_bits_correct_witness:
  "copy_bits \<lparr>skb_storage = [9, 1, 2, 3, 0], skb_head = 1, skb_len = 3\<rparr> [7, 7, 7] 1 5
     = ok (2, [2, 3, 7])"
  using copy_bits_correct [of "\<lparr>skb_storage = [9, 1, 2, 3, 0], skb_head = 1, skb_len = 3\<rparr>"
      "[9]" "[1, 2, 3]" "[0]" "[7, 7, 7]" 1 5]
  by (simp add: skb_wf_def skb_abs_def)

section \<open>SkbQueue\<close>

record skb_queue =
  sq_queue :: "skbuff list"

definition SkbQueue_new :: skb_queue where
  "SkbQueue_new = \<lparr>sq_queue = []\<rparr>"

definition push_tail :: "skbuff \<Rightarrow> skb_queue \<Rightarrow> skb_queue" where
  "push_tail x q = q\<lparr>sq_queue := sq_queue q @ [x]\<rparr>"

definition pop_head :: "skb_queue \<Rightarrow> skbuff option \<times> skb_queue" where
  "pop_head q = (case sq_queue q of [] \<Rightarrow> (None, q) | x # xs \<Rightarrow> (Some x, q\<lparr>sq_queue := xs\<rparr>))"

definition pop_tail :: "skb_queue \<Rightarrow> skbuff option \<times> skb_queue" where
  "pop_tail q =
     (if sq_queue q = [] then (None, q)
      else (Some (last (sq_queue q)), q\<lparr>sq_queue := butlast (sq_queue q)\<rparr>))"

definition sq_is_empty :: "skb_queue \<Rightarrow> bool" where
  "sq_is_empty q \<longleftrightarrow> sq_queue q = []"

definition sq_len :: "skb_queue \<Rightarrow> nat" where
  "sq_len q = length (sq_queue q)"

definition sq_clear :: "skb_queue \<Rightarrow> skb_queue" where
  "sq_clear q = q\<lparr>sq_queue := []\<rparr>"

text \<open>The double-ended queue interface that \<open>FrameQueue\<close> uses, over the list of its elements.\<close>

locale deque =
  fixes empty :: "'q"
    and push :: "'a \<Rightarrow> 'q \<Rightarrow> 'q"
    and popf :: "'q \<Rightarrow> 'a option \<times> 'q"
    and popb :: "'q \<Rightarrow> 'a option \<times> 'q"
    and elems :: "'q \<Rightarrow> 'a list"
  assumes elems_empty: "elems empty = []"
    and elems_push: "elems (push x q) = elems q @ [x]"
    and popf_Nil: "elems q = [] \<Longrightarrow> popf q = (None, q)"
    and popf_Cons: "elems q = x # xs \<Longrightarrow> fst (popf q) = Some x \<and> elems (snd (popf q)) = xs"
    and popb_Nil: "elems q = [] \<Longrightarrow> popb q = (None, q)"
    and popb_snoc: "elems q = xs @ [x] \<Longrightarrow> fst (popb q) = Some x \<and> elems (snd (popb q)) = xs"
begin

lemma elems_push_all: "elems (fold push xs q) = elems q @ xs"
  by (induction xs arbitrary: q) (simp_all add: elems_push)

lemma popf_None_iff: "fst (popf q) = None \<longleftrightarrow> elems q = []"
  using popf_Nil popf_Cons by (cases "elems q") force+

lemma popf_Some: "popf q = (Some x, q') \<longleftrightarrow> (fst (popf q) = Some x \<and> q' = snd (popf q))"
  by (auto simp: prod_eq_iff)

lemma popb_push: "fst (popb (push x q)) = Some x \<and> elems (snd (popb (push x q))) = elems q"
  by (rule popb_snoc) (rule elems_push)

lemma popf_elems:
  "popf q = (r, q') \<Longrightarrow> elems q = (case r of None \<Rightarrow> [] | Some x \<Rightarrow> [x]) @ elems q'"
  using popf_Nil [of q] popf_Cons [of q] by (cases "elems q") auto

end

interpretation skbq: deque SkbQueue_new push_tail pop_head pop_tail sq_queue
  by unfold_locales
    (auto simp: SkbQueue_new_def push_tail_def pop_head_def pop_tail_def split: list.splits)

section \<open>FrameQueue\<close>

record frame_queue =
  fq_num_prio :: nat
  fq_hi_prio :: u16
  fq_queues :: "skb_queue list"

definition MAX_PRIO :: nat where
  "MAX_PRIO = 8"

definition FrameQueue_new :: "nat \<Rightarrow> frame_queue" where
  "FrameQueue_new num_prio =
     \<lparr>fq_num_prio = min num_prio MAX_PRIO, fq_hi_prio = 0,
      fq_queues = replicate 8 SkbQueue_new\<rparr>"

definition fq_enqueue :: "skbuff \<Rightarrow> nat \<Rightarrow> frame_queue \<Rightarrow> frame_queue result" where
  "fq_enqueue skb prio fq =
     (let p = min prio (fq_num_prio fq - 1);
          fq1 = (if fq_hi_prio fq = 0 \<or> (of_nat p :: u16) < fq_hi_prio fq
                 then fq\<lparr>fq_hi_prio := of_nat p\<rparr> else fq)
      in if p < length (fq_queues fq1)
         then ok (fq1\<lparr>fq_queues := (fq_queues fq1)[p := push_tail skb (fq_queues fq1 ! p)]\<rparr>)
         else panic IndexRange)"

function fq_dequeue :: "frame_queue \<Rightarrow> (skbuff option \<times> frame_queue) result" where
  "fq_dequeue fq =
     (if fq_hi_prio fq < of_nat (fq_num_prio fq) then
        let i = unat (fq_hi_prio fq) in
        if i < length (fq_queues fq) then
          (case pop_head (fq_queues fq ! i) of
             (Some skb, q) \<Rightarrow> ok (Some skb, fq\<lparr>fq_queues := (fq_queues fq)[i := q]\<rparr>)
           | (None, q) \<Rightarrow> fq_dequeue (fq\<lparr>fq_queues := (fq_queues fq)[i := q],
                                          fq_hi_prio := fq_hi_prio fq + 1\<rparr>))
        else panic IndexRange
      else ok (None, fq\<lparr>fq_hi_prio := 0\<rparr>))"
  by pat_completeness auto

termination
  by (relation "measure (\<lambda>fq. unat (of_nat (fq_num_prio fq) :: u16) - unat (fq_hi_prio fq))")
    (auto simp: word_succ_less)

declare fq_dequeue.simps [simp del]

definition fq_is_empty :: "frame_queue \<Rightarrow> bool result" where
  "fq_is_empty fq =
     bind_res (slice_get 0 (fq_num_prio fq) (fq_queues fq)) (\<lambda>qs. ok (\<forall>q \<in> set qs. sq_is_empty q))"

text \<open>
  \<open>fq_ordered\<close> is what the cursor has to promise: no frame waits below \<open>hi_prio\<close>.
  \<open>fq_pending\<close> lists the waiting frames by priority, each priority in arrival order.
\<close>

definition fq_wf :: "frame_queue \<Rightarrow> bool" where
  "fq_wf fq \<longleftrightarrow> fq_num_prio fq \<le> MAX_PRIO \<and> length (fq_queues fq) = MAX_PRIO"

definition fq_ordered :: "frame_queue \<Rightarrow> bool" where
  "fq_ordered fq \<longleftrightarrow>
     (\<forall>i < min (unat (fq_hi_prio fq)) (fq_num_prio fq). sq_queue (fq_queues fq ! i) = [])"

definition fq_pending :: "frame_queue \<Rightarrow> skbuff list" where
  "fq_pending fq = concat (map sq_queue (take (fq_num_prio fq) (fq_queues fq)))"

lemma fq_wf_new [wf_intros]: "fq_wf (FrameQueue_new n)" "fq_ordered (FrameQueue_new n)"
  by (simp_all add: fq_wf_def fq_ordered_def FrameQueue_new_def MAX_PRIO_def)

lemma unat_of_prio: "n \<le> MAX_PRIO \<Longrightarrow> unat (of_nat n :: u16) = n"
  by (simp add: unat_of_nat MAX_PRIO_def)

lemma fq_hi_less:
  "fq_wf fq \<Longrightarrow> fq_hi_prio fq < of_nat (fq_num_prio fq) \<longleftrightarrow> unat (fq_hi_prio fq) < fq_num_prio fq"
  by (simp add: word_less_nat_alt unat_of_prio fq_wf_def)

lemma fq_pending_split:
  assumes "fq_wf fq" and "i < fq_num_prio fq"
  shows "fq_pending fq = concat (map sq_queue (take i (fq_queues fq))) @ sq_queue (fq_queues fq ! i)
           @ concat (map sq_queue (drop (Suc i) (take (fq_num_prio fq) (fq_queues fq))))"
  using concat_map_split [of i "take (fq_num_prio fq) (fq_queues fq)" sq_queue] assms
  by (simp add: fq_pending_def fq_wf_def min_def)

lemma fq_pending_update:
  assumes "fq_wf fq" and "i < fq_num_prio fq"
  shows "fq_pending (fq\<lparr>fq_queues := (fq_queues fq)[i := q]\<rparr>) =
           concat (map sq_queue (take i (fq_queues fq))) @ sq_queue q
           @ concat (map sq_queue (drop (Suc i) (take (fq_num_prio fq) (fq_queues fq))))"
proof -
  let ?fq = "fq\<lparr>fq_queues := (fq_queues fq)[i := q]\<rparr>"
  have "fq_wf ?fq" using assms(1) by (simp add: fq_wf_def)
  from fq_pending_split [OF this, of i] show ?thesis
    using assms by (simp add: fq_wf_def drop_take drop_update_cancel take_update_cancel)
qed

lemma fq_ordered_below:
  assumes "fq_wf fq" "fq_ordered fq" "unat (fq_hi_prio fq) < fq_num_prio fq"
  shows "concat (map sq_queue (take (unat (fq_hi_prio fq)) (fq_queues fq))) = []"
proof -
  have "sq_queue q = []" if "q \<in> set (take (unat (fq_hi_prio fq)) (fq_queues fq))" for q
  proof -
    from that obtain j where "j < unat (fq_hi_prio fq)" "q = fq_queues fq ! j"
      by (auto simp: in_set_conv_nth)
    with assms show ?thesis by (auto simp: fq_ordered_def)
  qed
  then show ?thesis by simp
qed

lemma fq_dequeue_pending:
  assumes "fq_wf fq" "fq_ordered fq"
  shows "\<exists>fq'. fq_dequeue fq = ok (case fq_pending fq of [] \<Rightarrow> None | x # _ \<Rightarrow> Some x, fq') \<and>
               fq_pending fq' = tl (fq_pending fq) \<and> fq_wf fq' \<and> fq_ordered fq' \<and>
               fq_num_prio fq' = fq_num_prio fq"
  using assms
proof (induction fq rule: fq_dequeue.induct)
  case (1 fq)
  let ?i = "unat (fq_hi_prio fq)"
  show ?case
  proof (cases "?i < fq_num_prio fq")
    case False
    then have "fq_pending fq = []"
      using "1.prems" by (auto simp: fq_pending_def fq_ordered_def fq_wf_def in_set_conv_nth)
    moreover have "fq_pending (fq\<lparr>fq_hi_prio := 0\<rparr>) = fq_pending fq"
      by (simp add: fq_pending_def)
    ultimately show ?thesis
      using False "1.prems"
      by (subst fq_dequeue.simps) (simp add: fq_hi_less fq_wf_def fq_ordered_def)
  next
    case True
    note lt = True and wf = "1.prems"(1)
    have len: "?i < length (fq_queues fq)" using wf lt by (simp add: fq_wf_def)
    have below: "concat (map sq_queue (take ?i (fq_queues fq))) = []"
      using fq_ordered_below "1.prems" lt by blast
    have hi: "fq_hi_prio fq < of_nat (fq_num_prio fq)"
      using wf lt by (simp add: fq_hi_less)
    note split = fq_pending_split [OF wf lt, unfolded below append_Nil]
    show ?thesis
    proof (cases "sq_queue (fq_queues fq ! ?i)")
      case Nil
      let ?fq = "fq\<lparr>fq_queues := (fq_queues fq)[?i := fq_queues fq ! ?i],
                    fq_hi_prio := fq_hi_prio fq + 1\<rparr>"
      have pop: "pop_head (fq_queues fq ! ?i) = (None, fq_queues fq ! ?i)"
        using Nil by (rule skbq.popf_Nil)
      have "fq_ordered ?fq"
        using Nil "1.prems"(2) hi by (auto simp: fq_ordered_def word_succ_less less_Suc_eq)
      moreover have "fq_wf ?fq" using wf by (simp add: fq_wf_def)
      moreover have "fq_pending ?fq = fq_pending fq" by (simp add: fq_pending_def)
      ultimately show ?thesis
        using "1.IH" [OF hi refl len pop [symmetric] refl] hi len pop
        by (subst fq_dequeue.simps) simp
    next
      case (Cons x xs)
      then obtain q where pop: "pop_head (fq_queues fq ! ?i) = (Some x, q)"
        and rest: "sq_queue q = xs"
        using skbq.popf_Cons [OF Cons] by (metis prod.collapse)
      let ?fq = "fq\<lparr>fq_queues := (fq_queues fq)[?i := q]\<rparr>"
      have "fq_dequeue fq = ok (Some x, ?fq)"
        using hi len pop by (subst fq_dequeue.simps) simp
      moreover have "fq_pending ?fq = tl (fq_pending fq)"
        by (simp add: fq_pending_update [OF wf lt] below rest split Cons)
      moreover have "fq_wf ?fq \<and> fq_ordered ?fq"
        using "1.prems" by (simp add: fq_wf_def fq_ordered_def)
      ultimately show ?thesis by (simp add: split Cons)
    qed
  qed
qed

lemma fq_dequeue_drained:
  assumes "fq_wf fq"
    and "\<forall>i. unat (fq_hi_prio fq) \<le> i \<longrightarrow> i < fq_num_prio fq \<longrightarrow> sq_queue (fq_queues fq ! i) = []"
  shows "fq_dequeue fq = ok (None, fq\<lparr>fq_hi_prio := 0\<rparr>)"
  using assms
proof (induction fq rule: fq_dequeue.induct)
  case (1 fq)
  let ?i = "unat (fq_hi_prio fq)"
  show ?case
  proof (cases "?i < fq_num_prio fq")
    case False
    then show ?thesis
      using "1.prems"(1) by (subst fq_dequeue.simps) (simp add: fq_hi_less)
  next
    case True
    then have hi: "fq_hi_prio fq < of_nat (fq_num_prio fq)" and len: "?i < length (fq_queues fq)"
      using "1.prems"(1) by (simp_all add: fq_hi_less) (simp add: fq_wf_def)
    have pop: "pop_head (fq_queues fq ! ?i) = (None, fq_queues fq ! ?i)"
      using "1.prems"(2) True by (simp add: skbq.popf_Nil)
    let ?fq = "fq\<lparr>fq_queues := (fq_queues fq)[?i := fq_queues fq ! ?i],
                  fq_hi_prio := fq_hi_prio fq + 1\<rparr>"
    have "fq_wf ?fq"
      using "1.prems"(1) by (simp add: fq_wf_def)
    moreover have "\<forall>i. unat (fq_hi_prio ?fq) \<le> i \<longrightarrow> i < fq_num_prio ?fq \<longrightarrow> sq_queue (fq_queues ?fq ! i) = []"
      using "1.prems"(2) hi by (simp add: word_succ_less)
    ultimately have "fq_dequeue ?fq = ok (None, ?fq\<lparr>fq_hi_prio := 0\<rparr>)"
      using "1.IH" [OF hi refl len pop [symmetric] refl] by blast
    then show ?thesis
      using hi len pop by (subst fq_dequeue.simps) simp
  qed
qed

lemma fq_enqueue_eq:
  fixes prio :: nat
  assumes "fq_wf fq" and "0 < fq_num_prio fq"
  defines "p \<equiv> min prio (fq_num_prio fq - 1)"
  shows "fq_enqueue skb prio fq =
     ok (fq\<lparr>fq_hi_prio := (if fq_hi_prio fq = 0 \<or> (of_nat p :: u16) < fq_hi_prio fq
                           then of_nat p else fq_hi_prio fq),
            fq_queues := (fq_queues fq)[p := push_tail skb (fq_queues fq ! p)]\<rparr>)"
  using assms by (auto simp: fq_enqueue_def fq_wf_def MAX_PRIO_def Let_def)

lemma fq_enqueue_pending:
  fixes prio :: nat
  assumes "fq_wf fq" and "0 < fq_num_prio fq"
  defines "p \<equiv> min prio (fq_num_prio fq - 1)"
  shows "\<exists>fq'. fq_enqueue skb prio fq = ok fq' \<and> fq_wf fq' \<and> fq_num_prio fq' = fq_num_prio fq \<and>
           sq_queue (fq_queues fq' ! p) = sq_queue (fq_queues fq ! p) @ [skb] \<and>
           (\<forall>i. i \<noteq> p \<longrightarrow> fq_queues fq' ! i = fq_queues fq ! i)"
proof -
  have "p < length (fq_queues fq)" using assms by (auto simp: p_def fq_wf_def)
  then show ?thesis
    using assms(1,2) by (auto simp: fq_enqueue_eq p_def fq_wf_def skbq.elems_push)
qed

text \<open>
  (C28) Dequeueing from a well-formed multi-priority queue whose cursor is right returns the
  oldest frame of the most urgent non-empty priority, removes exactly that frame, keeps the
  cursor right, and returns nothing only when no frame waits; the loop over the priorities
  always ends.
\<close>

theorem fq_dequeue_most_urgent:
  assumes "fq_wf fq" and "fq_ordered fq"
  shows "\<exists>fq'. fq_dequeue fq = ok (case fq_pending fq of [] \<Rightarrow> None | x # _ \<Rightarrow> Some x, fq') \<and>
               fq_pending fq' = tl (fq_pending fq) \<and> fq_wf fq' \<and> fq_ordered fq'"
  using fq_dequeue_pending [OF assms] by blast

text \<open>
  Enqueueing keeps the cursor right when the cursor is not 0, or when every queue more
  urgent than the target is empty; the frame is appended to the clamped priority and no
  other priority changes.
\<close>

theorem fq_enqueue_keeps_order:
  assumes "fq_wf fq" and "fq_ordered fq" and "0 < fq_num_prio fq"
    and "fq_hi_prio fq \<noteq> 0 \<or>
         (\<forall>i < min prio (fq_num_prio fq - 1). sq_queue (fq_queues fq ! i) = [])"
  shows "\<exists>fq'. fq_enqueue skb prio fq = ok fq' \<and> fq_wf fq' \<and> fq_ordered fq' \<and>
           sq_queue (fq_queues fq' ! min prio (fq_num_prio fq - 1))
             = sq_queue (fq_queues fq ! min prio (fq_num_prio fq - 1)) @ [skb] \<and>
           (\<forall>i. i \<noteq> min prio (fq_num_prio fq - 1) \<longrightarrow> fq_queues fq' ! i = fq_queues fq ! i)"
proof -
  define p where "p = min prio (fq_num_prio fq - 1)"
  have p8: "p \<le> MAX_PRIO" "unat (of_nat p :: u16) = p"
    using assms(1) unat_of_prio by (auto simp: p_def fq_wf_def)
  obtain fq' where fq': "fq_enqueue skb prio fq = ok fq'" "fq_wf fq'" "fq_num_prio fq' = fq_num_prio fq"
      "sq_queue (fq_queues fq' ! p) = sq_queue (fq_queues fq ! p) @ [skb]"
      "\<forall>i. i \<noteq> p \<longrightarrow> fq_queues fq' ! i = fq_queues fq ! i"
    using fq_enqueue_pending [OF assms(1,3), of skb prio] p_def by blast
  have hi: "unat (fq_hi_prio fq') =
     (if fq_hi_prio fq = 0 then p else min p (unat (fq_hi_prio fq)))"
  proof -
    have "fq_hi_prio fq' = (if fq_hi_prio fq = 0 \<or> (of_nat p :: u16) < fq_hi_prio fq
                            then of_nat p else fq_hi_prio fq)"
      using fq'(1) fq_enqueue_eq [OF assms(1,3), of skb prio] by (auto simp: p_def)
    with p8 show ?thesis by (auto simp: word_less_nat_alt)
  qed
  have "sq_queue (fq_queues fq' ! i) = []" if i: "i < min (unat (fq_hi_prio fq')) (fq_num_prio fq')" for i
  proof -
    from i hi have "i < p" by (auto split: if_splits)
    then have "fq_queues fq' ! i = fq_queues fq ! i" using fq'(5) by simp
    moreover have "sq_queue (fq_queues fq ! i) = []"
      using i hi assms(2,4) \<open>i < p\<close> fq'(3) by (auto simp: fq_ordered_def p_def split: if_splits)
    ultimately show ?thesis by simp
  qed
  then have "fq_ordered fq'" by (simp add: fq_ordered_def)
  with fq' show ?thesis by (auto simp: p_def)
qed

theorem fq_enqueue_keeps_order_witness:
  "\<exists>fq'. fq_enqueue (skb_alloc 4) 3 (FrameQueue_new 8) = ok fq' \<and> fq_wf fq' \<and> fq_ordered fq' \<and>
         sq_queue (fq_queues fq' ! 3) = [skb_alloc 4]"
proof -
  have "sq_queue (fq_queues (FrameQueue_new 8) ! i) = []" if "i < 8" for i
    using that by (simp add: FrameQueue_new_def SkbQueue_new_def)
  then show ?thesis
    using fq_enqueue_keeps_order [of "FrameQueue_new 8" 3 "skb_alloc 4", OF fq_wf_new]
    by (force simp: FrameQueue_new_def MAX_PRIO_def)
qed

text \<open>
  (C29) The cursor value 0 stands both for priority 0 and for "nothing queued", so the order is
  lost when a frame of a less urgent priority arrives while a priority-0 frame waits: from an
  empty queue, enqueue \<open>a\<close> at 0 and \<open>b\<close> at any \<open>p > 0\<close>; the first dequeue returns \<open>b\<close>, the
  second returns nothing although \<open>a\<close> is still queued.
\<close>

theorem fq_priority_inversion:
  assumes "0 < p" and "p < 8"
  shows "\<exists>f1 f2 f3 f4.
     fq_enqueue a 0 (FrameQueue_new 8) = ok f1 \<and> fq_enqueue b p f1 = ok f2 \<and>
     fq_dequeue f2 = ok (Some b, f3) \<and> fq_dequeue f3 = ok (None, f4) \<and>
     fq_is_empty f3 = ok False \<and> sq_queue (fq_queues f4 ! 0) = [a]"
proof -
  let ?qa = "\<lparr>sq_queue = [a]\<rparr>" and ?qb = "\<lparr>sq_queue = [b]\<rparr>"
  let ?f1 = "\<lparr>fq_num_prio = 8, fq_hi_prio = 0, fq_queues = (replicate 8 SkbQueue_new)[0 := ?qa]\<rparr>"
  let ?f2 = "?f1\<lparr>fq_hi_prio := of_nat p, fq_queues := (fq_queues ?f1)[p := ?qb]\<rparr>"
  let ?f3 = "?f2\<lparr>fq_queues := (fq_queues ?f1)[p := SkbQueue_new]\<rparr>"
  have "fq_enqueue a 0 (FrameQueue_new 8) = ok ?f1"
    by (simp add: fq_enqueue_def FrameQueue_new_def MAX_PRIO_def push_tail_def SkbQueue_new_def)
  moreover have "fq_enqueue b p ?f1 = ok ?f2"
    using assms by (simp add: fq_enqueue_def push_tail_def SkbQueue_new_def Let_def)
  moreover have "fq_dequeue ?f2 = ok (Some b, ?f3)"
    using assms
    by (subst fq_dequeue.simps)
      (simp add: word_less_nat_alt unat_of_nat pop_head_def SkbQueue_new_def)
  moreover have "?qa \<in> set (fq_queues ?f3)"
    using assms nth_mem [of 0 "fq_queues ?f3"] by simp
  then have "fq_is_empty ?f3 = ok False"
    by (auto simp: fq_is_empty_def slice_get_def sq_is_empty_def intro!: bexI [of _ ?qa])
  moreover have "fq_dequeue ?f3 = ok (None, ?f3\<lparr>fq_hi_prio := 0\<rparr>)"
    using assms
    by (intro fq_dequeue_drained)
      (auto simp: fq_wf_def MAX_PRIO_def unat_of_nat nth_list_update SkbQueue_new_def)
  moreover have "sq_queue (fq_queues (?f3\<lparr>fq_hi_prio := 0\<rparr>) ! 0) = [a]"
    using assms by simp
  ultimately show ?thesis by blast
qed

theorem fq_priority_inversion_witness:
  "\<exists>f1 f2 f3 f4.
     fq_enqueue (skb_alloc 1) 0 (FrameQueue_new 8) = ok f1 \<and> fq_enqueue (skb_alloc 2) 3 f1 = ok f2 \<and>
     fq_dequeue f2 = ok (Some (skb_alloc 2), f3) \<and> fq_dequeue f3 = ok (None, f4) \<and>
     fq_is_empty f3 = ok False \<and> sq_queue (fq_queues f4 ! 0) = [skb_alloc 1]"
  using fq_priority_inversion [of 3 "skb_alloc 1" "skb_alloc 2"] by simp

theorem fq_dequeue_most_urgent_witness:
  "\<exists>fq'. fq_dequeue \<lparr>fq_num_prio = 4, fq_hi_prio = 1,
            fq_queues = (replicate 8 SkbQueue_new)[2 := \<lparr>sq_queue = [skb_alloc 1, skb_alloc 2]\<rparr>]\<rparr>
          = ok (Some (skb_alloc 1), fq') \<and> fq_pending fq' = [skb_alloc 2]"
proof -
  let ?fq = "\<lparr>fq_num_prio = 4, fq_hi_prio = 1,
              fq_queues = (replicate 8 SkbQueue_new)[2 := \<lparr>sq_queue = [skb_alloc 1, skb_alloc 2]\<rparr>]\<rparr>"
  have "fq_wf ?fq" by (simp add: fq_wf_def MAX_PRIO_def)
  moreover have "fq_ordered ?fq" by (simp add: fq_ordered_def SkbQueue_new_def)
  moreover have "fq_pending ?fq = [skb_alloc 1, skb_alloc 2]"
    by (simp add: fq_pending_def SkbQueue_new_def numeral_eq_Suc)
  ultimately show ?thesis
    using fq_dequeue_most_urgent [of ?fq] by auto
qed

end
