(* ===== verification/Mmc.thy ===== *)
theory Mmc
  imports Prelude
begin

text \<open>
  The MMC/SDIO bus abstraction (\<open>kernel/mmc/src\<close>): device ids and their matching
  (\<open>types.rs\<close>), enabling a function through the CCCR (\<open>cccr.rs\<close>), the \<open>SdioFunc\<close> trait with
  its default methods (\<open>sdio_func.rs\<close>), the claimed host (\<open>host.rs\<close>) and the one-slot driver registry (\<open>driver.rs\<close>).
  A trait is a record of its methods over the world type of its implementor; a method a
  trait only declares is a field, a default method is a definition over the record.
\<close>

section \<open>Types\<close>

record sdio_device_id =
  did_class :: u8
  did_vendor :: u16
  did_device :: u16

definition SDIO_ANY_ID :: u8 where
  "SDIO_ANY_ID = 0xff"

definition SDIO_ANY_ID_U16 :: u16 where
  "SDIO_ANY_ID_U16 = 0xffff"

definition device_id_any :: sdio_device_id where
  "device_id_any =
     \<lparr>did_class = SDIO_ANY_ID, did_vendor = SDIO_ANY_ID_U16, did_device = SDIO_ANY_ID_U16\<rparr>"

definition device_id_new :: "u8 \<Rightarrow> u16 \<Rightarrow> u16 \<Rightarrow> sdio_device_id" where
  "device_id_new c v d = \<lparr>did_class = c, did_vendor = v, did_device = d\<rparr>"

definition device_id_matches :: "sdio_device_id \<Rightarrow> sdio_device_id \<Rightarrow> bool" where
  "device_id_matches self other \<longleftrightarrow>
     (did_class self = SDIO_ANY_ID \<or> did_class self = did_class other) \<and>
     (did_vendor self = SDIO_ANY_ID_U16 \<or> did_vendor self = did_vendor other) \<and>
     (did_device self = SDIO_ANY_ID_U16 \<or> did_device self = did_device other)"

datatype mmc_bus_width = OneBit | FourBit | EightBit

record mmc_ios =
  ios_clock :: u32
  ios_bus_width :: mmc_bus_width

definition default_legacy :: mmc_ios where
  "default_legacy = \<lparr>ios_clock = 400000, ios_bus_width = OneBit\<rparr>"

definition sdio_class_WLAN :: u8 where
  "sdio_class_WLAN = 0x07"

definition SDIO_FUNC_BLOCKSIZE_DEFAULT :: u16 where
  "SDIO_FUNC_BLOCKSIZE_DEFAULT = 512"

record mmc_card =
  card_rca :: u16

section \<open>CCCR access\<close>

definition SDIO_CCCR_IO_ENABLE :: u8 where
  "SDIO_CCCR_IO_ENABLE = 0x02"

definition SDIO_CCCR_IO_READY :: u8 where
  "SDIO_CCCR_IO_READY = 0x03"

record 'w cccr_access =
  cccr_read_f0 :: "u8 \<Rightarrow> ('w, u8) io"
  cccr_write_f0 :: "u8 \<Rightarrow> u8 \<Rightarrow> ('w, unit) io"

definition func_bit :: "u8 \<Rightarrow> u8" where
  "func_bit func_num = push_bit (unat func_num) 1"

definition POLL_MS :: u32 where
  "POLL_MS = 2"

lemma add_poll_ms: "add_checked waited POLL_MS = ok v \<Longrightarrow> unat v = unat waited + 2"
  using add_checked_ok [of waited POLL_MS v] by (simp add: POLL_MS_def)

text \<open>The \<open>while waited < timeout_ms\<close> loop; \<open>delay\<close> is the caller's \<open>DelayMs\<close>.\<close>

function enable_poll ::
  "'w cccr_access \<Rightarrow> (u32 \<Rightarrow> 'w \<Rightarrow> 'w) \<Rightarrow> u8 \<Rightarrow> u32 \<Rightarrow> u32 \<Rightarrow> ('w, unit) io" where
  "enable_poll cccr delay fbit timeout_ms waited w =
     (if waited < timeout_ms then
        let w1 = delay POLL_MS w in
        case add_checked waited POLL_MS of
          Inl e \<Rightarrow> (Inl e, w1)
        | Inr waited' \<Rightarrow>
            (case io_unwrap_or (cccr_read_f0 cccr SDIO_CCCR_IO_READY) 0 w1 of
               (Inl e, w2) \<Rightarrow> (Inl e, w2)
             | (Inr io_ready, w2) \<Rightarrow>
                 if io_ready AND fbit \<noteq> 0 then (ok (), w2)
                 else enable_poll cccr delay fbit timeout_ms waited' w2)
      else (err (-110), w))"
  by pat_completeness auto

termination
  by (relation "measure (\<lambda>(cccr, delay, fbit, timeout_ms, waited, w). unat timeout_ms - unat waited)")
    (auto simp: word_less_nat_alt dest!: add_poll_ms)

declare enable_poll.simps [simp del]

definition sdio_enable_function ::
  "'w cccr_access \<Rightarrow> u8 \<Rightarrow> u32 \<Rightarrow> (u32 \<Rightarrow> 'w \<Rightarrow> 'w) \<Rightarrow> ('w, unit) io" where
  "sdio_enable_function cccr func_num timeout_ms delay =
     (if func_num = 0 \<or> func_num > 7 then io_fail (Errno (-22))
      else io_bind (cccr_read_f0 cccr SDIO_CCCR_IO_ENABLE) (\<lambda>io_enable.
           io_bind (cccr_write_f0 cccr SDIO_CCCR_IO_ENABLE (io_enable OR func_bit func_num)) (\<lambda>_.
           enable_poll cccr delay (func_bit func_num) timeout_ms 0)))"

definition sdio_disable_function :: "'w cccr_access \<Rightarrow> u8 \<Rightarrow> ('w, unit) io" where
  "sdio_disable_function cccr func_num =
     (if func_num = 0 \<or> func_num > 7 then io_fail (Errno (-22))
      else io_bind (cccr_read_f0 cccr SDIO_CCCR_IO_ENABLE) (\<lambda>io_enable.
           cccr_write_f0 cccr SDIO_CCCR_IO_ENABLE (io_enable AND NOT (func_bit func_num))))"

section \<open>Claimed host\<close>

text \<open>A host hands out a guard when it is claimed; dropping the guard releases the host.\<close>

record ('g, 'w) mmc_host =
  claim_host :: "'w \<Rightarrow> 'g \<times> 'w"
  drop_guard :: "'g \<Rightarrow> 'w \<Rightarrow> 'w"

definition default_set_ios :: "mmc_ios \<Rightarrow> ('w, unit) io" where
  "default_set_ios ios = io_return ()"

definition with_host_claimed :: "('g, 'w) mmc_host \<Rightarrow> ('w \<Rightarrow> 'r \<times> 'w) \<Rightarrow> 'w \<Rightarrow> 'r \<times> 'w" where
  "with_host_claimed host f w =
     (case claim_host host w of (guard, w1) \<Rightarrow> case f w1 of (r, w2) \<Rightarrow> (r, drop_guard host guard w2))"

section \<open>SdioFunc\<close>

record 'w sdio_func =
  sf_num :: u8
  sf_vendor :: u16
  sf_device :: u16
  sf_class :: u8
  sf_cur_blksize :: u16
  sf_readb :: "u32 \<Rightarrow> ('w, u8) io"
  sf_writeb :: "u32 \<Rightarrow> u8 \<Rightarrow> ('w, unit) io"
  sf_read_f0 :: "u8 \<Rightarrow> ('w, u8) io"
  sf_write_f0 :: "u8 \<Rightarrow> u8 \<Rightarrow> ('w, unit) io"
  sf_readsb :: "u32 \<Rightarrow> nat \<Rightarrow> ('w, nat \<times> byte list) io"
  sf_writesb :: "u32 \<Rightarrow> byte list \<Rightarrow> ('w, nat) io"
  sf_set_block_size :: "u16 \<Rightarrow> ('w, unit) io"
  sf_enable_func :: "('w, unit) io"
  sf_disable_func :: "('w, unit) io"

definition default_read_f0 :: "u8 \<Rightarrow> ('w, u8) io" where
  "default_read_f0 reg = io_fail (Errno (-38))"

definition default_write_f0 :: "u8 \<Rightarrow> u8 \<Rightarrow> ('w, unit) io" where
  "default_write_f0 reg val = io_fail (Errno (-38))"

definition default_claim_irq :: "('w, unit) io" where
  "default_claim_irq = io_return ()"

definition default_release_irq :: "('w, unit) io" where
  "default_release_irq = io_return ()"

definition align_size :: "u16 \<Rightarrow> nat \<Rightarrow> nat" where
  "align_size cur_blksize sz =
     (let blk = unat cur_blksize in if blk = 0 then sz else (sz + blk - 1) div blk * blk)"

definition func_device_id :: "'w sdio_func \<Rightarrow> sdio_device_id" where
  "func_device_id f = device_id_new (sf_class f) (sf_vendor f) (sf_device f)"

definition default_func_blocksize :: u16 where
  "default_func_blocksize = SDIO_FUNC_BLOCKSIZE_DEFAULT"

section \<open>Driver registry\<close>

record 'w sdio_driver =
  drv_name :: string
  drv_id_table :: "sdio_device_id list"
  drv_probe :: "'w sdio_func \<Rightarrow> ('w, unit) io"
  drv_remove :: "'w sdio_func \<Rightarrow> ('w, unit) io"

definition driver_matches :: "'w sdio_driver \<Rightarrow> sdio_device_id \<Rightarrow> bool" where
  "driver_matches d ident = list_ex (\<lambda>tid. device_id_matches tid ident) (drv_id_table d)"

definition default_remove :: "'w sdio_func \<Rightarrow> ('w, unit) io" where
  "default_remove f = io_return ()"

text \<open>\<open>REGISTERED\<close> is the slot behind the mutex; each function locks it for its own accesses.\<close>

type_synonym 'w registry = "'w sdio_driver option"

definition sdio_register_driver :: "'w sdio_driver \<Rightarrow> 'w registry \<Rightarrow> unit result \<times> 'w registry" where
  "sdio_register_driver d reg = (if reg \<noteq> None then (err (-16), reg) else (ok (), Some d))"

definition sdio_unregister_driver :: "'w registry \<Rightarrow> 'w registry" where
  "sdio_unregister_driver reg = None"

definition sdio_try_probe :: "'w registry \<Rightarrow> 'w sdio_func \<Rightarrow> ('w, unit) io" where
  "sdio_try_probe reg f =
     (let ident = func_device_id f;
          driver_opt = (case reg of None \<Rightarrow> None
                        | Some d \<Rightarrow> if driver_matches d ident then Some d else None)
      in case driver_opt of None \<Rightarrow> io_fail (Errno (-19)) | Some d \<Rightarrow> drv_probe d f)"

definition sdio_driver_remove :: "'w registry \<Rightarrow> 'w sdio_func \<Rightarrow> ('w, unit) io" where
  "sdio_driver_remove reg f = (case reg of Some d \<Rightarrow> drv_remove d f | None \<Rightarrow> io_return ())"

section \<open>Properties\<close>

text \<open>
  One poll round: the delay, then a read of IO_READY whose errors count as 0. \<open>ready_after n\<close>
  is what the \<open>n\<close>-th round (from 0) sees.
\<close>

definition poll_round :: "'w cccr_access \<Rightarrow> (u32 \<Rightarrow> 'w \<Rightarrow> 'w) \<Rightarrow> 'w \<Rightarrow> u8 result \<times> 'w" where
  "poll_round cccr delay w = io_unwrap_or (cccr_read_f0 cccr SDIO_CCCR_IO_READY) 0 (delay POLL_MS w)"

fun world_after :: "'w cccr_access \<Rightarrow> (u32 \<Rightarrow> 'w \<Rightarrow> 'w) \<Rightarrow> nat \<Rightarrow> 'w \<Rightarrow> 'w" where
  "world_after cccr delay 0 w = w"
| "world_after cccr delay (Suc n) w = world_after cccr delay n (snd (poll_round cccr delay w))"

definition ready_after :: "'w cccr_access \<Rightarrow> (u32 \<Rightarrow> 'w \<Rightarrow> 'w) \<Rightarrow> nat \<Rightarrow> 'w \<Rightarrow> u8" where
  "ready_after cccr delay n w =
     (case fst (poll_round cccr delay (world_after cccr delay n w)) of Inr v \<Rightarrow> v | Inl _ \<Rightarrow> 0)"

lemma ready_after_Suc:
  "ready_after cccr delay (Suc n) w = ready_after cccr delay n (snd (poll_round cccr delay w))"
  by (simp add: ready_after_def)

lemma unwrap_or_ok:
  assumes "\<not> is_panic (fst (m w))"
  shows "\<exists>x. io_unwrap_or m d w = (ok x, snd (m w))"
  using assms
  by (cases "m w"; cases "fst (m w)"; cases "projl (fst (m w))")
    (auto simp: io_unwrap_or_def split: sum.splits rust_error.splits)

lemma poll_round_ok:
  assumes "\<forall>w. \<not> is_panic (fst (cccr_read_f0 cccr SDIO_CCCR_IO_READY w))"
  obtains v w1 where "poll_round cccr delay w = (ok v, w1)" and "ready_after cccr delay 0 w = v"
proof -
  obtain v w' where "poll_round cccr delay w = (ok v, w')"
    using unwrap_or_ok [of "cccr_read_f0 cccr SDIO_CCCR_IO_READY" "delay POLL_MS w" 0] assms
    by (auto simp: poll_round_def)
  then show ?thesis using that by (simp add: ready_after_def)
qed

lemma ex_less_Suc_shift: "(\<exists>n < Suc k. P n) \<longleftrightarrow> P 0 \<or> (\<exists>n < k. P (Suc n))"
  by (metis less_Suc_eq_0_disj)

lemma half_round_Suc:
  fixes w t :: nat
  shows "w < t \<Longrightarrow> (t - w + 1) div 2 = Suc ((t - (w + 2) + 1) div 2)"
  by presburger

lemma enable_poll_result:
  assumes rd: "\<forall>w. \<not> is_panic (fst (cccr_read_f0 cccr SDIO_CCCR_IO_READY w))"
    and t: "unat timeout_ms \<le> 2 ^ 32 - 2"
  shows "fst (enable_poll cccr delay fbit timeout_ms waited w) =
     (if \<exists>n < (unat timeout_ms - unat waited + 1) div 2. ready_after cccr delay n w AND fbit \<noteq> 0
      then ok () else err (-110))"
proof (induction "unat timeout_ms - unat waited" arbitrary: waited w rule: less_induct)
  case less
  let ?P = "\<lambda>n w. ready_after cccr delay n w AND fbit \<noteq> 0"
  show ?case
  proof (cases "waited < timeout_ms")
    case False
    then show ?thesis
      by (subst enable_poll.simps) (simp add: word_less_nat_alt)
  next
    case True
    then have lt: "unat waited < unat timeout_ms" by (simp add: word_less_nat_alt)
    then have sum: "add_checked waited POLL_MS = ok (waited + 2)"
      using t by (simp add: add_checked_def POLL_MS_def)
    then have w2: "unat (waited + 2) = unat waited + 2" by (rule add_poll_ms)
    obtain v w1 where v: "poll_round cccr delay w = (ok v, w1)" "ready_after cccr delay 0 w = v"
      using poll_round_ok [OF rd] by blast
    have step: "enable_poll cccr delay fbit timeout_ms waited w =
        (if v AND fbit \<noteq> 0 then (ok (), w1)
         else enable_poll cccr delay fbit timeout_ms (waited + 2) w1)"
      using True sum v(1) by (subst enable_poll.simps) (simp add: poll_round_def)
    have "fst (enable_poll cccr delay fbit timeout_ms (waited + 2) w1) =
        (if \<exists>n < (unat timeout_ms - (unat waited + 2) + 1) div 2. ?P n w1 then ok () else err (-110))"
      using less.hyps [of "waited + 2" w1] lt w2 by simp
    moreover have "(\<exists>n < (unat timeout_ms - unat waited + 1) div 2. ?P n w) \<longleftrightarrow>
        ?P 0 w \<or> (\<exists>n < (unat timeout_ms - (unat waited + 2) + 1) div 2. ?P n w1)"
    proof -
      have "(unat timeout_ms - unat waited + 1) div 2
            = Suc ((unat timeout_ms - (unat waited + 2) + 1) div 2)"
        using lt by (rule half_round_Suc)
      then show ?thesis by (simp only: ex_less_Suc_shift ready_after_Suc v snd_conv)
    qed
    ultimately show ?thesis
      by (simp add: step v(2))
  qed
qed

text \<open>
  Enabling an SDIO function: an out-of-range number is refused with -22 before the card is
  touched; otherwise, once IO_ENABLE has been read as \<open>e\<close> and rewritten as \<open>e | bit\<close>, the
  result is Ok exactly when one of the first \<open>\<lceil>timeout/2\<rceil>\<close> polls sees the function's IO_READY
  bit, and -110 when none does. The polling loop ends for every card, without overflow of
  the elapsed-time counter for timeouts up to \<open>2^32 - 2\<close> ms.
\<close>

theorem sdio_enable_function_result:
  assumes rd: "\<forall>w. \<not> is_panic (fst (cccr_read_f0 cccr SDIO_CCCR_IO_READY w))"
    and t: "unat timeout_ms \<le> 2 ^ 32 - 2"
    and en: "cccr_read_f0 cccr SDIO_CCCR_IO_ENABLE w = (ok e, w1)"
    and wr: "cccr_write_f0 cccr SDIO_CCCR_IO_ENABLE (e OR func_bit func_num) w1 = (ok (), w2)"
  shows "fst (sdio_enable_function cccr func_num timeout_ms delay w) =
     (if func_num = 0 \<or> func_num > 7 then err (-22)
      else if \<exists>n < (unat timeout_ms + 1) div 2. ready_after cccr delay n w2 AND func_bit func_num \<noteq> 0
      then ok () else err (-110))"
proof -
  have "sdio_enable_function cccr func_num timeout_ms delay w =
     (if func_num = 0 \<or> func_num > 7 then (err (-22), w)
      else enable_poll cccr delay (func_bit func_num) timeout_ms 0 w2)"
    using en wr by (simp add: sdio_enable_function_def io_bind_def)
  then show ?thesis
    using enable_poll_result [OF rd t, of delay "func_bit func_num" 0 w2] by simp
qed

text \<open>A card for the witness: IO_ENABLE is a register, IO_READY follows it after three delays.\<close>

definition sample_card :: "(u8 \<times> nat) cccr_access" where
  "sample_card =
     \<lparr>cccr_read_f0 = (\<lambda>reg (en, k). (if reg = SDIO_CCCR_IO_ENABLE then ok en
                                    else if 3 \<le> k then ok en else err (-5), (en, k))),
      cccr_write_f0 = (\<lambda>reg v (en, k). (ok (), (if reg = SDIO_CCCR_IO_ENABLE then v else en, k)))\<rparr>"

definition sample_delay :: "u32 \<Rightarrow> u8 \<times> nat \<Rightarrow> u8 \<times> nat" where
  "sample_delay ms = (\<lambda>(en, k). (en, Suc k))"

lemma sample_card_no_panic: "\<forall>w. \<not> is_panic (fst (cccr_read_f0 sample_card r w))"
  by (auto simp: sample_card_def)

theorem sdio_enable_function_result_witness:
  "fst (sdio_enable_function sample_card 2 100 sample_delay (2, 0)) = ok () \<and>
   fst (sdio_enable_function sample_card 2 4 sample_delay (2, 0)) = err (-110) \<and>
   fst (sdio_enable_function sample_card 9 100 sample_delay (2, 0)) = err (-22)"
proof -
  have en: "cccr_read_f0 sample_card SDIO_CCCR_IO_ENABLE (2, 0) = (ok 2, (2, 0))"
    by (simp add: sample_card_def)
  have wr: "cccr_write_f0 sample_card SDIO_CCCR_IO_ENABLE (2 OR b) (2, 0) = (ok (), (2 OR b, 0))" for b
    by (simp add: sample_card_def)
  note eval = sample_card_def sample_delay_def ready_after_def poll_round_def io_unwrap_or_def
    func_bit_def SDIO_CCCR_IO_ENABLE_def SDIO_CCCR_IO_READY_def
  have r: "ready_after sample_card sample_delay 0 (6, 0) = 0"
      "ready_after sample_card sample_delay (Suc 0) (6, 0) = 0"
      "ready_after sample_card sample_delay 2 (6, 0) = 6"
    by (simp_all add: eval numeral_2_eq_2)
  have b: "func_bit 2 = 4" by (simp add: func_bit_def)
  have "\<exists>n < 50. ready_after sample_card sample_delay n (6, 0) AND (4 :: u8) \<noteq> 0"
    by (rule exI [of _ 2]) (simp add: r)
  moreover have "\<not> (\<exists>n < 2. ready_after sample_card sample_delay n (6, 0) AND (4 :: u8) \<noteq> 0)"
  proof
    assume "\<exists>n < 2. ready_after sample_card sample_delay n (6, 0) AND (4 :: u8) \<noteq> 0"
    then obtain n where n: "n < 2" "ready_after sample_card sample_delay n (6, 0) AND (4 :: u8) \<noteq> 0"
      by blast
    then consider "n = 0" | "n = Suc 0" by linarith
    then show False using n(2) r by cases simp_all
  qed
  ultimately show ?thesis
    using sdio_enable_function_result [OF sample_card_no_panic _ en wr, of 100 2 sample_delay]
      sdio_enable_function_result [OF sample_card_no_panic _ en wr, of 4 2 sample_delay]
      sdio_enable_function_result [OF sample_card_no_panic _ en wr, of 100 9 sample_delay]
    by (simp add: b)
qed

text \<open>
  \<open>align_size\<close> rounds a length up to the block size: the result is the least multiple of a
  non-zero block size that is not below the length, and the length itself for block size 0.
\<close>

theorem align_size_least:
  "if blk = 0 then align_size blk sz = sz
   else unat blk dvd align_size blk sz \<and> sz \<le> align_size blk sz \<and>
        align_size blk sz < sz + unat blk"
proof (cases "blk = 0")
  case True
  then show ?thesis by (simp add: align_size_def)
next
  case False
  then have "0 < unat blk" by (simp add: unat_gt_0)
  moreover define q where "q = (sz + unat blk - 1) div unat blk"
  ultimately have "q * unat blk \<le> sz + unat blk - 1" "sz + unat blk - 1 < q * unat blk + unat blk"
    by (simp_all add: dividend_less_times_div div_times_less_eq_dividend)
      (metis add.commute dividend_less_div_times q_def)
  moreover have "align_size blk sz = q * unat blk"
    using \<open>0 < unat blk\<close> by (simp add: align_size_def Let_def q_def)
  moreover from calculation have "sz \<le> q * unat blk \<and> q * unat blk < sz + unat blk"
    using \<open>0 < unat blk\<close> by linarith
  ultimately show ?thesis
    using False by simp
qed

text \<open>
  The driver registry: a second registration is refused with -16 and leaves the first driver
  in place, and a probe after a registration reaches that driver exactly when its id table
  matches the function, with -19 and an untouched device otherwise.
\<close>

theorem sdio_registry_first_wins:
  "let (r1, reg1) = sdio_register_driver d1 None; (r2, reg2) = sdio_register_driver d2 reg1
   in r1 = ok () \<and> r2 = err (-16) \<and>
      sdio_try_probe reg2 f w =
        (if \<exists>tid \<in> set (drv_id_table d1). device_id_matches tid (func_device_id f)
         then drv_probe d1 f w else (err (-19), w)) \<and>
      sdio_try_probe (sdio_unregister_driver reg2) f w = (err (-19), w)"
  by (simp add: sdio_register_driver_def sdio_try_probe_def sdio_unregister_driver_def
      driver_matches_def list_ex_iff)

end
