(* ===== verification/Sdhci.thy ===== *)
theory Sdhci
  imports Prelude
begin

text \<open>
  The host-controller layer (\<open>kernel/sdhci/src\<close>): the CMD53 argument words (\<open>sdio_ops.rs\<close>), the
  block/size register words (\<open>sdhci.rs\<close>), the splitting of a transfer into CMD53 commands
  (\<open>sdio_io.rs\<close>), the single DMA buffer (\<open>lib.rs\<close>) and the cache-maintenance address loops
  (\<open>cache.rs\<close>). The trait \<open>MmcIoRwExtended\<close> is a record of two methods. The two copies of the
  block loop and byte loop in \<open>sdio_io_rw_ext_helper\<close> and \<open>sdio_writesb\<close> are one definition
  each here, over the transfer step that differs.
\<close>

section \<open>CMD53 argument words\<close>

definition SDIO_IO_RW_EXTENDED_ADDR_MASK :: u32 where
  "SDIO_IO_RW_EXTENDED_ADDR_MASK = 0x1FFFF"

definition mmc_io_rw_extended_arg_block :: "bool \<Rightarrow> u32 \<Rightarrow> u32 \<Rightarrow> bool \<Rightarrow> u32 \<Rightarrow> u32" where
  "mmc_io_rw_extended_arg_block write fn_num addr incr_addr blocks =
     (let arg0 = (if write then 0x80000000 else 0);
          arg1 = arg0 OR push_bit 28 fn_num;
          arg2 = arg1 OR (if incr_addr then 0x04000000 else 0);
          arg3 = arg2 OR push_bit 9 (addr AND SDIO_IO_RW_EXTENDED_ADDR_MASK)
      in arg3 OR (0x08000000 OR (blocks AND 0x1FF)))"

definition mmc_io_rw_extended_arg_byte :: "bool \<Rightarrow> u32 \<Rightarrow> u32 \<Rightarrow> bool \<Rightarrow> u32 \<Rightarrow> u32" where
  "mmc_io_rw_extended_arg_byte write fn_num addr incr_addr blksz =
     (let arg0 = (if write then 0x80000000 else 0);
          arg1 = arg0 OR push_bit 28 fn_num;
          arg2 = arg1 OR (if incr_addr then 0x04000000 else 0);
          arg3 = arg2 OR push_bit 9 (addr AND SDIO_IO_RW_EXTENDED_ADDR_MASK)
      in if blksz = 512 then arg3 OR 0 else arg3 OR (blksz AND 0x1FF))"

definition mmc_io_rw_extended_data_blocks :: "u32 \<Rightarrow> u32" where
  "mmc_io_rw_extended_data_blocks blocks = (if blocks = 0 then 1 else blocks)"

section \<open>Controller register words\<close>

definition sdhci_make_blksz :: "u8 \<Rightarrow> u16 \<Rightarrow> u16" where
  "sdhci_make_blksz sdma_boundary blksz =
     push_bit 12 (ucast sdma_boundary AND 0x7) OR (blksz AND 0xFFF)"

definition sdhci_make_cmd :: "u8 \<Rightarrow> u8 \<Rightarrow> u16" where
  "sdhci_make_cmd opcode flags = push_bit 8 (ucast opcode) OR ucast (flags AND 0xFF)"

definition R5_ERROR :: u32 where "R5_ERROR = push_bit 11 1"
definition R5_FUNCTION_NUMBER :: u32 where "R5_FUNCTION_NUMBER = push_bit 9 1"
definition R5_OUT_OF_RANGE :: u32 where "R5_OUT_OF_RANGE = push_bit 8 1"
definition R5_ERROR_MASK :: u32 where
  "R5_ERROR_MASK = (R5_ERROR OR R5_FUNCTION_NUMBER OR R5_OUT_OF_RANGE)"

section \<open>Splitting a transfer into CMD53 commands\<close>

definition SDIO_MAX_BYTE_SIZE :: nat where
  "SDIO_MAX_BYTE_SIZE = 512"

definition SDIO_MAX_BLOCKS_PER_CMD :: nat where
  "SDIO_MAX_BLOCKS_PER_CMD = 511"

record 'w mmc_io_rw_extended =
  io_rw_extended_read :: "u32 \<Rightarrow> u32 \<Rightarrow> bool \<Rightarrow> byte list \<Rightarrow> u32 \<Rightarrow> u32 \<Rightarrow> 'w \<Rightarrow> unit result \<times> byte list \<times> 'w"
  io_rw_extended_write :: "u32 \<Rightarrow> u32 \<Rightarrow> bool \<Rightarrow> byte list \<Rightarrow> u32 \<Rightarrow> u32 \<Rightarrow> ('w, unit) io"

text \<open>
  A transfer step gets offset and length of the chunk, the block count and the block size; its
  state is the buffer with the world. \<open>io_rw_extended_read\<close> gets the old contents of the
  mutable chunk and returns the new ones.
\<close>

type_synonym 's xfer = "nat \<Rightarrow> nat \<Rightarrow> u32 \<Rightarrow> u32 \<Rightarrow> ('s, unit) io"

definition write_xfer ::
  "'w mmc_io_rw_extended \<Rightarrow> u32 \<Rightarrow> u32 \<Rightarrow> bool \<Rightarrow> (byte list \<times> 'w) xfer" where
  "write_xfer host fn_num addr incr off n blocks blksz = (\<lambda>(buf, w).
     case slice_get off (off + n) buf of
       Inl e \<Rightarrow> (Inl e, (buf, w))
     | Inr c \<Rightarrow> (case io_rw_extended_write host fn_num addr incr c blocks blksz w of
                   (r, w') \<Rightarrow> (r, (buf, w'))))"

definition read_xfer ::
  "'w mmc_io_rw_extended \<Rightarrow> u32 \<Rightarrow> u32 \<Rightarrow> bool \<Rightarrow> (byte list \<times> 'w) xfer" where
  "read_xfer host fn_num addr incr off n blocks blksz = (\<lambda>(buf, w).
     case slice_get off (off + n) buf of
       Inl e \<Rightarrow> (Inl e, (buf, w))
     | Inr c \<Rightarrow> (case io_rw_extended_read host fn_num addr incr c blocks blksz w of
                   (r, c', w') \<Rightarrow>
                     (case slice_set off (off + n) c' buf of
                        Inl e \<Rightarrow> (Inl e, (buf, w'))
                      | Inr buf' \<Rightarrow> (r, (buf', w')))))"

lemma unat_blocks:
  "unat (of_nat (min n SDIO_MAX_BLOCKS_PER_CMD) :: u32) = min n SDIO_MAX_BLOCKS_PER_CMD"
  by (simp add: unat_of_nat SDIO_MAX_BLOCKS_PER_CMD_def min_def)

lemma block_chunk_pos:
  "cur \<noteq> 0 \<Longrightarrow> cur \<le> (r::nat) \<Longrightarrow> 0 < min (r div cur) SDIO_MAX_BLOCKS_PER_CMD * cur"
  by (simp add: SDIO_MAX_BLOCKS_PER_CMD_def div_greater_zero_iff)

text \<open>\<open>while remainder >= cur\<close>; the result is the offset after the loop.\<close>

function block_loop :: "'s xfer \<Rightarrow> nat \<Rightarrow> nat \<Rightarrow> nat \<Rightarrow> ('s, nat) io" where
  "block_loop xfer cur offset remainder s =
     (if cur \<le> remainder then
        if cur = 0 then (panic DivZero, s)
        else
          let blocks = (of_nat (min (remainder div cur) SDIO_MAX_BLOCKS_PER_CMD) :: u32);
              chunk = unat blocks * cur
          in case xfer offset chunk blocks (of_nat cur) s of
               (Inl e, s') \<Rightarrow> (Inl e, s')
             | (Inr _, s') \<Rightarrow> block_loop xfer cur (offset + chunk) (remainder - chunk) s'
      else (ok offset, s))"
  by pat_completeness auto

termination
  by (relation "measure (\<lambda>(xfer, cur, offset, remainder, s). remainder)")
    (auto simp: unat_blocks intro!: diff_less block_chunk_pos)

declare block_loop.simps [simp del]

text \<open>\<open>while offset < sz\<close>.\<close>

function byte_loop :: "'s xfer \<Rightarrow> nat \<Rightarrow> nat \<Rightarrow> ('s, unit) io" where
  "byte_loop xfer sz offset s =
     (if offset < sz then
        let n = min (sz - offset) SDIO_MAX_BYTE_SIZE
        in case xfer offset n 0 (of_nat n) s of
             (Inl e, s') \<Rightarrow> (Inl e, s')
           | (Inr _, s') \<Rightarrow> byte_loop xfer sz (offset + n) s'
      else (ok (), s))"
  by pat_completeness auto

termination
  by (relation "measure (\<lambda>(xfer, sz, offset, s). sz - offset)")
    (auto simp: SDIO_MAX_BYTE_SIZE_def)

declare byte_loop.simps [simp del]

definition rw_transfer :: "'s xfer \<Rightarrow> nat \<Rightarrow> bool \<Rightarrow> nat \<Rightarrow> ('s, unit) io" where
  "rw_transfer xfer sz multi_block cur =
     (if sz = 0 then io_return ()
      else io_bind (if multi_block \<and> cur \<le> sz then block_loop xfer cur 0 sz else io_return 0)
             (byte_loop xfer sz))"

definition sdio_io_rw_ext_helper ::
  "'w mmc_io_rw_extended \<Rightarrow> bool \<Rightarrow> u32 \<Rightarrow> bool \<Rightarrow> byte list \<Rightarrow> u32 \<Rightarrow> bool \<Rightarrow> u16 \<Rightarrow> 'w
   \<Rightarrow> unit result \<times> byte list \<times> 'w" where
  "sdio_io_rw_ext_helper host write addr incr_addr buf fn_num multi_block cur_blksize w =
     rw_transfer ((if write then write_xfer else read_xfer) host fn_num addr incr_addr)
       (length buf) multi_block (unat cur_blksize) (buf, w)"

definition sdio_readsb ::
  "'w mmc_io_rw_extended \<Rightarrow> u32 \<Rightarrow> u32 \<Rightarrow> byte list \<Rightarrow> bool \<Rightarrow> u16 \<Rightarrow> 'w \<Rightarrow> unit result \<times> byte list \<times> 'w" where
  "sdio_readsb host func_num addr dst multi_block cur_blksize w =
     sdio_io_rw_ext_helper host False addr False dst func_num multi_block cur_blksize w"

definition sdio_writesb ::
  "'w mmc_io_rw_extended \<Rightarrow> u32 \<Rightarrow> u32 \<Rightarrow> byte list \<Rightarrow> bool \<Rightarrow> u16 \<Rightarrow> 'w \<Rightarrow> unit result \<times> 'w" where
  "sdio_writesb host func_num addr src multi_block cur_blksize w =
     (case rw_transfer (write_xfer host func_num addr False) (length src) multi_block
             (unat cur_blksize) (src, w) of
        (r, (_, w')) \<Rightarrow> (r, w'))"

section \<open>DMA buffer\<close>

definition DMA_POOL_SIZE :: nat where
  "DMA_POOL_SIZE = 256 * 1024"

text \<open>\<open>base\<close> is the address of the static \<open>DMA_BUFFER\<close>; the pool is its in-use mark.\<close>

definition alloc_dma_buffer :: "nat \<Rightarrow> nat \<Rightarrow> unit option \<Rightarrow> (nat \<times> nat) option \<times> unit option" where
  "alloc_dma_buffer base sz pool =
     (if sz = 0 \<or> DMA_POOL_SIZE < sz \<or> sz mod 4 \<noteq> 0 then (None, pool)
      else if pool \<noteq> None then (None, pool)
      else (if base = 0 then None else Some (base, base), Some ()))"

definition release_dma_buffer :: "unit option \<Rightarrow> unit option" where
  "release_dma_buffer pool = None"

section \<open>Cache maintenance\<close>

type_synonym u64 = "64 word"

definition CACHE_LINE_SIZE :: u64 where
  "CACHE_LINE_SIZE = 64"

lemma add_line: "add_checked addr CACHE_LINE_SIZE = ok a \<Longrightarrow> unat a = unat addr + 64"
  using add_checked_ok [of addr CACHE_LINE_SIZE a] by (simp add: CACHE_LINE_SIZE_def)

text \<open>
  The line addresses the \<open>while addr < end\<close> loop hands to the cache instruction, in order; the
  clean and the invalidate routine differ only in that instruction.
\<close>

function line_loop :: "u64 \<Rightarrow> u64 \<Rightarrow> u64 list \<Rightarrow> u64 list result" where
  "line_loop addr endp acc =
     (if addr < endp then
        (case add_checked addr CACHE_LINE_SIZE of
           Inl e \<Rightarrow> Inl e
         | Inr addr' \<Rightarrow> line_loop addr' endp (acc @ [addr]))
      else ok acc)"
  by pat_completeness auto

termination
  by (relation "measure (\<lambda>(addr, endp, acc). unat endp - unat addr)")
    (auto simp: word_less_nat_alt dest!: add_line)

declare line_loop.simps [simp del]

definition dcache_range :: "u64 \<Rightarrow> u64 \<Rightarrow> u64 list result" where
  "dcache_range ptr sz =
     bind_res (add_checked ptr sz) (\<lambda>endp.
       line_loop (ptr AND NOT (CACHE_LINE_SIZE - 1)) endp [])"

definition dma_flush_before_write :: "u64 \<Rightarrow> u64 \<Rightarrow> u64 list result" where
  "dma_flush_before_write ptr sz = (if ptr = 0 \<or> sz = 0 then ok [] else dcache_range ptr sz)"

definition dma_invalidate_after_read :: "u64 \<Rightarrow> u64 \<Rightarrow> u64 list result" where
  "dma_invalidate_after_read ptr sz = (if ptr = 0 \<or> sz = 0 then ok [] else dcache_range ptr sz)"

section \<open>Properties\<close>

subsection \<open>The plan of a transfer\<close>

text \<open>
  A command is its offset, its length, its block count (0 in byte mode) and its block size.
  \<open>rw_plan\<close> is the reference: which commands a transfer consists of.
\<close>

type_synonym cmd53 = "nat \<times> nat \<times> u32 \<times> u32"

function block_plan :: "nat \<Rightarrow> nat \<Rightarrow> nat \<Rightarrow> cmd53 list" where
  "block_plan cur off r =
     (if cur = 0 \<or> r < cur then []
      else let b = min (r div cur) SDIO_MAX_BLOCKS_PER_CMD
           in (off, b * cur, of_nat b, of_nat cur) # block_plan cur (off + b * cur) (r - b * cur))"
  by pat_completeness auto

termination
  by (relation "measure (\<lambda>(cur, off, r). r)") (auto intro!: diff_less block_chunk_pos)

function byte_plan :: "nat \<Rightarrow> nat \<Rightarrow> cmd53 list" where
  "byte_plan sz off =
     (if off < sz then
        let n = min (sz - off) SDIO_MAX_BYTE_SIZE
        in (off, n, 0, of_nat n) # byte_plan sz (off + n)
      else [])"
  by pat_completeness auto

termination
  by (relation "measure (\<lambda>(sz, off). sz - off)") (auto simp: SDIO_MAX_BYTE_SIZE_def)

declare block_plan.simps [simp del] byte_plan.simps [simp del]

definition rw_plan :: "nat \<Rightarrow> bool \<Rightarrow> nat \<Rightarrow> cmd53 list" where
  "rw_plan sz multi_block cur =
     (if multi_block \<and> cur \<le> sz then block_plan cur 0 sz @ byte_plan sz (sz - sz mod cur)
      else byte_plan sz 0)"

fun exec_calls :: "'s xfer \<Rightarrow> cmd53 list \<Rightarrow> ('s, unit) io" where
  "exec_calls xfer [] s = (ok (), s)"
| "exec_calls xfer ((off, n, b, z) # cs) s =
     (case xfer off n b z s of (Inl e, s') \<Rightarrow> (Inl e, s') | (Inr _, s') \<Rightarrow> exec_calls xfer cs s')"

fun chain :: "nat \<Rightarrow> cmd53 list \<Rightarrow> nat \<Rightarrow> bool" where
  "chain a [] b \<longleftrightarrow> a = b"
| "chain a ((off, n, _, _) # cs) b \<longleftrightarrow> off = a \<and> 0 < n \<and> chain (a + n) cs b"

fun cmd_ok :: "nat \<Rightarrow> cmd53 \<Rightarrow> bool" where
  "cmd_ok cur (off, n, b, z) \<longleftrightarrow>
     (if b = 0 then n \<le> SDIO_MAX_BYTE_SIZE \<and> unat z = n
      else unat b \<le> SDIO_MAX_BLOCKS_PER_CMD \<and> unat z = cur \<and> n = unat b * cur)"

lemma exec_calls_append:
  "exec_calls xfer (xs @ ys) s = io_bind (exec_calls xfer xs) (\<lambda>_. exec_calls xfer ys) s"
  by (induction xfer xs s rule: exec_calls.induct)
    (auto simp: io_bind_def split: prod.splits sum.splits)

lemma chain_append: "chain a xs b \<Longrightarrow> chain b ys c \<Longrightarrow> chain a (xs @ ys) c"
  by (induction a xs b rule: chain.induct) auto

text \<open>One round of the block loop, with the arithmetic the proofs about it need.\<close>

definition nblk :: "nat \<Rightarrow> nat \<Rightarrow> nat" where
  "nblk cur r = min (r div cur) SDIO_MAX_BLOCKS_PER_CMD"

lemma nblk_bounds:
  assumes "cur \<noteq> 0" and "\<not> r < cur"
  shows "0 < nblk cur r" "nblk cur r \<le> SDIO_MAX_BLOCKS_PER_CMD" "nblk cur r * cur \<le> r"
    "unat (of_nat (nblk cur r) :: u32) = nblk cur r"
proof -
  show "0 < nblk cur r" "nblk cur r \<le> SDIO_MAX_BLOCKS_PER_CMD"
      "unat (of_nat (nblk cur r) :: u32) = nblk cur r"
    using assms
    by (simp_all only: nblk_def unat_blocks)
      (simp_all add: div_greater_zero_iff SDIO_MAX_BLOCKS_PER_CMD_def)
  have "nblk cur r * cur \<le> r div cur * cur" by (simp add: nblk_def)
  also have "\<dots> \<le> r" by (rule div_times_less_eq_dividend)
  finally show "nblk cur r * cur \<le> r" .
qed

lemma nblk_rest:
  assumes "cur \<noteq> 0" and "\<not> r < cur"
  defines "n \<equiv> nblk cur r * cur"
  shows "0 < n" "r - n < r" "n + (r - n - (r - n) mod cur) = r - r mod cur"
proof -
  show pos: "0 < n"
    using nblk_bounds(1) [OF assms(1,2)] assms(1) by (simp add: n_def)
  have "n \<le> r"
    using nblk_bounds(3) [OF assms(1,2)] by (simp add: n_def)
  with pos show "r - n < r" by linarith
  obtain k where k: "r = n + k" using nblk_bounds(3) [OF assms(1,2)] le_Suc_ex n_def by blast
  have "(m * cur + k) mod cur = k mod cur" for m by simp
  then have "r mod cur = k mod cur" using k n_def by metis
  moreover have "k mod cur \<le> k" by (rule mod_less_eq_dividend)
  ultimately show "n + (r - n - (r - n) mod cur) = r - r mod cur"
    using k by simp
qed

lemma block_plan_step:
  assumes "cur \<noteq> 0" and "\<not> r < cur"
  shows "block_plan cur off r =
    (off, nblk cur r * cur, of_nat (nblk cur r), of_nat cur) #
      block_plan cur (off + nblk cur r * cur) (r - nblk cur r * cur)"
  using assms by (subst block_plan.simps) (simp add: Let_def flip: nblk_def)

lemma block_loop_step:
  assumes "cur \<noteq> 0" and "\<not> r < cur"
  shows "block_loop xfer cur off r s =
    (case xfer off (nblk cur r * cur) (of_nat (nblk cur r)) (of_nat cur) s of
       (Inl e, s') \<Rightarrow> (Inl e, s')
     | (Inr _, s') \<Rightarrow> block_loop xfer cur (off + nblk cur r * cur) (r - nblk cur r * cur) s')"
  using assms nblk_bounds(4) [OF assms]
  by (subst block_loop.simps) (simp only: Let_def not_less if_True if_False flip: nblk_def)

lemma block_loop_exec:
  assumes "cur \<noteq> 0"
  shows "block_loop xfer cur off r s =
     (case exec_calls xfer (block_plan cur off r) s of
        (Inl e, s') \<Rightarrow> (Inl e, s') | (Inr _, s') \<Rightarrow> (ok (off + (r - r mod cur)), s'))"
proof (induction r arbitrary: off s rule: less_induct)
  case (less r)
  show ?case
  proof (cases "r < cur")
    case True
    then show ?thesis
      using assms by (simp add: block_loop.simps [of _ cur] block_plan.simps [of cur])
  next
    case False
    note rest = nblk_rest [OF assms False]
    from rest(3) have off: "off + nblk cur r * cur +
        (r - nblk cur r * cur - (r - nblk cur r * cur) mod cur) = off + (r - r mod cur)"
      by (simp only: add.assoc)
    show ?thesis
      unfolding block_loop_step [OF assms False] block_plan_step [OF assms False]
        less.IH [OF rest(2)] off
      by (simp split: prod.splits sum.splits)
  qed
qed

lemma byte_loop_exec: "byte_loop xfer sz off s = exec_calls xfer (byte_plan sz off) s"
proof (induction xfer sz off s rule: byte_loop.induct)
  case (1 xfer sz off s)
  then show ?case
    by (subst byte_loop.simps, subst byte_plan.simps)
      (auto simp: Let_def split: prod.splits sum.splits)
qed

lemma rw_transfer_exec:
  assumes "multi_block \<longrightarrow> cur \<noteq> 0"
  shows "rw_transfer xfer sz multi_block cur s = exec_calls xfer (rw_plan sz multi_block cur) s"
proof (cases "multi_block \<and> cur \<le> sz")
  case True
  then have sz: "sz \<noteq> 0" and cur: "cur \<noteq> 0" using assms by auto
  obtain r s1 where e: "exec_calls xfer (block_plan cur 0 sz) s = (r, s1)"
    by fastforce
  then have "block_loop xfer cur 0 sz s = (case r of Inl e \<Rightarrow> Inl e | Inr _ \<Rightarrow> ok (sz - sz mod cur), s1)"
    using block_loop_exec [OF cur, of xfer 0 sz s] by (simp split: sum.splits)
  with True sz e show ?thesis
    by (cases r) (simp_all add: rw_transfer_def rw_plan_def io_bind_step byte_loop_exec exec_calls_append)
next
  case False
  show ?thesis
  proof (cases "sz = 0")
    case True
    with False show ?thesis
      by (auto simp: rw_transfer_def rw_plan_def byte_plan.simps [of 0 0])
  next
    case sz: False
    with False show ?thesis
      by (auto simp: rw_transfer_def rw_plan_def byte_loop_exec)
  qed
qed

lemma chain_block_plan: "cur \<noteq> 0 \<Longrightarrow> chain off (block_plan cur off r) (off + (r - r mod cur))"
proof (induction r arbitrary: off rule: less_induct)
  case (less r)
  show ?case
  proof (cases "r < cur")
    case True
    then show ?thesis by (simp add: block_plan.simps [of cur])
  next
    case False
    note rest = nblk_rest [OF less.prems False]
    have "chain (off + nblk cur r * cur)
       (block_plan cur (off + nblk cur r * cur) (r - nblk cur r * cur))
       (off + nblk cur r * cur + (r - nblk cur r * cur - (r - nblk cur r * cur) mod cur))"
      by (rule less.IH [OF rest(2) less.prems])
    also have "off + nblk cur r * cur + (r - nblk cur r * cur - (r - nblk cur r * cur) mod cur)
        = off + (r - r mod cur)"
      using rest(3) by (simp only: add.assoc)
    finally show ?thesis
      unfolding block_plan_step [OF less.prems False] using rest(1) by simp
  qed
qed

lemma chain_byte_plan: "off \<le> sz \<Longrightarrow> chain off (byte_plan sz off) sz"
  by (induction sz off rule: byte_plan.induct)
    (subst byte_plan.simps, auto simp: Let_def SDIO_MAX_BYTE_SIZE_def)

lemma cmd_ok_block_plan:
  assumes "cur < 2 ^ 32" and "cur \<noteq> 0"
  shows "list_all (cmd_ok cur) (block_plan cur off r)"
proof (induction r arbitrary: off rule: less_induct)
  case (less r)
  show ?case
  proof (cases "r < cur")
    case True
    then show ?thesis by (simp add: block_plan.simps [of cur])
  next
    case False
    note nb = nblk_bounds [OF assms(2) False]
    have "(of_nat (nblk cur r) :: u32) \<noteq> 0" using nb(1,4) by (metis less_irrefl unat_0)
    then have "cmd_ok cur (off, nblk cur r * cur, of_nat (nblk cur r), of_nat cur)"
      unfolding cmd_ok.simps nb(4) using nb(2) assms(1) by (simp add: unat_of_nat [of cur])
    then show ?thesis
      unfolding block_plan_step [OF assms(2) False]
      using less.IH [OF nblk_rest(2) [OF assms(2) False]] by (simp del: cmd_ok.simps)
  qed
qed

lemma cmd_ok_byte_plan: "list_all (cmd_ok cur) (byte_plan sz off)"
proof (induction sz off rule: byte_plan.induct)
  case (1 sz off)
  define n where "n = min (sz - off) SDIO_MAX_BYTE_SIZE"
  have "n \<le> SDIO_MAX_BYTE_SIZE" by (simp add: n_def)
  then have "cmd_ok cur (off, n, 0, of_nat n)"
    by (simp add: SDIO_MAX_BYTE_SIZE_def unat_of_nat)
  then show ?case
    using "1" by (subst byte_plan.simps) (simp add: Let_def del: cmd_ok.simps flip: n_def)
qed

lemma chain_rw_plan:
  assumes "multi_block \<longrightarrow> cur \<noteq> 0"
  shows "chain 0 (rw_plan sz multi_block cur) sz"
proof (cases "multi_block \<and> cur \<le> sz")
  case True
  have "chain 0 (block_plan cur 0 sz) (sz - sz mod cur)"
    using chain_block_plan [of cur 0 sz] assms(1) True by simp
  moreover have "chain (sz - sz mod cur) (byte_plan sz (sz - sz mod cur)) sz"
    by (rule chain_byte_plan) simp
  ultimately show ?thesis
    using True by (simp add: rw_plan_def chain_append)
next
  case False
  then show ?thesis using chain_byte_plan [of 0 sz] by (auto simp: rw_plan_def)
qed

text \<open>
  (C8) Splitting: for every buffer length, block size (non-zero in multi-block mode) and
  transfer step, a transfer issues exactly the commands of its plan, in order and up to the
  first failure. The plan's commands are consecutive, non-empty and cover the buffer exactly
  once, and each is a command CMD53 can carry: at most 511 whole blocks, or at most 512
  bytes in byte mode.
\<close>

theorem rw_transfer_follows_plan:
  assumes "multi_block \<longrightarrow> cur \<noteq> 0" and "cur < 2 ^ 16"
  shows "rw_transfer xfer sz multi_block cur s = exec_calls xfer (rw_plan sz multi_block cur) s \<and>
         chain 0 (rw_plan sz multi_block cur) sz \<and>
         list_all (cmd_ok cur) (rw_plan sz multi_block cur)"
proof -
  have "list_all (cmd_ok cur) (rw_plan sz multi_block cur)"
    using cmd_ok_block_plan [of cur 0 sz] cmd_ok_byte_plan assms by (simp add: rw_plan_def)
  then show ?thesis
    using rw_transfer_exec [OF assms(1), of xfer sz s] chain_rw_plan [OF assms(1), of sz] by blast
qed

theorem rw_transfer_follows_plan_witness:
  "chain 0 (rw_plan 600 True 512) 600 \<and> list_all (cmd_ok 512) (rw_plan 600 True 512) \<and>
   rw_transfer (\<lambda>off n b z s. (ok (), s @ [(off, n)])) 600 True 512 [] = (ok (), [(0, 512), (512, 88)])"
proof -
  have plan: "rw_plan 600 True 512 = [(0, 512, 1, 512), (512, 88, 0, 88)]"
    by (simp add: rw_plan_def block_plan.simps byte_plan.simps SDIO_MAX_BLOCKS_PER_CMD_def
        SDIO_MAX_BYTE_SIZE_def)
  show ?thesis
    using rw_transfer_follows_plan [of True 512 "\<lambda>off n b z s. (ok (), s @ [(off, n)])" 600 "[]"]
    by (simp add: plan)
qed

subsection \<open>What a FIFO device receives\<close>

text \<open>
  What the code relies on of the host and card behind a FIFO register: a write command
  delivers a prefix of its chunk, all of it when it reports success; a read command fills its
  chunk with the next bytes of the FIFO when it reports success.
\<close>

definition fifo_write_law :: "'w mmc_io_rw_extended \<Rightarrow> ('w \<Rightarrow> byte list) \<Rightarrow> bool" where
  "fifo_write_law host sent \<longleftrightarrow>
     (\<forall>fn addr incr c b z w r w'. io_rw_extended_write host fn addr incr c b z w = (r, w') \<longrightarrow>
        (\<exists>j \<le> length c. sent w' = sent w @ take j c \<and> (r = ok () \<longrightarrow> j = length c)))"

definition fifo_read_law :: "'w mmc_io_rw_extended \<Rightarrow> ('w \<Rightarrow> byte list) \<Rightarrow> bool" where
  "fifo_read_law host fifo \<longleftrightarrow>
     (\<forall>fn addr incr c b z w r c' w'. io_rw_extended_read host fn addr incr c b z w = (r, c', w') \<longrightarrow>
        length c' = length c \<and> (r = ok () \<longrightarrow> fifo w = c' @ fifo w'))"

lemma take_drop_chain:
  assumes "a \<le> b" "b \<le> c" "c \<le> length xs"
  shows "take (b - a) (drop a xs) @ take (c - b) (drop b xs) = take (c - a) (drop a xs)"
proof -
  have "c - a = (b - a) + (c - b)" and "drop b xs = drop (b - a) (drop a xs)"
    using assms by simp_all
  then show ?thesis by (simp only: take_add)
qed

lemma chain_le: "chain a cs b \<Longrightarrow> a \<le> b"
  by (induction a cs b rule: chain.induct) auto

lemma exec_writes_deliver:
  assumes "fifo_write_law host sent" and "chain a cs b" and "b \<le> length buf"
    and "exec_calls (write_xfer host fn addr incr) cs (buf, w) = (r, (buf', w'))"
  shows "\<exists>k. a \<le> k \<and> k \<le> b \<and> sent w' = sent w @ take (k - a) (drop a buf) \<and> (r = ok () \<longrightarrow> k = b)"
  using assms(2-4)
proof (induction a cs b arbitrary: w rule: chain.induct)
  case (1 a b)
  then show ?case by auto
next
  case (2 a off n bl z cs b)
  then have off: "off = a" and ch: "chain (a + n) cs b" by simp_all
  have le: "a + n \<le> b" using ch by (rule chain_le)
  let ?c = "take n (drop a buf)"
  have sl: "slice_get a (a + n) buf = ok ?c"
    using le 2 by (simp add: slice_get_def)
  obtain r1 w1 where x: "io_rw_extended_write host fn addr incr ?c bl z w = (r1, w1)"
    by fastforce
  then have step: "write_xfer host fn addr incr off n bl z (buf, w) = (r1, (buf, w1))"
    by (simp add: write_xfer_def off sl)
  from assms(1) x obtain j where j: "j \<le> length ?c" "sent w1 = sent w @ take j ?c"
      "r1 = ok () \<longrightarrow> j = length ?c"
    unfolding fifo_write_law_def by blast
  have len: "length ?c = n" using le "2.prems"(2) by simp
  show ?case
  proof (cases r1)
    case (Inl e)
    then have "r = Inl e" "w' = w1" using "2.prems"(3) step by auto
    then show ?thesis
      using j(1,2) len le by (intro exI [of _ "a + j"]) (simp add: min_def)
  next
    case (Inr u)
    then have "exec_calls (write_xfer host fn addr incr) cs (buf, w1) = (r, (buf', w'))"
      using "2.prems"(3) step by simp
    from "2.IH" [OF ch "2.prems"(2) this] obtain k where k: "a + n \<le> k" "k \<le> b"
        "sent w' = sent w1 @ take (k - (a + n)) (drop (a + n) buf)" "r = ok () \<longrightarrow> k = b"
      by blast
    have "sent w1 = sent w @ ?c" using j Inr len by simp
    moreover have "?c @ take (k - (a + n)) (drop (a + n) buf) = take (k - a) (drop a buf)"
      using take_drop_chain [of a "a + n" k buf] k "2.prems"(2) by simp
    ultimately have "sent w' = sent w @ take (k - a) (drop a buf)" using k(3) by simp
    with k show ?thesis by (intro exI [of _ k]) simp
  qed
qed


definition log_host :: "byte list mmc_io_rw_extended" where
  "log_host = \<lparr>io_rw_extended_read = (\<lambda>_ _ _ c _ _ w.
       if length c \<le> length w then (ok (), take (length c) w, drop (length c) w) else (err (-5), c, w)),
     io_rw_extended_write = (\<lambda>_ _ _ c _ _ w. (ok (), w @ c))\<rparr>"


lemma slice_set_splice:
  assumes "a + n \<le> length buf" and "length c = n"
  shows "slice_set a (a + n) c buf = ok (take a buf @ c @ drop (a + n) buf)"
  using assms by (simp add: slice_set_def)

lemma exec_reads_fill:
  assumes "fifo_read_law host fifo" and "chain a cs b" and "b \<le> length buf"
    and "exec_calls (read_xfer host fn addr incr) cs (buf, w) = (r, (buf', w'))"
  shows "length buf' = length buf \<and> take a buf' = take a buf \<and>
         (r = ok () \<longrightarrow> fifo w = take (b - a) (drop a buf') @ fifo w')"
  using assms(2-4)
proof (induction a cs b arbitrary: buf w rule: chain.induct)
  case (1 a b)
  then show ?case by auto
next
  case (2 a off n bl z cs b)
  then have off: "off = a" and ch: "chain (a + n) cs b" by simp_all
  have le: "a + n \<le> b" using ch by (rule chain_le)
  let ?c = "take n (drop a buf)"
  have sl: "slice_get a (a + n) buf = ok ?c"
    using le 2 by (simp add: slice_get_def)
  obtain r1 c1 w1 where x: "io_rw_extended_read host fn addr incr ?c bl z w = (r1, c1, w1)"
    using prod_cases3 by blast
  from assms(1) x have c1: "length c1 = n" "r1 = ok () \<longrightarrow> fifo w = c1 @ fifo w1"
    using le "2.prems"(2) unfolding fifo_read_law_def by fastforce+
  define buf1 where "buf1 = take a buf @ c1 @ drop (a + n) buf"
  have "a + n \<le> length buf" using le "2.prems"(2) by simp
  then have step: "read_xfer host fn addr incr off n bl z (buf, w) = (r1, (buf1, w1))"
    and len1: "length buf1 = length buf" and ta: "take a buf1 = take a buf"
    and tan: "take (a + n) buf1 = take a buf @ c1"
    by (simp_all add: read_xfer_def off sl x slice_set_splice c1(1) buf1_def)
  show ?case
  proof (cases r1)
    case (Inl e)
    then have "r = Inl e" "buf' = buf1" using "2.prems"(3) step by auto
    then show ?thesis using len1 ta by simp
  next
    case (Inr u)
    then have rec: "exec_calls (read_xfer host fn addr incr) cs (buf1, w1) = (r, (buf', w'))"
      using "2.prems"(3) step by simp
    have "b \<le> length buf1" using "2.prems"(2) len1 by simp
    note IH = "2.IH" [OF ch this rec]
    then have pre: "take (a + n) buf' = take a buf @ c1" using tan by simp
    then have "take a buf' = take a buf"
      by (metis \<open>a + n \<le> length buf\<close> add_leD1 append_eq_conv_conj le_add1 length_take min.absorb2 take_take)
    moreover have "take n (drop a buf') = c1"
      using pre \<open>a + n \<le> length buf\<close> by (metis add_leD1 append_eq_conv_conj drop_take length_take
          min.absorb2 add_diff_cancel_left')
    moreover have "take n (drop a buf') @ take (b - (a + n)) (drop (a + n) buf') = take (b - a) (drop a buf')"
      using take_drop_chain [of a "a + n" b buf'] le IH "2.prems"(2) len1 by simp
    ultimately show ?thesis
      using IH c1(2) Inr len1 by (metis append_assoc old.unit.exhaust)
  qed
qed



subsection \<open>CMD53 argument fields\<close>

text \<open>The fields of IO_RW_EXTENDED as the SDIO card reads them.\<close>

record cmd53_fields =
  f_write :: bool
  f_fn :: u32
  f_block :: bool
  f_incr :: bool
  f_addr :: u32
  f_count :: u32

definition cmd53_decode :: "u32 \<Rightarrow> cmd53_fields" where
  "cmd53_decode arg =
     \<lparr>f_write = bit arg 31, f_fn = take_bit 3 (drop_bit 28 arg), f_block = bit arg 27,
      f_incr = bit arg 26, f_addr = take_bit 17 (drop_bit 9 arg), f_count = take_bit 9 arg\<rparr>"

definition flag :: "nat \<Rightarrow> bool \<Rightarrow> u32" where
  "flag k c = (if c then push_bit k 1 else 0)"

lemma bit_flag [simp]: "k < 32 \<Longrightarrow> bit (flag k c) n \<longleftrightarrow> c \<and> n = k"
  by (auto simp: flag_def bit_simps)

lemma cmd53_masks:
  "(if c then 0x80000000 else 0) = flag 31 c" "(if c then 0x04000000 else 0) = flag 26 c"
  "0x08000000 = flag 27 True" "(x :: u32) AND 0x1FFFF = take_bit 17 x" "x AND 0x1FF = take_bit 9 x"
  by (simp_all add: flag_def take_bit_eq_mask mask_eq_exp_minus_1)

lemma bit_small_word:
  fixes x :: "'l::len word"
  assumes "unat x < 2 ^ k" and "k \<le> n"
  shows "\<not> bit x n"
proof
  assume "bit x n"
  then have "bit (unat x) n" by (simp add: bit_unsigned_iff)
  then have "odd (unat x div 2 ^ n)" by (simp add: bit_iff_odd)
  then have "unat x div 2 ^ n \<noteq> 0" by (metis even_zero)
  moreover have "unat x < 2 ^ n"
    using assms by (meson less_le_trans one_le_numeral power_increasing)
  ultimately show False by simp
qed

lemma cmd53_arg_fields:
  assumes "unat fn_num < 8" and "unat addr < 2 ^ 17" and "unat cnt < 2 ^ 9"
    and "arg = flag 31 write OR push_bit 28 fn_num OR flag 26 incr OR push_bit 9 (take_bit 17 addr)
               OR (flag 27 block OR take_bit 9 cnt)"
  shows "cmd53_decode arg =
     \<lparr>f_write = write, f_fn = fn_num, f_block = block, f_incr = incr, f_addr = addr, f_count = cnt\<rparr>"
proof -
  have fn: "bit fn_num n \<Longrightarrow> n < 3" for n using bit_small_word [of fn_num 3 n] assms(1) by fastforce
  have ad: "bit addr n \<Longrightarrow> n < 17" for n using bit_small_word [of addr 17 n] assms(2) by fastforce
  have ct: "bit cnt n \<Longrightarrow> n < 9" for n using bit_small_word [of cnt 9 n] assms(3) by fastforce
  have "take_bit 3 (drop_bit 28 arg) = fn_num"
    by (rule bit_word_eqI) (auto simp: assms(4) bit_simps dest: fn ad ct)
  moreover have "take_bit 17 (drop_bit 9 arg) = addr"
    by (rule bit_word_eqI) (auto simp: assms(4) bit_simps dest: fn ad ct)
  moreover have "take_bit 9 arg = cnt"
    by (rule bit_word_eqI) (auto simp: assms(4) bit_simps dest: fn ad ct)
  moreover have "bit arg 31 = write" "bit arg 27 = block" "bit arg 26 = incr"
    by (auto simp: assms(4) bit_simps dest: fn ad ct)
  ultimately show ?thesis by (simp add: cmd53_decode_def)
qed

text \<open>
  The CMD53 argument words: for a function number below 8, a 17-bit address and a count in
  the range of its mode, the card reads back exactly the direction, function, mode, address
  increment, address and count that went in; a byte count of 512 is sent as 0.
\<close>

theorem cmd53_arg_roundtrip:
  assumes "unat fn_num < 8" and "unat addr < 2 ^ 17"
    and "unat blocks < 512" and "unat blksz \<le> 512"
  shows "cmd53_decode (mmc_io_rw_extended_arg_block write fn_num addr incr blocks) =
           \<lparr>f_write = write, f_fn = fn_num, f_block = True, f_incr = incr, f_addr = addr, f_count = blocks\<rparr> \<and>
         cmd53_decode (mmc_io_rw_extended_arg_byte write fn_num addr incr blksz) =
           \<lparr>f_write = write, f_fn = fn_num, f_block = False, f_incr = incr, f_addr = addr,
            f_count = (if blksz = 512 then 0 else blksz)\<rparr>"
proof
  show "cmd53_decode (mmc_io_rw_extended_arg_block write fn_num addr incr blocks) =
      \<lparr>f_write = write, f_fn = fn_num, f_block = True, f_incr = incr, f_addr = addr, f_count = blocks\<rparr>"
    using assms
    by (intro cmd53_arg_fields)
      (simp_all add: mmc_io_rw_extended_arg_block_def SDIO_IO_RW_EXTENDED_ADDR_MASK_def Let_def cmd53_masks
          or.assoc)
  define cnt where "cnt = (if blksz = 512 then 0 else blksz)"
  have "unat cnt < 2 ^ 9"
  proof (cases "blksz = 512")
    case False
    then have "unat blksz \<noteq> unat (512 :: u32)" by (metis word_unat_eq_iff)
    with assms(4) False show ?thesis by (simp add: cnt_def)
  qed (simp add: cnt_def)
  moreover have "mmc_io_rw_extended_arg_byte write fn_num addr incr blksz =
      flag 31 write OR push_bit 28 fn_num OR flag 26 incr OR push_bit 9 (take_bit 17 addr)
        OR (flag 27 False OR take_bit 9 cnt)"
    by (simp add: mmc_io_rw_extended_arg_byte_def SDIO_IO_RW_EXTENDED_ADDR_MASK_def Let_def cmd53_masks
        cnt_def or.assoc) (simp add: flag_def)
  ultimately show "cmd53_decode (mmc_io_rw_extended_arg_byte write fn_num addr incr blksz) =
      \<lparr>f_write = write, f_fn = fn_num, f_block = False, f_incr = incr, f_addr = addr,
       f_count = (if blksz = 512 then 0 else blksz)\<rparr>"
    unfolding cnt_def [symmetric] using assms(1,2) by (intro cmd53_arg_fields) simp_all
qed

theorem cmd53_arg_roundtrip_witness:
  "cmd53_decode (mmc_io_rw_extended_arg_block True 1 7 False 511) =
     \<lparr>f_write = True, f_fn = 1, f_block = True, f_incr = False, f_addr = 7, f_count = 511\<rparr> \<and>
   cmd53_decode (mmc_io_rw_extended_arg_byte True 1 7 False 512) =
     \<lparr>f_write = True, f_fn = 1, f_block = False, f_incr = False, f_addr = 7, f_count = 0\<rparr>"
  using cmd53_arg_roundtrip [of 1 7 511 512 True False] by simp

subsection \<open>Cache lines of a DMA buffer\<close>

lemma unat_line_aligned:
  "unat ((ptr :: u64) AND NOT (CACHE_LINE_SIZE - 1)) = unat ptr - unat ptr mod 64"
proof -
  have "CACHE_LINE_SIZE - 1 = mask 6"
    by (simp add: CACHE_LINE_SIZE_def mask_eq_exp_minus_1)
  then show ?thesis by (simp add: unat_and_not_mask minus_mod_eq_div_mult)
qed

lemma line_loop_result:
  assumes "unat endp + 64 \<le> 2 ^ 64"
  shows "\<exists>ls. line_loop addr endp acc = ok (acc @ ls) \<and>
     (\<forall>a. a \<in> set ls \<longleftrightarrow> (\<exists>k. unat a = unat addr + 64 * k) \<and> unat a < unat endp)"
  using assms
proof (induction addr endp acc rule: line_loop.induct)
  case (1 addr endp acc)
  show ?case
  proof (cases "addr < endp")
    case False
    then show ?thesis by (subst line_loop.simps) (auto simp: word_less_nat_alt)
  next
    case True
    then have sum: "add_checked addr CACHE_LINE_SIZE = ok (addr + 64)"
      using "1.prems" by (simp add: add_checked_def CACHE_LINE_SIZE_def word_less_nat_alt)
    then have u: "unat (addr + 64) = unat addr + 64" by (rule add_line)
    obtain ls where ls: "line_loop (addr + 64) endp (acc @ [addr]) = ok ((acc @ [addr]) @ ls)"
        "\<forall>a. a \<in> set ls \<longleftrightarrow> (\<exists>k. unat a = unat (addr + 64) + 64 * k) \<and> unat a < unat endp"
      using "1.IH" [OF True sum "1.prems"] by blast
    have "line_loop addr endp acc = ok (acc @ addr # ls)"
      using True sum ls(1) by (subst line_loop.simps) simp
    moreover have "a \<in> set (addr # ls) \<longleftrightarrow> (\<exists>k. unat a = unat addr + 64 * k) \<and> unat a < unat endp" for a
    proof -
      have "(\<exists>k. unat a = unat addr + 64 * k) \<longleftrightarrow> a = addr \<or> (\<exists>k. unat a = unat (addr + 64) + 64 * k)"
      proof
        assume "\<exists>k. unat a = unat addr + 64 * k"
        then obtain k where "unat a = unat addr + 64 * k" by blast
        then show "a = addr \<or> (\<exists>k. unat a = unat (addr + 64) + 64 * k)"
          using u by (cases k) (auto simp: word_unat_eq_iff)
      next
        assume "a = addr \<or> (\<exists>k. unat a = unat (addr + 64) + 64 * k)"
        then show "\<exists>k. unat a = unat addr + 64 * k"
        proof
          assume "a = addr"
          then show ?thesis by (intro exI [of _ 0]) simp
        next
          assume "\<exists>k. unat a = unat (addr + 64) + 64 * k"
          then obtain k where "unat a = unat addr + 64 * Suc k" using u by auto
          then show ?thesis by blast
        qed
      qed
      with ls(2) True show ?thesis by (auto simp: word_less_nat_alt)
    qed
    ultimately show ?thesis by blast
  qed
qed

lemma aligned_from_iff:
  fixes p l :: nat
  shows "((\<exists>k. l = p - p mod 64 + 64 * k)) \<longleftrightarrow> 64 dvd l \<and> p < l + 64"
proof
  assume "\<exists>k. l = p - p mod 64 + 64 * k"
  then obtain k where "l = p - p mod 64 + 64 * k" by blast
  moreover have "p - p mod 64 = 64 * (p div 64)" by (simp add: minus_mod_eq_mult_div)
  ultimately have l: "l = 64 * (p div 64 + k)" by (simp add: algebra_simps)
  have "p < 64 * (p div 64) + 64" by linarith
  with l show "64 dvd l \<and> p < l + 64" by simp
next
  assume l: "64 dvd l \<and> p < l + 64"
  then obtain q where q: "l = 64 * q" by blast
  have "p - p mod 64 = 64 * (p div 64)" by (simp add: minus_mod_eq_mult_div)
  moreover have "p div 64 \<le> q" using l q by linarith
  then obtain k where "q = p div 64 + k" using le_Suc_ex by blast
  ultimately show "\<exists>k. l = p - p mod 64 + 64 * k"
    using q by (intro exI [of _ k]) (simp add: distrib_left)
qed

text \<open>
  Cache maintenance before and after DMA touches exactly the right lines: for a non-empty
  buffer that ends at least one line below the top of the address space, the loop ends and
  hands to the cache instruction every 64-byte line that shares a byte with the buffer, and
  no other line.
\<close>

theorem dma_cache_lines:
  assumes "ptr \<noteq> 0" and "sz \<noteq> 0" and "unat ptr + unat sz + 64 \<le> 2 ^ 64"
  shows "\<exists>ls. dma_flush_before_write ptr sz = ok ls \<and> dma_invalidate_after_read ptr sz = ok ls \<and>
     (\<forall>l. l \<in> set ls \<longleftrightarrow> 64 dvd unat l \<and> unat l < unat ptr + unat sz \<and> unat ptr < unat l + 64)"
proof -
  have e: "add_checked ptr sz = ok (ptr + sz)"
    using assms(3) by (simp add: add_checked_def)
  then have u: "unat (ptr + sz) = unat ptr + unat sz" by (rule add_checked_ok)
  let ?a = "ptr AND NOT (CACHE_LINE_SIZE - 1)"
  have "unat (ptr + sz) + 64 \<le> 2 ^ 64" using u assms(3) by simp
  from line_loop_result [OF this, of ?a "[]"] obtain ls where
    "line_loop ?a (ptr + sz) [] = ok ls"
    "\<forall>l. l \<in> set ls \<longleftrightarrow> (\<exists>k. unat l = unat ?a + 64 * k) \<and> unat l < unat (ptr + sz)"
    by auto
  then have "line_loop ?a (ptr + sz) [] = ok ls"
    "\<forall>l. l \<in> set ls \<longleftrightarrow> 64 dvd unat l \<and> unat l < unat ptr + unat sz \<and> unat ptr < unat l + 64"
    unfolding unat_line_aligned aligned_from_iff u by blast+
  then show ?thesis
    using assms(1,2) e
    by (simp add: dma_flush_before_write_def dma_invalidate_after_read_def dcache_range_def)
qed

theorem dma_cache_lines_witness:
  "\<exists>ls. dma_flush_before_write 0x1030 0x20 = ok ls \<and>
     (\<forall>l. l \<in> set ls \<longleftrightarrow> 64 dvd unat l \<and> unat l < 0x1050 \<and> 0x1030 < unat l + 64)"
  using dma_cache_lines [of "0x1030" "0x20"] by auto

text \<open>
  The DMA pool hands out its single buffer to one owner at a time: an allocation succeeds
  exactly for a non-zero multiple of 4 up to 256 KiB while the buffer is free, a second one
  fails until the release, and a failed one leaves the pool as it was.
\<close>

theorem dma_pool_exclusive:
  assumes "base \<noteq> 0"
  shows "(fst (alloc_dma_buffer base n pool) \<noteq> None \<longleftrightarrow>
            0 < n \<and> n \<le> 256 * 1024 \<and> 4 dvd n \<and> pool = None) \<and>
         (fst (alloc_dma_buffer base n pool) = None \<longrightarrow> snd (alloc_dma_buffer base n pool) = pool) \<and>
         (fst (alloc_dma_buffer base n pool) \<noteq> None \<longrightarrow>
            fst (alloc_dma_buffer base m (snd (alloc_dma_buffer base n pool))) = None) \<and>
         alloc_dma_buffer base n (release_dma_buffer pool) = alloc_dma_buffer base n None"
  using assms
  by (cases pool) (simp_all add: alloc_dma_buffer_def release_dma_buffer_def DMA_POOL_SIZE_def
      dvd_eq_mod_eq_0 not_le)

theorem dma_pool_exclusive_witness:
  "fst (alloc_dma_buffer 0x1000 512 None) \<noteq> None \<and>
   fst (alloc_dma_buffer 0x1000 4 (snd (alloc_dma_buffer 0x1000 512 None))) = None"
  using dma_pool_exclusive [of "0x1000" 512 None 4] by simp

end
