(* ===== verification/Cmd.thy ===== *)
theory Cmd
  imports Prelude
begin

text \<open>
  LMAC messages and the command manager (\<open>driver/bsp/src/cmd.rs\<close>). \<open>RwnxCmdMgr\<close> keeps up to
  eight pending commands in slots; \<open>push\<close> takes a free slot, \<open>on_cfm\<close> stores the confirmation
  of the first slot that waits for its id, \<open>take_cfm\<close> hands the confirmation out and frees the
  slot, \<open>complete_timeout\<close> drops a command and marks the manager crashed. The wake-ups sent to
  blocked threads carry no data and are not part of the state. Blocking for a millisecond,
  the caller's poll function and its debug tick are functions on the world.
\<close>

section \<open>Messages\<close>

definition IPC_E2A_MSG_PARAM_SIZE :: nat where "IPC_E2A_MSG_PARAM_SIZE = 256"
definition RWNX_CMD_E2AMSG_LEN_MAX :: nat where "RWNX_CMD_E2AMSG_LEN_MAX = 256"
definition LMAC_MSG_MAX_LEN :: nat where "LMAC_MSG_MAX_LEN = 1032"

record ipc_e2a_msg =
  e2a_id :: u16
  e2a_dummy_dest_id :: u16
  e2a_dummy_src_id :: u16
  e2a_param_len :: u16
  e2a_pattern :: u32
  e2a_param :: "u32 list"

definition ipc_e2a_msg_default :: ipc_e2a_msg where
  "ipc_e2a_msg_default =
     \<lparr>e2a_id = 0, e2a_dummy_dest_id = 0, e2a_dummy_src_id = 0, e2a_param_len = 0,
      e2a_pattern = 0, e2a_param = replicate IPC_E2A_MSG_PARAM_SIZE 0\<rparr>"

record lmac_msg_header =
  h_id :: u16
  h_dest_id :: u16
  h_src_id :: u16
  h_param_len :: u16

record lmac_msg =
  m_header :: lmac_msg_header
  m_param :: "byte list"

definition LmacMsg_new :: "u16 \<Rightarrow> u16 \<Rightarrow> u16 \<Rightarrow> u16 \<Rightarrow> lmac_msg" where
  "LmacMsg_new mid dest_id src_id param_len =
     \<lparr>m_header = \<lparr>h_id = mid, h_dest_id = dest_id, h_src_id = src_id, h_param_len = param_len\<rparr>,
      m_param = replicate LMAC_MSG_MAX_LEN 0\<rparr>"

text \<open>\<open>if plen > 0 && buf.len() >= o + plen { buf[o..o+plen].copy_from_slice(&param[..plen]) }\<close>\<close>

definition copy_param :: "nat \<Rightarrow> nat \<Rightarrow> byte list \<Rightarrow> byte list \<Rightarrow> byte list result" where
  "copy_param off plen param buf =
     (if 0 < plen \<and> off + plen \<le> length buf
      then bind_res (slice_get 0 plen param) (\<lambda>src. slice_set off (off + plen) src buf)
      else ok buf)"

definition serialize :: "lmac_msg \<Rightarrow> byte list \<Rightarrow> (nat \<times> byte list) result" where
  "serialize m buf =
     (let h = m_header m; plen = unat (h_param_len h) in
      bind_res (slice_set 0 2 (le16 (h_id h)) buf) (\<lambda>b1.
      bind_res (slice_set 2 4 (le16 (h_dest_id h)) b1) (\<lambda>b2.
      bind_res (slice_set 4 6 (le16 (h_src_id h)) b2) (\<lambda>b3.
      bind_res (slice_set 6 8 (le16 (h_param_len h)) b3) (\<lambda>b4.
      bind_res (copy_param 8 plen (m_param m) b4) (\<lambda>b5. ok (8 + plen, b5)))))))"

definition serialize_8801 :: "lmac_msg \<Rightarrow> byte list \<Rightarrow> (nat \<times> byte list) result" where
  "serialize_8801 m buf =
     (let h = m_header m; plen = unat (h_param_len h) in
      bind_res (add_checked 8 (h_param_len h)) (\<lambda>payload_len.
      let len_plus_4 = (ucast payload_len :: u32) + 4 in
      bind_res (slice_set 0 1 [ucast (len_plus_4 AND 0xff)] buf) (\<lambda>b0.
      bind_res (slice_set 1 2 [ucast (drop_bit 8 len_plus_4 AND 0x0f)] b0) (\<lambda>b1.
      bind_res (slice_set 2 3 [0x11] b1) (\<lambda>b2.
      bind_res (slice_set 3 4 [0x00] b2) (\<lambda>b3.
      bind_res (slice_set 4 8 [0, 0, 0, 0] b3) (\<lambda>b4.
      bind_res (slice_set 8 10 (le16 (h_id h)) b4) (\<lambda>b5.
      bind_res (slice_set 10 12 (le16 (h_dest_id h)) b5) (\<lambda>b6.
      bind_res (slice_set 12 14 (le16 (h_src_id h)) b6) (\<lambda>b7.
      bind_res (slice_set 14 16 (le16 (h_param_len h)) b7) (\<lambda>b8.
      bind_res (copy_param 16 plen (m_param m) b8) (\<lambda>b9. ok (16 + plen, b9)))))))))))))"

section \<open>Task and message ids\<close>

datatype task_id = TaskNone | Mm | Dbg | Scan | Tdls | Scanu | Me | Sm | Apm | Bam | Mesh | Rxu
  | LastEmb | Api | TaskMax

fun task_repr :: "task_id \<Rightarrow> u8" where
  "task_repr TaskNone = 0xFF"
| "task_repr Mm = 0" | "task_repr Dbg = 1" | "task_repr Scan = 2" | "task_repr Tdls = 3"
| "task_repr Scanu = 4" | "task_repr Me = 5" | "task_repr Sm = 6" | "task_repr Apm = 7"
| "task_repr Bam = 8" | "task_repr Mesh = 9" | "task_repr Rxu = 10" | "task_repr LastEmb = 11"
| "task_repr Api = 12" | "task_repr TaskMax = 13"

definition lmac_first_msg :: "u8 \<Rightarrow> u16" where
  "lmac_first_msg task = push_bit 10 (ucast task)"

definition SCANU_START_REQ :: u16 where "SCANU_START_REQ = lmac_first_msg (task_repr Scanu)"
definition SCANU_START_CFM :: u16 where "SCANU_START_CFM = SCANU_START_REQ + 1"
definition SCANU_RESULT_IND :: u16 where "SCANU_RESULT_IND = SCANU_START_REQ + 3"
definition SM_CONNECT_REQ :: u16 where "SM_CONNECT_REQ = lmac_first_msg (task_repr Sm)"
definition SM_CONNECT_CFM :: u16 where "SM_CONNECT_CFM = SM_CONNECT_REQ + 1"
definition SM_CONNECT_IND :: u16 where "SM_CONNECT_IND = SM_CONNECT_REQ + 2"
definition SM_DISCONNECT_REQ :: u16 where "SM_DISCONNECT_REQ = SM_CONNECT_REQ + 3"
definition SM_DISCONNECT_CFM :: u16 where "SM_DISCONNECT_CFM = SM_CONNECT_REQ + 4"
definition SM_DISCONNECT_IND :: u16 where "SM_DISCONNECT_IND = SM_CONNECT_REQ + 5"
definition MM_ADD_IF_REQ :: u16 where "MM_ADD_IF_REQ = lmac_first_msg (task_repr Mm) + 4"
definition MM_ADD_IF_CFM :: u16 where "MM_ADD_IF_CFM = MM_ADD_IF_REQ + 1"
definition MM_REMOVE_IF_REQ :: u16 where "MM_REMOVE_IF_REQ = lmac_first_msg (task_repr Mm) + 6"
definition MM_REMOVE_IF_CFM :: u16 where "MM_REMOVE_IF_CFM = MM_REMOVE_IF_REQ + 1"
definition MM_STA_ADD_REQ :: u16 where "MM_STA_ADD_REQ = lmac_first_msg (task_repr Mm) + 10"
definition MM_STA_ADD_CFM :: u16 where "MM_STA_ADD_CFM = MM_STA_ADD_REQ + 1"
definition MM_STA_DEL_REQ :: u16 where "MM_STA_DEL_REQ = lmac_first_msg (task_repr Mm) + 12"
definition MM_STA_DEL_CFM :: u16 where "MM_STA_DEL_CFM = MM_STA_DEL_REQ + 1"
definition MM_KEY_ADD_REQ :: u16 where "MM_KEY_ADD_REQ = lmac_first_msg (task_repr Mm) + 72"
definition MM_KEY_ADD_CFM :: u16 where "MM_KEY_ADD_CFM = MM_KEY_ADD_REQ + 1"
definition MM_KEY_DEL_REQ :: u16 where "MM_KEY_DEL_REQ = MM_KEY_ADD_REQ + 2"
definition MM_KEY_DEL_CFM :: u16 where "MM_KEY_DEL_CFM = MM_KEY_ADD_REQ + 3"
definition MM_SET_POWER_REQ :: u16 where "MM_SET_POWER_REQ = lmac_first_msg (task_repr Mm) + 46"
definition MM_SET_POWER_CFM :: u16 where "MM_SET_POWER_CFM = MM_SET_POWER_REQ + 1"
definition MM_PS_CHANGE_IND :: u16 where "MM_PS_CHANGE_IND = lmac_first_msg (task_repr Mm) + 75"
definition MM_RSSI_STATUS_IND :: u16 where "MM_RSSI_STATUS_IND = lmac_first_msg (task_repr Mm) + 89"
definition MM_GET_STA_INFO_REQ :: u16 where "MM_GET_STA_INFO_REQ = lmac_first_msg (task_repr Mm) + 368"
definition MM_GET_STA_INFO_CFM :: u16 where "MM_GET_STA_INFO_CFM = MM_GET_STA_INFO_REQ + 1"
definition APM_START_REQ :: u16 where "APM_START_REQ = lmac_first_msg (task_repr Apm)"
definition APM_START_CFM :: u16 where "APM_START_CFM = APM_START_REQ + 1"
definition APM_STOP_REQ :: u16 where "APM_STOP_REQ = APM_START_REQ + 2"
definition APM_STOP_CFM :: u16 where "APM_STOP_CFM = APM_START_REQ + 3"
definition DRV_TASK_ID :: u16 where "DRV_TASK_ID = 100"

lemmas msg_id_defs =
  SCANU_START_REQ_def SCANU_START_CFM_def SCANU_RESULT_IND_def SM_CONNECT_REQ_def SM_CONNECT_CFM_def
  SM_CONNECT_IND_def SM_DISCONNECT_REQ_def SM_DISCONNECT_CFM_def SM_DISCONNECT_IND_def
  MM_ADD_IF_REQ_def MM_ADD_IF_CFM_def MM_REMOVE_IF_REQ_def MM_REMOVE_IF_CFM_def MM_STA_ADD_REQ_def
  MM_STA_ADD_CFM_def MM_STA_DEL_REQ_def MM_STA_DEL_CFM_def MM_KEY_ADD_REQ_def MM_KEY_ADD_CFM_def
  MM_KEY_DEL_REQ_def MM_KEY_DEL_CFM_def MM_SET_POWER_REQ_def MM_SET_POWER_CFM_def
  MM_PS_CHANGE_IND_def MM_RSSI_STATUS_IND_def MM_GET_STA_INFO_REQ_def MM_GET_STA_INFO_CFM_def
  APM_START_REQ_def APM_START_CFM_def APM_STOP_REQ_def APM_STOP_CFM_def lmac_first_msg_def

section \<open>Command manager\<close>

definition REQ_CFM :: u16 where "REQ_CFM = push_bit 1 1"
definition WAIT_ACK :: u16 where "WAIT_ACK = push_bit 3 1"
definition WAIT_CFM :: u16 where "WAIT_CFM = push_bit 4 1"
definition DONE :: u16 where "DONE = push_bit 5 1"

definition rwnx_cmd_wait_complete :: "u16 \<Rightarrow> bool" where
  "rwnx_cmd_wait_complete flags \<longleftrightarrow> flags AND (WAIT_ACK OR WAIT_CFM) = 0"

definition RWNX_80211_CMD_TIMEOUT_MS :: u32 where "RWNX_80211_CMD_TIMEOUT_MS = 6000"
definition CMD_MGR_MAX_PENDING :: nat where "CMD_MGR_MAX_PENDING = 8"

datatype mgr_state = Deinit | Inited | Crashed

record pending_cmd =
  p_reqid :: u16
  p_flags :: u16
  p_result :: int
  p_done :: bool
  p_cfm_len :: nat
  p_cfm_data :: "byte list"

definition pending_default :: pending_cmd where
  "pending_default =
     \<lparr>p_reqid = 0, p_flags = 0, p_result = -4, p_done = False, p_cfm_len = 0,
      p_cfm_data = replicate RWNX_CMD_E2AMSG_LEN_MAX 0\<rparr>"

record cmd_mgr =
  mgr_state :: mgr_state
  next_tkn :: u32
  queue_sz :: u32
  max_queue_sz :: u32
  slots :: "pending_cmd option list"

definition CmdMgr_new :: cmd_mgr where
  "CmdMgr_new =
     \<lparr>mgr_state = Inited, next_tkn = 0, queue_sz = 0, max_queue_sz = of_nat CMD_MGR_MAX_PENDING,
      slots = replicate 8 None\<rparr>"

text \<open>The index loops over \<open>slots\<close>: the first index whose slot satisfies the test.\<close>

fun find_slot :: "('a \<Rightarrow> bool) \<Rightarrow> 'a list \<Rightarrow> nat option" where
  "find_slot P [] = None"
| "find_slot P (x # xs) = (if P x then Some 0 else map_option Suc (find_slot P xs))"

definition mgr_push :: "u16 \<Rightarrow> cmd_mgr \<Rightarrow> nat option \<times> cmd_mgr" where
  "mgr_push reqid m =
     (if mgr_state m = Crashed then (None, m)
      else if queue_sz m \<ge> max_queue_sz m then (None, m)
      else case find_slot (\<lambda>s. s = None) (slots m) of
             None \<Rightarrow> (None, m)
           | Some i \<Rightarrow>
               (Some i,
                m\<lparr>next_tkn := next_tkn m + 1,
                  slots := (slots m)[i := Some \<lparr>p_reqid = reqid, p_flags = REQ_CFM OR WAIT_CFM,
                     p_result = -4, p_done = False, p_cfm_len = 0,
                     p_cfm_data = replicate RWNX_CMD_E2AMSG_LEN_MAX 0\<rparr>],
                  queue_sz := queue_sz m + 1\<rparr>))"

definition saturating_dec :: "u32 \<Rightarrow> u32" where
  "saturating_dec n = (if n = 0 then 0 else n - 1)"

definition cmd_complete :: "nat \<Rightarrow> cmd_mgr \<Rightarrow> cmd_mgr" where
  "cmd_complete token m =
     (if token \<ge> CMD_MGR_MAX_PENDING then m
      else case slots m ! token of
             None \<Rightarrow> m
           | Some s \<Rightarrow> m\<lparr>slots := (slots m)[token := Some (s\<lparr>p_flags := p_flags s OR DONE\<rparr>)],
                         queue_sz := saturating_dec (queue_sz m)\<rparr>)"

definition slot_waits :: "u16 \<Rightarrow> pending_cmd option \<Rightarrow> bool" where
  "slot_waits msg_id s \<longleftrightarrow>
     (case s of None \<Rightarrow> False | Some c \<Rightarrow> p_reqid c = msg_id \<and> p_flags c AND WAIT_CFM \<noteq> 0)"

definition on_cfm :: "u16 \<Rightarrow> byte list \<Rightarrow> cmd_mgr \<Rightarrow> cmd_mgr" where
  "on_cfm msg_id param m =
     (case find_slot (slot_waits msg_id) (slots m) of
        None \<Rightarrow> m
      | Some token \<Rightarrow>
          (case slots m ! token of
             None \<Rightarrow> m
           | Some s \<Rightarrow>
               let flags = p_flags s AND NOT WAIT_CFM;
                   param_len = (if length param > RWNX_CMD_E2AMSG_LEN_MAX
                                then RWNX_CMD_E2AMSG_LEN_MAX else length param);
                   s' = s\<lparr>p_flags := flags,
                          p_cfm_data := take param_len param @ drop param_len (p_cfm_data s),
                          p_cfm_len := param_len, p_done := True, p_result := 0\<rparr>;
                   m' = m\<lparr>slots := (slots m)[token := Some s']\<rparr>
               in if rwnx_cmd_wait_complete flags then cmd_complete token m' else m'))"

definition complete_timeout :: "nat \<Rightarrow> cmd_mgr \<Rightarrow> cmd_mgr" where
  "complete_timeout token m =
     (if token \<ge> CMD_MGR_MAX_PENDING then m
      else let m' = (case slots m ! token of
                       None \<Rightarrow> m
                     | Some _ \<Rightarrow> m\<lparr>slots := (slots m)[token := None],
                                  queue_sz := saturating_dec (queue_sz m)\<rparr>)
           in m'\<lparr>mgr_state := Crashed\<rparr>)"

definition is_done :: "nat \<Rightarrow> cmd_mgr \<Rightarrow> bool" where
  "is_done token m =
     (if token \<ge> CMD_MGR_MAX_PENDING then False
      else case slots m ! token of None \<Rightarrow> False | Some s \<Rightarrow> p_done s)"

text \<open>\<open>out\<close> is the caller's buffer; the result is the copied length with the new buffer.\<close>

definition take_cfm :: "nat \<Rightarrow> byte list \<Rightarrow> cmd_mgr \<Rightarrow> (nat \<times> byte list) option \<times> cmd_mgr" where
  "take_cfm token out m =
     (if token \<ge> CMD_MGR_MAX_PENDING then (None, m)
      else case slots m ! token of
             None \<Rightarrow> (None, m)
           | Some s \<Rightarrow>
               let m' = m\<lparr>slots := (slots m)[token := None]\<rparr> in
               if \<not> p_done s then (None, m')
               else let n = min (p_cfm_len s) (length out)
                    in (Some (n, take n (p_cfm_data s) @ drop n out), m'))"

definition TICK_EVERY_MS :: nat where "TICK_EVERY_MS = 500"

text \<open>
  \<open>idle\<close> is the one-millisecond wait (interrupt wait or sleep); \<open>poll\<close> and \<open>tick\<close> are the
  caller's closures.
\<close>

function wait_done_loop ::
  "nat \<Rightarrow> u32 \<Rightarrow> (cmd_mgr \<times> 'w \<Rightarrow> cmd_mgr \<times> 'w) \<Rightarrow> (u32 \<Rightarrow> 'w \<Rightarrow> 'w) option \<Rightarrow> ('w \<Rightarrow> 'w)
   \<Rightarrow> u32 \<Rightarrow> (cmd_mgr \<times> 'w, unit) io" where
  "wait_done_loop token timeout_ms poll tick idle waited_ms (m, w) =
     (if waited_ms < timeout_ms then
        if is_done token m then (ok (), (m, w))
        else let (m1, w1) = poll (m, w) in
             if is_done token m1 then (ok (), (m1, w1))
             else let w2 = (if 0 < waited_ms \<and> unat waited_ms mod TICK_EVERY_MS = 0
                            then (case tick of None \<Rightarrow> w1 | Some t \<Rightarrow> t waited_ms w1) else w1)
                  in wait_done_loop token timeout_ms poll tick idle (waited_ms + 1) (m1, idle w2)
      else (err (-62), (m, w)))"
  by pat_completeness auto

termination
  by (relation "measure (\<lambda>(token, timeout_ms, poll, tick, idle, waited_ms, s).
        unat timeout_ms - unat waited_ms)")
    (auto simp: word_succ_less)

declare wait_done_loop.simps [simp del]

definition wait_done ::
  "nat \<Rightarrow> u32 \<Rightarrow> (cmd_mgr \<times> 'w \<Rightarrow> cmd_mgr \<times> 'w) \<Rightarrow> (u32 \<Rightarrow> 'w \<Rightarrow> 'w) option \<Rightarrow> ('w \<Rightarrow> 'w)
   \<Rightarrow> (cmd_mgr \<times> 'w, unit) io" where
  "wait_done token timeout_ms poll tick idle = wait_done_loop token timeout_ms poll tick idle 0"

function wait_done_until_loop ::
  "u32 \<Rightarrow> ('w \<Rightarrow> bool \<times> 'w) \<Rightarrow> (u32 \<Rightarrow> 'w \<Rightarrow> 'w) option \<Rightarrow> ('w \<Rightarrow> 'w) option \<Rightarrow> u32 \<Rightarrow> ('w \<Rightarrow> 'w)
   \<Rightarrow> u32 \<Rightarrow> ('w, unit) io" where
  "wait_done_until_loop timeout_ms condition tick poll log_every idle waited_ms w =
     (if waited_ms < timeout_ms then
        let w1 = (case poll of None \<Rightarrow> w | Some pf \<Rightarrow> pf w);
            (c, w2) = condition w1
        in if c then (ok (), w2)
           else let w3 = (if 0 < waited_ms \<and> 0 < log_every \<and> waited_ms mod log_every = 0
                          then (case tick of None \<Rightarrow> w2 | Some t \<Rightarrow> t waited_ms w2) else w2)
                in wait_done_until_loop timeout_ms condition tick poll log_every idle
                     (waited_ms + 1) (idle w3)
      else (err (-62), w))"
  by pat_completeness auto

termination
  by (relation "measure (\<lambda>(timeout_ms, condition, tick, poll, log_every, idle, waited_ms, w).
        unat timeout_ms - unat waited_ms)")
    (auto simp: word_succ_less)

declare wait_done_until_loop.simps [simp del]

definition wait_done_until ::
  "u32 \<Rightarrow> ('w \<Rightarrow> bool \<times> 'w) \<Rightarrow> (u32 \<Rightarrow> 'w \<Rightarrow> 'w) option \<Rightarrow> ('w \<Rightarrow> 'w) option \<Rightarrow> u32 option
   \<Rightarrow> ('w \<Rightarrow> 'w) \<Rightarrow> ('w, unit) io" where
  "wait_done_until timeout_ms condition tick poll log_every_ms idle =
     wait_done_until_loop timeout_ms condition tick poll
       (case log_every_ms of None \<Rightarrow> 500 | Some n \<Rightarrow> n) idle 0"


section \<open>Slots\<close>

lemma find_slot_SomeD:
  "find_slot P xs = Some i \<Longrightarrow> i < length xs \<and> P (xs ! i) \<and> (\<forall>j<i. \<not> P (xs ! j))"
  by (induction xs arbitrary: i) (auto simp: nth_Cons less_Suc_eq_0_disj split: if_splits nat.splits)

lemma find_slot_None: "find_slot P xs = None \<longleftrightarrow> (\<forall>x\<in>set xs. \<not> P x)"
  by (induction xs) auto

lemma find_slot_replicate: "find_slot P (replicate n x) = (if 0 < n \<and> P x then Some 0 else None)"
  by (induction n) auto

text \<open>Number of commands that still wait for a confirmation.\<close>

definition waiting :: "pending_cmd option list \<Rightarrow> nat" where
  "waiting ss = length (filter (\<lambda>s. case s of None \<Rightarrow> False | Some c \<Rightarrow> \<not> p_done c) ss)"

definition pending_wf :: "pending_cmd \<Rightarrow> bool" where
  "pending_wf c \<longleftrightarrow> length (p_cfm_data c) = RWNX_CMD_E2AMSG_LEN_MAX \<and>
     p_cfm_len c \<le> RWNX_CMD_E2AMSG_LEN_MAX \<and>
     (p_flags c AND WAIT_CFM \<noteq> 0 \<longleftrightarrow> \<not> p_done c) \<and> p_flags c AND WAIT_ACK = 0"

definition mgr_wf :: "cmd_mgr \<Rightarrow> bool" where
  "mgr_wf m \<longleftrightarrow> length (slots m) = CMD_MGR_MAX_PENDING \<and> max_queue_sz m = 8 \<and>
     (\<forall>c. Some c \<in> set (slots m) \<longrightarrow> pending_wf c) \<and> unat (queue_sz m) = waiting (slots m)"

lemma waiting_le: "waiting ss \<le> length ss"
  by (simp add: waiting_def)

lemma waiting_update:
  assumes "i < length ss"
  shows "waiting (ss[i := x]) + waiting [ss ! i] = waiting ss + waiting [x]"
proof -
  have "ss = take i ss @ ss ! i # drop (Suc i) ss"
    using assms by (rule id_take_nth_drop)
  then have "waiting ss = waiting (take i ss) + waiting [ss ! i] + waiting (drop (Suc i) ss)"
    by (metis (no_types, lifting) add.assoc append.left_neutral append_Cons filter_append
        length_append waiting_def)
  moreover have "waiting (ss[i := x]) = waiting (take i ss) + waiting [x] + waiting (drop (Suc i) ss)"
    using assms by (simp add: upd_conv_take_nth_drop waiting_def)
  ultimately show ?thesis by simp
qed

lemma waiting_single [simp]:
  "waiting [None] = 0" "waiting [Some c] = (if p_done c then 0 else 1)"
  by (simp_all add: waiting_def)

lemma mgr_wfD:
  assumes "mgr_wf m"
  shows "length (slots m) = 8" and "max_queue_sz m = 8" and "unat (queue_sz m) = waiting (slots m)"
    and "i < 8 \<Longrightarrow> slots m ! i = Some c \<Longrightarrow> pending_wf c"
  using assms by (auto simp: mgr_wf_def CMD_MGR_MAX_PENDING_def) (metis nth_mem)

lemma mgr_wf_updateI:
  assumes "mgr_wf m" and "i < 8" and "\<And>c. x = Some c \<Longrightarrow> pending_wf c"
    and "slots m' = (slots m)[i := x]" and "max_queue_sz m' = max_queue_sz m"
    and "unat (queue_sz m') + waiting [slots m ! i] = unat (queue_sz m) + waiting [x]"
  shows "mgr_wf m'"
proof -
  note d = mgr_wfD [OF assms(1)]
  have "\<forall>c. Some c \<in> set (slots m') \<longrightarrow> pending_wf c"
    using assms(1,3,4) set_update_subset_insert [of "slots m" i x] by (auto simp: mgr_wf_def)
  moreover have "unat (queue_sz m') = waiting (slots m')"
    using waiting_update [of i "slots m" x] assms(2,4,6) d(1,3) by simp
  ultimately show ?thesis
    using assms(4,5) d(1,2) by (simp add: mgr_wf_def CMD_MGR_MAX_PENDING_def)
qed

lemma saturating_dec_unat: "unat (saturating_dec n) = unat n - 1"
  by (simp add: saturating_dec_def unat_minus_one)

lemma flag_bits [simp]:
  "(REQ_CFM OR WAIT_CFM) AND WAIT_CFM \<noteq> 0" "(REQ_CFM OR WAIT_CFM) AND WAIT_ACK = 0"
  "WAIT_CFM \<noteq> 0" "(f AND NOT WAIT_CFM) AND WAIT_CFM = 0" "DONE AND WAIT_CFM = 0" "DONE AND WAIT_ACK = 0"
  by (simp_all add: REQ_CFM_def WAIT_CFM_def WAIT_ACK_def DONE_def and.assoc)

lemma waiting_pos:
  "i < length ss \<Longrightarrow> ss ! i = Some c \<Longrightarrow> \<not> p_done c \<Longrightarrow> 0 < waiting ss"
  unfolding waiting_def length_greater_0_conv filter_empty_conv by (metis nth_mem option.simps(5))


definition new_pending :: "u16 \<Rightarrow> pending_cmd" where
  "new_pending r = pending_default\<lparr>p_reqid := r, p_flags := REQ_CFM OR WAIT_CFM\<rparr>"

lemma mgr_push_SomeD:
  assumes "mgr_push r m = (Some t, m')" and "mgr_wf m"
  shows "t < 8 \<and> slots m ! t = None \<and> (\<forall>j<t. slots m ! j \<noteq> None) \<and> mgr_state m \<noteq> Crashed \<and>
    unat (queue_sz m) < 8 \<and>
    m' = m\<lparr>next_tkn := next_tkn m + 1, slots := (slots m)[t := Some (new_pending r)],
           queue_sz := queue_sz m + 1\<rparr>"
proof -
  from assms(1) have f: "find_slot (\<lambda>s. s = None) (slots m) = Some t"
    and st: "mgr_state m \<noteq> Crashed" "\<not> max_queue_sz m \<le> queue_sz m"
    and m': "m' = m\<lparr>next_tkn := next_tkn m + 1, slots := (slots m)[t := Some (new_pending r)],
           queue_sz := queue_sz m + 1\<rparr>"
    by (auto simp: mgr_push_def new_pending_def pending_default_def split: if_splits option.splits)
  moreover have "unat (queue_sz m) < 8"
    using st(2) mgr_wfD(2) [OF assms(2)] by (simp add: word_less_nat_alt not_le)
  ultimately show ?thesis
    using find_slot_SomeD [OF f] mgr_wfD(1) [OF assms(2)] by auto
qed

lemma mgr_push_NoneD: "mgr_push r m = (None, m') \<Longrightarrow> m' = m"
  by (auto simp: mgr_push_def split: if_splits option.splits)

lemma mgr_push_None_iff:
  assumes "mgr_wf m"
  shows "fst (mgr_push r m) = None \<longleftrightarrow> mgr_state m = Crashed \<or> None \<notin> set (slots m)"
proof -
  have "None \<in> set (slots m) \<Longrightarrow> \<not> max_queue_sz m \<le> queue_sz m"
  proof
    assume n: "None \<in> set (slots m)" and "max_queue_sz m \<le> queue_sz m"
    then have "length (slots m) \<le> waiting (slots m)"
      using mgr_wfD(1-3) [OF assms] by (simp add: word_le_nat_alt)
    then have "filter (\<lambda>s. case s of None \<Rightarrow> False | Some c \<Rightarrow> \<not> p_done c) (slots m) = slots m"
      unfolding waiting_def by (metis filter_id_conv length_filter_less not_le)
    with n show False
      by (metis (no_types, lifting) filter_id_conv option.simps(4))
  qed
  moreover have "find_slot (\<lambda>s. s = None) (slots m) = None \<longleftrightarrow> None \<notin> set (slots m)"
    unfolding find_slot_None by metis
  ultimately show ?thesis
    by (cases "find_slot (\<lambda>s. s = None) (slots m)") (auto simp: mgr_push_def)
qed

lemma pending_wf_new: "pending_wf (new_pending r)"
  by (simp add: pending_wf_def new_pending_def pending_default_def RWNX_CMD_E2AMSG_LEN_MAX_def)

lemma mgr_push_wf [wf_intros]:
  assumes "mgr_wf m"
  shows "mgr_wf (snd (mgr_push r m))"
proof (cases "mgr_push r m")
  case (Pair t m')
  show ?thesis
  proof (cases t)
    case None
    with Pair mgr_push_NoneD assms show ?thesis by fastforce
  next
    case (Some i)
    note d = mgr_push_SomeD [OF Pair [unfolded Some] assms]
    then have "unat (queue_sz m + 1) = Suc (unat (queue_sz m))"
      using word_succ_less(1) [of "queue_sz m" 8] by (simp add: word_less_nat_alt)
    with d Pair assms show ?thesis
      by (auto intro!: mgr_wf_updateI [of m i "Some (new_pending r)"] pending_wf_new
          simp: new_pending_def pending_default_def)
  qed
qed

text \<open>What a confirmation leaves in its slot.\<close>

definition confirmed :: "byte list \<Rightarrow> pending_cmd \<Rightarrow> pending_cmd" where
  "confirmed param s =
     (let n = min RWNX_CMD_E2AMSG_LEN_MAX (length param)
      in s\<lparr>p_cfm_data := take n param @ drop n (p_cfm_data s), p_cfm_len := n,
           p_done := True, p_result := 0, p_flags := (p_flags s AND NOT WAIT_CFM) OR DONE\<rparr>)"

lemma pending_wf_confirmed: "pending_wf s \<Longrightarrow> pending_wf (confirmed param s)"
  by (auto simp: pending_wf_def confirmed_def Let_def bit.conj_disj_distrib2 and.assoc and.left_commute
      RWNX_CMD_E2AMSG_LEN_MAX_def)

lemma on_cfm_miss: "find_slot (slot_waits r) (slots m) = None \<Longrightarrow> on_cfm r p m = m"
  by (simp add: on_cfm_def)

lemma on_cfm_hit:
  assumes wf: "mgr_wf m" and f: "find_slot (slot_waits r) (slots m) = Some t"
  shows "\<exists>s. t < 8 \<and> slots m ! t = Some s \<and> p_reqid s = r \<and> \<not> p_done s \<and> pending_wf s \<and>
     on_cfm r p m = m\<lparr>slots := (slots m)[t := Some (confirmed p s)],
                       queue_sz := saturating_dec (queue_sz m)\<rparr>"
proof -
  note len = mgr_wfD(1) [OF wf]
  from find_slot_SomeD [OF f] len obtain s where t: "t < 8" and s: "slots m ! t = Some s"
    and r: "p_reqid s = r" "p_flags s AND WAIT_CFM \<noteq> 0"
    by (auto simp: slot_waits_def split: option.splits)
  from mgr_wfD(4) [OF wf t s] have w: "pending_wf s" .
  then have "(p_flags s AND NOT WAIT_CFM) AND (WAIT_ACK OR WAIT_CFM) = 0"
    by (simp add: pending_wf_def bit.conj_disj_distrib and.assoc and.left_commute)
  moreover have "(if RWNX_CMD_E2AMSG_LEN_MAX < length p then RWNX_CMD_E2AMSG_LEN_MAX else length p)
      = min RWNX_CMD_E2AMSG_LEN_MAX (length p)" by simp
  ultimately have "on_cfm r p m = m\<lparr>slots := (slots m)[t := Some (confirmed p s)],
                       queue_sz := saturating_dec (queue_sz m)\<rparr>"
    using f s t len
    by (simp only: on_cfm_def option.case)
      (simp add: rwnx_cmd_wait_complete_def cmd_complete_def CMD_MGR_MAX_PENDING_def
        confirmed_def Let_def)
  with t s r w show ?thesis by (auto simp: pending_wf_def)
qed

lemma on_cfm_wf [wf_intros]:
  assumes "mgr_wf m"
  shows "mgr_wf (on_cfm r p m)"
proof (cases "find_slot (slot_waits r) (slots m)")
  case None
  with assms show ?thesis by (simp add: on_cfm_miss)
next
  case (Some t)
  from on_cfm_hit [OF assms Some] obtain s where t: "t < 8" "slots m ! t = Some s" "\<not> p_done s"
    "pending_wf s" and e: "on_cfm r p m = m\<lparr>slots := (slots m)[t := Some (confirmed p s)],
                       queue_sz := saturating_dec (queue_sz m)\<rparr>" by blast
  have "0 < unat (queue_sz m)"
    using waiting_pos [of t "slots m" s] t mgr_wfD(1,3) [OF assms] by simp
  then show ?thesis
    unfolding e using t
    by (rule_tac mgr_wf_updateI [OF assms, of t "Some (confirmed p s)"])
      (auto simp: saturating_dec_unat pending_wf_confirmed, simp add: confirmed_def Let_def)
qed

lemma take_cfm_wf [wf_intros]:
  assumes "mgr_wf m" and "is_done t m"
  shows "mgr_wf (snd (take_cfm t out m))"
proof -
  from assms(2) obtain s where t: "t < 8" "slots m ! t = Some s" "p_done s"
    by (auto simp: is_done_def CMD_MGR_MAX_PENDING_def split: if_splits option.splits)
  then have "snd (take_cfm t out m) = m\<lparr>slots := (slots m)[t := None]\<rparr>"
    by (simp add: take_cfm_def CMD_MGR_MAX_PENDING_def Let_def)
  with t show ?thesis
    by (auto intro: mgr_wf_updateI [OF assms(1), of t None])
qed

lemma complete_timeout_wf [wf_intros]:
  assumes "mgr_wf m" and "\<not> is_done t m"
  shows "mgr_wf (complete_timeout t m)"
proof (cases "t < 8 \<and> slots m ! t \<noteq> None")
  case False
  with assms(1) show ?thesis
    by (auto simp: complete_timeout_def CMD_MGR_MAX_PENDING_def Let_def mgr_wf_def)
next
  case True
  then obtain s where t: "t < 8" "slots m ! t = Some s" by blast
  with assms(2) have nd: "\<not> p_done s" by (simp add: is_done_def CMD_MGR_MAX_PENDING_def)
  have "0 < unat (queue_sz m)"
    using waiting_pos [of t "slots m" s] t nd mgr_wfD(1,3) [OF assms(1)] by simp
  with t nd show ?thesis
    by (auto intro!: mgr_wf_updateI [OF assms(1), of t None] simp: complete_timeout_def CMD_MGR_MAX_PENDING_def Let_def saturating_dec_unat)
qed


section \<open>The completion table\<close>

text \<open>
  What the senders rely on: a table from tokens to commands, each with the id it waits for
  and, once confirmed, the answer.
\<close>

locale completion_table =
  fixes wf :: "'m \<Rightarrow> bool"
    and view :: "'m \<Rightarrow> nat \<Rightarrow> (u16 \<times> byte list option) option"
    and push :: "u16 \<Rightarrow> 'm \<Rightarrow> nat option \<times> 'm"
    and cfm :: "u16 \<Rightarrow> byte list \<Rightarrow> 'm \<Rightarrow> 'm"
    and cap :: nat
  assumes push_view: "wf m \<Longrightarrow> push r m = (Some t, m') \<Longrightarrow>
      wf m' \<and> view m t = None \<and> view m' = (view m)(t \<mapsto> (r, None))"
    and cfm_wf: "wf m \<Longrightarrow> wf (cfm r p m)"
    and cfm_hit: "wf m \<Longrightarrow> view m t = Some (r, None) \<Longrightarrow>
      \<exists>t'. t' \<le> t \<and> view m t' = Some (r, None) \<and>
           view (cfm r p m) = (view m)(t' \<mapsto> (r, Some (take cap p)))"
    and cfm_miss: "wf m \<Longrightarrow> (\<And>t. view m t \<noteq> Some (r, None)) \<Longrightarrow> view (cfm r p m) = view m"
begin

definition alone :: "'m \<Rightarrow> nat \<Rightarrow> u16 \<Rightarrow> bool" where
  "alone m t r \<longleftrightarrow> view m t = Some (r, None) \<and> (\<forall>t'. t' \<noteq> t \<longrightarrow> view m t' \<noteq> Some (r, None))"

definition cfms :: "(u16 \<times> byte list) list \<Rightarrow> 'm \<Rightarrow> 'm" where
  "cfms cs m = fold (\<lambda>(r, p). cfm r p) cs m"

lemma cfms_wf: "wf m \<Longrightarrow> wf (cfms cs m)"
  unfolding cfms_def by (induction cs arbitrary: m) (auto intro: cfm_wf)

lemma cfm_view_cases:
  assumes "wf m"
  obtains "view (cfm r p m) = view m"
  | t where "view m t = Some (r, None)" "view (cfm r p m) = (view m)(t \<mapsto> (r, Some (take cap p)))"
  using assms cfm_hit [of m _ r p] cfm_miss [of m r p] by metis

lemma push_alone:
  assumes "wf m" "push r m = (Some t, m')" "\<And>t'. view m t' \<noteq> Some (r, None)"
  shows "alone m' t r"
  using push_view [OF assms(1,2)] assms(3) by (simp add: alone_def)

lemma cfm_other_alone:
  assumes "wf m" "alone m t r" "r' \<noteq> r"
  shows "alone (cfm r' p m) t r"
  using assms(2,3) by (cases rule: cfm_view_cases [OF assms(1), of r' p]) (auto simp: alone_def)

lemma cfms_other_alone:
  assumes "wf m" "alone m t r" "r \<notin> fst ` set cs"
  shows "alone (cfms cs m) t r"
  using assms
proof (induction cs arbitrary: m)
  case (Cons c cs)
  obtain r' p where c: "c = (r', p)" by fastforce
  with Cons have "alone (cfm r' p m) t r" "wf (cfm r' p m)"
    by (auto intro: cfm_other_alone cfm_wf)
  with Cons c show ?case by (simp add: cfms_def)
qed (simp add: cfms_def)

lemma cfm_answers:
  assumes "wf m" "alone m t r"
  shows "view (cfm r p m) t = Some (r, Some (take cap p))"
  using cfm_hit [OF assms(1), of t r p] assms(2) unfolding alone_def by force

lemma answer_stays:
  assumes "wf m" "view m t = Some (r, Some a)"
  shows "view (cfms cs m) t = Some (r, Some a)"
  using assms
proof (induction cs arbitrary: m)
  case (Cons c cs)
  obtain r' p where c: "c = (r', p)" by fastforce
  have "view (cfm r' p m) t = Some (r, Some a)"
    using Cons.prems by (cases rule: cfm_view_cases [OF Cons.prems(1), of r' p]) auto
  with Cons c show ?case by (simp add: cfms_def cfm_wf)
qed (simp add: cfms_def)

lemma exchange:
  assumes "wf m" "push r m = (Some t, m')" "\<And>t'. view m t' \<noteq> Some (r, None)"
    "r \<notin> fst ` set before"
  shows "view (cfms before m') t = Some (r, None) \<and>
    view (cfms (before @ (r, p) # after) m') t = Some (r, Some (take cap p))"
proof -
  have wf: "wf m'" and al: "alone m' t r"
    using push_view [OF assms(1,2)] push_alone [OF assms(1-3)] by auto
  have al': "alone (cfms before m') t r" by (rule cfms_other_alone [OF wf al assms(4)])
  have "view (cfm r p (cfms before m')) t = Some (r, Some (take cap p))"
    by (rule cfm_answers [OF cfms_wf [OF wf] al'])
  then have "view (cfms after (cfm r p (cfms before m'))) t = Some (r, Some (take cap p))"
    by (rule answer_stays [OF cfm_wf [OF cfms_wf [OF wf]]])
  moreover have "cfms (before @ (r, p) # after) m' = cfms after (cfm r p (cfms before m'))"
    by (simp add: cfms_def)
  ultimately show ?thesis using al' by (simp add: alone_def)
qed

end

text \<open>The table a manager stands for.\<close>

definition cmd_view :: "cmd_mgr \<Rightarrow> nat \<Rightarrow> (u16 \<times> byte list option) option" where
  "cmd_view m t =
     (if t < CMD_MGR_MAX_PENDING
      then map_option (\<lambda>s. (p_reqid s,
             if p_done s then Some (take (p_cfm_len s) (p_cfm_data s)) else None)) (slots m ! t)
      else None)"

lemma cmd_view_update:
  assumes "length (slots m) = 8" "t < 8" "slots m' = (slots m)[t := x]"
  shows "cmd_view m' = (cmd_view m)(t := map_option (\<lambda>s. (p_reqid s,
             if p_done s then Some (take (p_cfm_len s) (p_cfm_data s)) else None)) x)"
  using assms by (auto simp: cmd_view_def CMD_MGR_MAX_PENDING_def nth_list_update fun_eq_iff)

lemma cmd_view_waits:
  assumes "mgr_wf m"
  shows "cmd_view m t = Some (r, None) \<longleftrightarrow> t < 8 \<and> slot_waits r (slots m ! t)"
  using mgr_wfD(4) [OF assms, of t]
  by (auto simp: cmd_view_def CMD_MGR_MAX_PENDING_def slot_waits_def pending_wf_def
      split: option.splits)

lemma confirmed_view:
  assumes "pending_wf s"
  shows "p_done (confirmed p s)" "p_reqid (confirmed p s) = p_reqid s"
    "take (p_cfm_len (confirmed p s)) (p_cfm_data (confirmed p s)) = take RWNX_CMD_E2AMSG_LEN_MAX p"
  using assms by (auto simp: confirmed_def Let_def min_def)

interpretation rwnx: completion_table mgr_wf cmd_view mgr_push on_cfm RWNX_CMD_E2AMSG_LEN_MAX
proof unfold_locales
  fix m m' r t
  assume w: "mgr_wf m" and p: "mgr_push r m = (Some t, m')"
  note d = mgr_push_SomeD [OF p w]
  have "cmd_view m' = (cmd_view m)(t \<mapsto> (r, None))"
    using cmd_view_update [of m t m' "Some (new_pending r)"] d mgr_wfD(1) [OF w]
    by (simp add: new_pending_def pending_default_def)
  then show "mgr_wf m' \<and> cmd_view m t = None \<and> cmd_view m' = (cmd_view m)(t \<mapsto> (r, None))"
    using mgr_push_wf [OF w, of r] p d by (simp add: cmd_view_def)
next
  fix m t r p
  assume w: "mgr_wf m" and "cmd_view m t = Some (r, None)"
  then have t: "t < 8" "slot_waits r (slots m ! t)" by (simp_all add: cmd_view_waits)
  then obtain t' where f: "find_slot (slot_waits r) (slots m) = Some t'"
    using find_slot_None [of "slot_waits r" "slots m"] mgr_wfD(1) [OF w] by (metis not_None_eq nth_mem)
  then have t': "t' \<le> t" "t' < 8" "slot_waits r (slots m ! t')"
    using find_slot_SomeD [OF f] t mgr_wfD(1) [OF w] by (auto simp: not_less [symmetric])
  obtain s where s: "slots m ! t' = Some s" "p_reqid s = r" "pending_wf s"
    "on_cfm r p m = m\<lparr>slots := (slots m)[t' := Some (confirmed p s)],
                       queue_sz := saturating_dec (queue_sz m)\<rparr>"
    using on_cfm_hit [OF w f] by blast
  then have "cmd_view (on_cfm r p m) = (cmd_view m)(t' \<mapsto> (r, Some (take RWNX_CMD_E2AMSG_LEN_MAX p)))"
    using cmd_view_update [of m t' "on_cfm r p m" "Some (confirmed p s)"] t'(2) mgr_wfD(1) [OF w]
    by (simp add: confirmed_view)
  with t' w show "\<exists>t'\<le>t. cmd_view m t' = Some (r, None) \<and>
      cmd_view (on_cfm r p m) = (cmd_view m)(t' \<mapsto> (r, Some (take RWNX_CMD_E2AMSG_LEN_MAX p)))"
    by (auto simp: cmd_view_waits)
next
  fix m r p
  assume w: "mgr_wf m" and n: "\<And>t. cmd_view m t \<noteq> Some (r, None)"
  then have "find_slot (slot_waits r) (slots m) = None"
    using mgr_wfD(1) [OF w] by (auto simp: find_slot_None cmd_view_waits in_set_conv_nth)
  then show "cmd_view (on_cfm r p m) = cmd_view m" by (simp add: on_cfm_miss)
qed (rule on_cfm_wf)


section \<open>Runs of the manager\<close>

text \<open>
  The states the driver's protocol reaches: a confirmation is taken only after it arrived, and
  only a command that is still waiting is timed out.
\<close>

inductive mgr_reach :: "cmd_mgr \<Rightarrow> bool" where
  init: "mgr_reach CmdMgr_new"
| push: "mgr_reach m \<Longrightarrow> mgr_reach (snd (mgr_push r m))"
| cfm: "mgr_reach m \<Longrightarrow> mgr_reach (on_cfm r p m)"
| take: "mgr_reach m \<Longrightarrow> is_done t m \<Longrightarrow> mgr_reach (snd (take_cfm t out m))"
| timeout: "mgr_reach m \<Longrightarrow> \<not> is_done t m \<Longrightarrow> mgr_reach (complete_timeout t m)"

lemma mgr_wf_new [wf_intros]: "mgr_wf CmdMgr_new"
  by (auto simp: mgr_wf_def CmdMgr_new_def CMD_MGR_MAX_PENDING_def waiting_def)

lemma mgr_reach_wf: "mgr_reach m \<Longrightarrow> mgr_wf m"
  by (induction rule: mgr_reach.induct) (auto intro: wf_intros)

text \<open>
  (C9) In every state the protocol reaches, the manager is well formed: eight slots, and
  \<open>queue_sz\<close> is exactly the number of commands still waiting for a confirmation; and \<open>push\<close>
  refuses a command exactly when the manager crashed or no slot is free.
\<close>

theorem mgr_reach_accounting:
  assumes "mgr_reach m"
  shows "mgr_wf m \<and> unat (queue_sz m) = waiting (slots m) \<and> waiting (slots m) \<le> 8 \<and>
    (fst (mgr_push r m) = None \<longleftrightarrow> mgr_state m = Crashed \<or> None \<notin> set (slots m))"
  using mgr_reach_wf [OF assms] mgr_push_None_iff [of m r] mgr_wfD [of m] waiting_le [of "slots m"]
  by auto

theorem mgr_reach_accounting_witness:
  "mgr_wf (on_cfm 5 [1, 2] (snd (mgr_push 5 CmdMgr_new))) \<and>
   waiting (slots (on_cfm 5 [1, 2] (snd (mgr_push 5 CmdMgr_new)))) \<le> 8"
  using mgr_reach_accounting [OF mgr_reach.cfm [OF mgr_reach.push [OF mgr_reach.init]], of 5 "[1, 2]" 5]
  by blast

lemma take_cfm_view:
  assumes "mgr_wf m" "cmd_view m t = Some (r, Some a)"
  shows "is_done t m" "fst (take_cfm t out m) =
      Some (min (length a) (length out), take (length out) a @ drop (length a) out)"
    "cmd_view (snd (take_cfm t out m)) = (cmd_view m)(t := None)"
proof -
  from assms(2) obtain s where t: "t < 8" "slots m ! t = Some s" "p_done s"
    and a: "a = take (p_cfm_len s) (p_cfm_data s)"
    by (auto simp: cmd_view_def CMD_MGR_MAX_PENDING_def split: if_splits)
  from t show "is_done t m" by (simp add: is_done_def CMD_MGR_MAX_PENDING_def)
  have "length a = p_cfm_len s"
    using mgr_wfD(4) [OF assms(1) t(1,2)] a by (simp add: pending_wf_def)
  with t a show "fst (take_cfm t out m) =
      Some (min (length a) (length out), take (length out) a @ drop (length a) out)"
    by (simp add: take_cfm_def CMD_MGR_MAX_PENDING_def Let_def min_def)
  have "snd (take_cfm t out m) = m\<lparr>slots := (slots m)[t := None]\<rparr>"
    using t by (simp add: take_cfm_def CMD_MGR_MAX_PENDING_def Let_def)
  then show "cmd_view (snd (take_cfm t out m)) = (cmd_view m)(t := None)"
    using cmd_view_update [of m t _ None] t(1) mgr_wfD(1) [OF assms(1)] by simp
qed

text \<open>
  (C3) A command and its confirmation meet: push a command while no other command waits for the
  same id, let confirmations of other ids arrive, then its own, then any others. The token is
  not done before its own confirmation and done after it; \<open>take_cfm\<close> returns exactly the bytes
  of that confirmation (cut to 256 and to the caller's buffer), frees the slot and changes
  no other command.
\<close>

theorem cmd_exchange:
  fixes before after :: "(u16 \<times> byte list) list"
  assumes "mgr_wf m" and "mgr_push r m = (Some t, m0)"
    and "\<forall>t'. cmd_view m t' \<noteq> Some (r, None)" and "r \<notin> fst ` set before"
  shows "let run = fold (\<lambda>(i, p). on_cfm i p);
             m1 = run before m0; m2 = run (before @ (r, p) # after) m0; a = take 256 p
         in \<not> is_done t m1 \<and> is_done t m2 \<and> mgr_wf (snd (take_cfm t out m2)) \<and>
            fst (take_cfm t out m2) =
              Some (min (length a) (length out), take (length out) a @ drop (length a) out) \<and>
            cmd_view (snd (take_cfm t out m2)) = (cmd_view m2)(t := None)"
proof -
  have ex: "cmd_view (rwnx.cfms before m0) t = Some (r, None)"
    "cmd_view (rwnx.cfms (before @ (r, p) # after) m0) t = Some (r, Some (take 256 p))"
    using rwnx.exchange [OF assms(1,2) _ assms(4), of p after] assms(3)
    by (auto simp: RWNX_CMD_E2AMSG_LEN_MAX_def)
  have wf: "mgr_wf (rwnx.cfms (before @ (r, p) # after) m0)"
    using rwnx.cfms_wf rwnx.push_view [OF assms(1,2)] by blast
  from ex(1) have "\<not> is_done t (rwnx.cfms before m0)"
    by (auto simp: cmd_view_def is_done_def split: if_splits option.splits)
  with take_cfm_view [OF wf ex(2)] take_cfm_wf [OF wf] show ?thesis
    unfolding Let_def rwnx.cfms_def by blast
qed

theorem cmd_exchange_witness:
  "fst (take_cfm 0 [0, 0, 0] (on_cfm 7 [9, 8] (snd (mgr_push 7 CmdMgr_new)))) = Some (2, [9, 8, 0])"
proof -
  have "mgr_push 7 CmdMgr_new = (Some 0, snd (mgr_push 7 CmdMgr_new))"
    by (simp add: mgr_push_def CmdMgr_new_def CMD_MGR_MAX_PENDING_def find_slot_replicate)
  moreover have "\<forall>t. cmd_view CmdMgr_new t \<noteq> Some (7, None)"
    by (auto simp: cmd_view_def CmdMgr_new_def CMD_MGR_MAX_PENDING_def)
  ultimately show ?thesis
    using cmd_exchange [OF mgr_wf_new, of 7 0 _ "[]" "[9, 8]" "[]" "[0, 0, 0]"] by (simp add: Let_def)
qed


section \<open>Waiting for a confirmation\<close>

text \<open>One millisecond of \<open>wait_done\<close>: poll, then the tick when due, then the idle wait.\<close>

definition wait_round ::
  "(cmd_mgr \<times> 'w \<Rightarrow> cmd_mgr \<times> 'w) \<Rightarrow> (u32 \<Rightarrow> 'w \<Rightarrow> 'w) option \<Rightarrow> ('w \<Rightarrow> 'w) \<Rightarrow> nat
   \<Rightarrow> cmd_mgr \<times> 'w \<Rightarrow> cmd_mgr \<times> 'w" where
  "wait_round poll tick idle j s =
     (let (m1, w1) = poll s
      in (m1, idle (if 0 < j \<and> j mod TICK_EVERY_MS = 0
                    then (case tick of None \<Rightarrow> w1 | Some t \<Rightarrow> t (of_nat j) w1) else w1)))"

fun wait_from ::
  "(cmd_mgr \<times> 'w \<Rightarrow> cmd_mgr \<times> 'w) \<Rightarrow> (u32 \<Rightarrow> 'w \<Rightarrow> 'w) option \<Rightarrow> ('w \<Rightarrow> 'w) \<Rightarrow> nat \<Rightarrow> nat
   \<Rightarrow> cmd_mgr \<times> 'w \<Rightarrow> cmd_mgr \<times> 'w" where
  "wait_from poll tick idle j 0 s = s"
| "wait_from poll tick idle j (Suc k) s =
     wait_from poll tick idle (Suc j) k (wait_round poll tick idle j s)"

definition done_in_round :: "nat \<Rightarrow> (cmd_mgr \<times> 'w \<Rightarrow> cmd_mgr \<times> 'w) \<Rightarrow> cmd_mgr \<times> 'w \<Rightarrow> bool" where
  "done_in_round token poll s \<longleftrightarrow> is_done token (fst s) \<or> is_done token (fst (poll s))"

lemma ex_less_shift: "(\<exists>k::nat. k < n \<and> P k) \<longleftrightarrow> 0 < n \<and> (P 0 \<or> (\<exists>k. Suc k < n \<and> P (Suc k)))"
  by (metis gr0_implies_Suc less_trans_Suc not_less_zero zero_less_Suc less_nat_zero_code
      neq0_conv)

lemma wait_done_loop_result:
  "let r = wait_done_loop token timeout_ms poll tick idle waited_ms s
   in (fst r = (if \<exists>k. k < unat timeout_ms - unat waited_ms \<and>
                    done_in_round token poll (wait_from poll tick idle (unat waited_ms) k s)
               then ok () else err (-62))) \<and>
      (fst r = err (-62) \<or> is_done token (fst (snd r)))"
proof (induction token timeout_ms poll tick idle waited_ms s rule: wait_done_loop.induct)
  case (1 token timeout_ms poll tick idle waited_ms m w)
  show ?case
  proof (cases "waited_ms < timeout_ms \<and> \<not> done_in_round token poll (m, w)")
    case False
    then show ?thesis
      unfolding Let_def ex_less_shift [of "unat timeout_ms - unat waited_ms"]
      by (auto simp: done_in_round_def word_less_nat_alt wait_done_loop.simps [of _ _ _ _ _ _ m w]
          split: prod.splits)
  next
    case True
    then have lt: "waited_ms < timeout_ms" and nd: "\<not> is_done token m" "\<not> is_done token (fst (poll (m, w)))"
      by (auto simp: done_in_round_def)
    obtain m1 w1 where p: "poll (m, w) = (m1, w1)" by fastforce
    have rnd: "wait_round poll tick idle (unat waited_ms) (m, w) =
        (m1, idle (if 0 < waited_ms \<and> unat waited_ms mod TICK_EVERY_MS = 0
                   then (case tick of None \<Rightarrow> w1 | Some t \<Rightarrow> t waited_ms w1) else w1))"
      using p by (simp add: wait_round_def word_less_nat_alt split: option.split)
    have step: "wait_done_loop token timeout_ms poll tick idle waited_ms (m, w) =
        wait_done_loop token timeout_ms poll tick idle (waited_ms + 1)
          (wait_round poll tick idle (unat waited_ms) (m, w))"
      unfolding rnd using lt nd p by (subst wait_done_loop.simps) (simp add: Let_def)
    have "\<not> is_done token m1" using nd(2) p by simp
    note ih = 1 [OF lt nd(1) p [symmetric] refl this refl, folded rnd]
    have "Suc k < unat timeout_ms - unat waited_ms \<longleftrightarrow> k < unat timeout_ms - Suc (unat waited_ms)"
      for k by linarith
    then show ?thesis
      using ih True word_less_nat_alt [of waited_ms timeout_ms]
      unfolding step Let_def ex_less_shift [of "unat timeout_ms - unat waited_ms"]
        word_succ_less(1) [OF lt] by simp (metis sum.distinct(1))
  qed
qed

text \<open>
  (C38) \<open>wait_done\<close> always returns, and returns \<open>Ok\<close> exactly when the token is done before or
  after the poll of one of its \<open>timeout_ms\<close> rounds, otherwise \<open>Err(-62)\<close>; when it returns
  \<open>Ok\<close> the token is done in the state it leaves.
\<close>

theorem wait_done_result:
  "let r = wait_done token timeout_ms poll tick idle s
   in (fst r = (if \<exists>k. k < unat timeout_ms \<and>
                    done_in_round token poll (wait_from poll tick idle 0 k s)
               then ok () else err (-62))) \<and>
      (fst r = err (-62) \<or> is_done token (fst (snd r)))"
  using wait_done_loop_result [of token timeout_ms poll tick idle 0 s] by (simp add: wait_done_def)


section \<open>Message layout\<close>

definition header_bytes :: "lmac_msg_header \<Rightarrow> byte list" where
  "header_bytes h = le16 (h_id h) @ le16 (h_dest_id h) @ le16 (h_src_id h) @ le16 (h_param_len h)"

lemma length_header_bytes [simp]: "length (header_bytes h) = 8"
  by (simp add: header_bytes_def)

lemma drop_plus: "drop (numeral k + n) xs = drop n (drop (numeral k) xs)"
  by (simp add: add.commute)

lemma copy_param_append:
  assumes "length pre = off" "plen \<le> length param"
  shows "copy_param off plen param (pre @ rest) =
     ok (pre @ (if plen \<le> length rest then take plen param @ drop plen rest else rest))"
  using assms by (auto simp: copy_param_def slice_get_def slice_set_def)

lemma split8:
  assumes "8 \<le> length buf"
  obtains x0 x1 x2 x3 x4 x5 x6 x7 rest where "buf = x0 # x1 # x2 # x3 # x4 # x5 # x6 # x7 # rest"
proof -
  have "\<exists>x0 x1 x2 x3 x4 x5 x6 x7 rest. buf = x0 # x1 # x2 # x3 # x4 # x5 # x6 # x7 # rest"
    using assms by (auto simp: numeral_eq_Suc Suc_le_length_iff)
  then show ?thesis using that by blast
qed

lemma serialize_layout:
  assumes "8 \<le> length buf" "unat (h_param_len (m_header msg)) \<le> length (m_param msg)"
  defines "plen \<equiv> unat (h_param_len (m_header msg))"
  shows "serialize msg buf =
     ok (8 + plen, header_bytes (m_header msg) @
           (if 8 + plen \<le> length buf then take plen (m_param msg) @ drop (8 + plen) buf
            else drop 8 buf))"
proof -
  obtain x0 x1 x2 x3 x4 x5 x6 x7 rest where buf: "buf = x0 # x1 # x2 # x3 # x4 # x5 # x6 # x7 # rest"
    using assms(1) by (rule split8)
  show ?thesis
    using assms(2) unfolding buf plen_def
    by (simp add: serialize_def Let_def slice_set_def slice_get_def copy_param_def header_bytes_def
        le16_def drop_plus del: drop_drop)
qed

text \<open>
  The 16-byte frame header of the 8801 path: a 12-bit length (payload and four), the type
  byte, five zero bytes, then the message header.
\<close>

definition frame_8801_head :: "u32 \<Rightarrow> byte list" where
  "frame_8801_head n = [ucast (n AND 0xff), ucast (drop_bit 8 n AND 0x0f), 0x11, 0, 0, 0, 0, 0]"

lemma serialize_8801_layout:
  assumes "16 \<le> length buf" "unat (h_param_len (m_header msg)) \<le> length (m_param msg)"
    "unat (h_param_len (m_header msg)) < 65528"
  defines "plen \<equiv> unat (h_param_len (m_header msg))"
  shows "serialize_8801 msg buf =
     ok (16 + plen, frame_8801_head (of_nat (plen + 12)) @ header_bytes (m_header msg) @
           (if 16 + plen \<le> length buf then take plen (m_param msg) @ drop (16 + plen) buf
            else drop 16 buf))"
proof -
  obtain x0 x1 x2 x3 x4 x5 x6 x7 rest0 where buf0: "buf = x0 # x1 # x2 # x3 # x4 # x5 # x6 # x7 # rest0"
    using split8 [of buf] assms(1) by force
  with assms(1) have "8 \<le> length rest0" by simp
  then obtain y0 y1 y2 y3 y4 y5 y6 y7 rest where rest: "rest0 = y0 # y1 # y2 # y3 # y4 # y5 # y6 # y7 # rest"
    by (rule split8)
  note buf = buf0 [unfolded rest]
  have "add_checked 8 (h_param_len (m_header msg)) = ok (8 + h_param_len (m_header msg))"
    using assms(3) by (simp add: add_checked_def)
  moreover have "(ucast (8 + h_param_len (m_header msg)) :: u32) + 4 = of_nat (plen + 12)"
  proof -
    have "unat (8 + h_param_len (m_header msg)) = plen + 8"
      using assms(3) unfolding plen_def by (simp add: unat_word_ariths)
    then have "(ucast (8 + h_param_len (m_header msg)) :: u32) = of_nat (plen + 8)"
      by (metis of_nat_unat)
    then show ?thesis by simp
  qed
  ultimately have "serialize_8801 msg buf =
     (let n = of_nat (plen + 12); h = m_header msg in
      bind_res (copy_param 16 plen (m_param msg)
        (frame_8801_head n @ header_bytes h @ drop 16 buf)) (\<lambda>b. ok (16 + plen, b)))"
    unfolding buf
    by (simp add: serialize_8801_def Let_def slice_set_def header_bytes_def frame_8801_head_def
        le16_def plen_def del: of_nat_add)
  then show ?thesis
    using assms(1,2) copy_param_append [of "frame_8801_head (of_nat (plen + 12)) @ header_bytes (m_header msg)"
        16 plen "m_param msg" "drop 16 buf"]
    by (simp add: Let_def plen_def frame_8801_head_def le_diff_conv2 add.commute)
qed

lemma length_field_12bit:
  assumes "n < 4096"
  shows "unat (ucast ((of_nat n :: u32) AND 0xff) :: byte) +
    256 * unat (ucast (drop_bit 8 (of_nat n :: u32) AND 0x0f) :: byte) = n"
proof -
  have u: "unat (of_nat n :: u32) = n" using assms by (simp add: unat_of_nat take_bit_nat_eq_self)
  have m: "(0xff :: u32) = mask 8" "(0x0f :: u32) = mask 4" by (simp_all add: mask_eq_exp_minus_1)
  have "unat (ucast ((of_nat n :: u32) AND 0xff) :: byte) = n mod 256"
    unfolding m by (simp add: unsigned_ucast_eq unsigned_take_bit_eq u flip: take_bit_eq_mask)
      (simp add: take_bit_eq_mod)
  moreover have "unat (ucast (drop_bit 8 (of_nat n :: u32) AND 0x0f) :: byte) = n div 256 mod 16"
    unfolding m by (simp add: unsigned_ucast_eq unsigned_take_bit_eq unsigned_drop_bit_eq u
        flip: take_bit_eq_mask) (use assms in \<open>simp add: take_bit_eq_mod drop_bit_eq_div\<close>)
  ultimately show ?thesis using assms by simp
qed

text \<open>
  \<open>serialize_8801\<close> on a message whose parameters fit its buffer (at most 1032 bytes): the
  frame header carries the payload length plus four, the header fields decode to the
  message's id, destination, source and length, the parameters follow, the returned length is
  the frame's, and the rest of the caller's buffer is untouched.
\<close>

theorem serialize_8801_frame:
  assumes "length (m_param msg) = LMAC_MSG_MAX_LEN" "unat (h_param_len (m_header msg)) \<le> LMAC_MSG_MAX_LEN"
    "16 + unat (h_param_len (m_header msg)) \<le> length buf"
  shows "\<exists>out. let h = m_header msg; plen = unat (h_param_len h) in
     serialize_8801 msg buf = ok (16 + plen, out) \<and> length out = length buf \<and>
     unat (out ! 0) + 256 * unat (out ! 1) = 8 + plen + 4 \<and> out ! 2 = 0x11 \<and>
     decode_le16 (take 2 (drop 8 out)) = Some (h_id h) \<and>
     decode_le16 (take 2 (drop 10 out)) = Some (h_dest_id h) \<and>
     decode_le16 (take 2 (drop 12 out)) = Some (h_src_id h) \<and>
     decode_le16 (take 2 (drop 14 out)) = Some (h_param_len h) \<and>
     take plen (drop 16 out) = take plen (m_param msg) \<and> drop (16 + plen) out = drop (16 + plen) buf"
proof -
  define plen where "plen = unat (h_param_len (m_header msg))"
  define out where "out = frame_8801_head (of_nat (plen + 12)) @ header_bytes (m_header msg) @
    take plen (m_param msg) @ drop (16 + plen) buf"
  have s: "serialize_8801 msg buf = ok (16 + plen, out)"
    using serialize_8801_layout [of buf msg] assms by (simp add: plen_def out_def LMAC_MSG_MAX_LEN_def)
  have "unat (out ! 0) + 256 * unat (out ! 1) = 8 + plen + 4"
    using length_field_12bit [of "plen + 12"] assms(2)
    by (simp add: out_def frame_8801_head_def plen_def LMAC_MSG_MAX_LEN_def)
  moreover have "out ! 2 = 0x11" "length out = length buf"
    using assms by (simp_all add: out_def frame_8801_head_def plen_def LMAC_MSG_MAX_LEN_def)
  moreover have "take plen (drop 16 out) = take plen (m_param msg)" "drop (16 + plen) out = drop (16 + plen) buf"
    using assms by (simp_all add: out_def frame_8801_head_def plen_def drop_plus)
  moreover have "drop 8 out = header_bytes (m_header msg) @ take plen (m_param msg) @ drop (16 + plen) buf"
    by (simp add: out_def frame_8801_head_def)
  ultimately show ?thesis
    using s unfolding Let_def plen_def [symmetric]
    by (intro exI [of _ out]) (simp add: out_def frame_8801_head_def header_bytes_def le16_def from_le16_le16)
qed

theorem serialize_8801_frame_witness:
  "\<exists>out. serialize_8801 (LmacMsg_new 0x400 1 100 4) (replicate 24 0) = ok (20, out)"
  using serialize_8801_frame [of "LmacMsg_new 0x400 1 100 4" "replicate 24 0"]
  by (auto simp: LmacMsg_new_def LMAC_MSG_MAX_LEN_def Let_def)

end
