(* ===== verification/Bsp_Types.thy ===== *)
theory Bsp_Types
  imports Prelude
begin

text \<open>
  Product ids, SDIO ids and register offsets (\<open>driver/bsp/src/sdio/types.rs\<close>) and the
  recognition of a card by its vendor and device id (\<open>types.rs::chipmatch\<close>,
  \<open>chip_ident.rs::is_known_aic_sdio\<close>, \<open>cis.rs::product_id_to_vid_did\<close>).
\<close>

section \<open>Ids and registers\<close>

definition VENDOR_AIC8801 :: u16 where "VENDOR_AIC8801 = 0x5449"
definition DEVICE_AIC8801 :: u16 where "DEVICE_AIC8801 = 0x0145"
definition DEVICE_AIC8801_FUNC2 :: u16 where "DEVICE_AIC8801_FUNC2 = 0x0146"
definition VENDOR_AIC8800DC :: u16 where "VENDOR_AIC8800DC = 0xc8a1"
definition DEVICE_AIC8800DC :: u16 where "DEVICE_AIC8800DC = 0xc08d"
definition VENDOR_AIC8800D80 :: u16 where "VENDOR_AIC8800D80 = 0xc8a1"
definition DEVICE_AIC8800D80 :: u16 where "DEVICE_AIC8800D80 = 0x0082"
definition DEVICE_AIC8800D80_FUNC2 :: u16 where "DEVICE_AIC8800D80_FUNC2 = 0x0182"
definition VENDOR_AIC8800D80X2 :: u16 where "VENDOR_AIC8800D80X2 = 0xc8a1"
definition DEVICE_AIC8800D80X2 :: u16 where "DEVICE_AIC8800D80X2 = 0x2082"

lemmas sdio_ids_defs =
  VENDOR_AIC8801_def DEVICE_AIC8801_def DEVICE_AIC8801_FUNC2_def VENDOR_AIC8800DC_def
  DEVICE_AIC8800DC_def VENDOR_AIC8800D80_def DEVICE_AIC8800D80_def DEVICE_AIC8800D80_FUNC2_def
  VENDOR_AIC8800D80X2_def DEVICE_AIC8800D80X2_def

text \<open>Register offsets of the V1/V2 layout and the FIFO addresses of the V3 layout.\<close>

definition REG_BYTEMODE_LEN :: u8 where "REG_BYTEMODE_LEN = 0x02"
definition REG_INTR_CONFIG :: u8 where "REG_INTR_CONFIG = 0x04"
definition REG_FLOW_CTRL :: u8 where "REG_FLOW_CTRL = 0x0A"
definition REG_REGISTER_BLOCK :: u8 where "REG_REGISTER_BLOCK = 0x0B"
definition REG_BYTEMODE_ENABLE :: u8 where "REG_BYTEMODE_ENABLE = 0x11"
definition REG_BLOCK_CNT :: u8 where "REG_BLOCK_CNT = 0x12"
definition REG_FLOWCTRL_MASK :: u8 where "REG_FLOWCTRL_MASK = 0x7F"
definition REG_WR_FIFO_ADDR :: u8 where "REG_WR_FIFO_ADDR = 0x07"
definition REG_RD_FIFO_ADDR :: u8 where "REG_RD_FIFO_ADDR = 0x08"
definition REG_V3_RD_FIFO_ADDR :: u8 where "REG_V3_RD_FIFO_ADDR = 0x0F"
definition REG_V3_WR_FIFO_ADDR :: u8 where "REG_V3_WR_FIFO_ADDR = 0x10"

lemmas reg_defs =
  REG_BYTEMODE_LEN_def REG_INTR_CONFIG_def REG_FLOW_CTRL_def REG_REGISTER_BLOCK_def
  REG_BYTEMODE_ENABLE_def REG_BLOCK_CNT_def REG_FLOWCTRL_MASK_def REG_WR_FIFO_ADDR_def
  REG_RD_FIFO_ADDR_def REG_V3_RD_FIFO_ADDR_def REG_V3_WR_FIFO_ADDR_def

datatype product_id = Aic8801 | Aic8800Dc | Aic8800Dw | Aic8800D80 | Aic8800D80X2

fun product_repr :: "product_id \<Rightarrow> u32" where
  "product_repr Aic8801 = 0" | "product_repr Aic8800Dc = 1" | "product_repr Aic8800Dw = 2"
| "product_repr Aic8800D80 = 3" | "product_repr Aic8800D80X2 = 4"

section \<open>Recognition\<close>

definition chipmatch :: "u16 \<Rightarrow> u16 \<Rightarrow> product_id option" where
  "chipmatch vid did =
     (if vid = VENDOR_AIC8801 \<and> (did = DEVICE_AIC8801 \<or> did = DEVICE_AIC8801_FUNC2) then Some Aic8801
      else if vid = VENDOR_AIC8800DC \<and> did = DEVICE_AIC8800DC then Some Aic8800Dc
      else if vid = VENDOR_AIC8800D80 \<and> (did = DEVICE_AIC8800D80 \<or> did = DEVICE_AIC8800D80_FUNC2)
      then Some Aic8800D80
      else if vid = VENDOR_AIC8800D80X2 \<and> did = DEVICE_AIC8800D80X2 then Some Aic8800D80X2
      else None)"

definition is_known_aic_sdio :: "u16 \<Rightarrow> u16 \<Rightarrow> bool" where
  "is_known_aic_sdio vid did =
     (if vid = VENDOR_AIC8801 \<and> (did = DEVICE_AIC8801 \<or> did = DEVICE_AIC8801_FUNC2) then True
      else if vid = VENDOR_AIC8800DC \<and> did = DEVICE_AIC8800DC then True
      else if vid = VENDOR_AIC8800D80 \<and> (did = DEVICE_AIC8800D80 \<or> did = DEVICE_AIC8800D80_FUNC2)
      then True
      else if vid = VENDOR_AIC8800D80X2 \<and> did = DEVICE_AIC8800D80X2 then True
      else False)"

definition aicwf_sdio_chipmatch :: "u16 \<Rightarrow> u16 \<Rightarrow> product_id option" where
  "aicwf_sdio_chipmatch vid did = chipmatch vid did"

fun product_id_to_vid_did :: "product_id \<Rightarrow> u16 \<times> u16" where
  "product_id_to_vid_did Aic8801 = (VENDOR_AIC8801, DEVICE_AIC8801)"
| "product_id_to_vid_did Aic8800Dc = (VENDOR_AIC8800DC, DEVICE_AIC8800DC)"
| "product_id_to_vid_did Aic8800Dw = (VENDOR_AIC8800DC, DEVICE_AIC8800DC)"
| "product_id_to_vid_did Aic8800D80 = (VENDOR_AIC8800D80, DEVICE_AIC8800D80)"
| "product_id_to_vid_did Aic8800D80X2 = (VENDOR_AIC8800D80X2, DEVICE_AIC8800D80X2)"

text \<open>The pre-check and the match accept the same cards.\<close>

lemma if_chain_defined:
  "(if a then True else if b then True else if c then True else if d then True else False) \<longleftrightarrow>
   (if a then Some w else if b then Some x else if c then Some y else if d then Some z else None) \<noteq> None"
  by simp

lemma known_iff_chipmatch: "is_known_aic_sdio vid did \<longleftrightarrow> chipmatch vid did \<noteq> None"
  unfolding is_known_aic_sdio_def chipmatch_def by (rule if_chain_defined)

lemma chipmatch_not_dw: "chipmatch vid did \<noteq> Some Aic8800Dw"
  by (simp only: chipmatch_def split: if_split) simp

text \<open>
  Recognition: the pre-check accepts exactly the cards that \<open>chipmatch\<close> names; matching the
  ids of a product gives the product back, except that the 8800DW, which shares the ids of the
  8800DC, is recognised as 8800DC.
\<close>

theorem chipmatch_roundtrip:
  "(is_known_aic_sdio vid did \<longleftrightarrow> (\<exists>p. aicwf_sdio_chipmatch vid did = Some p)) \<and>
   (case product_id_to_vid_did pid of (v, d) \<Rightarrow>
      aicwf_sdio_chipmatch v d = Some (if pid = Aic8800Dw then Aic8800Dc else pid)) \<and>
   aicwf_sdio_chipmatch vid did \<noteq> Some Aic8800Dw"
proof -
  have "case product_id_to_vid_did pid of (v, d) \<Rightarrow>
      chipmatch v d = Some (if pid = Aic8800Dw then Aic8800Dc else pid)"
    by (cases pid) (simp_all add: chipmatch_def sdio_ids_defs)
  then show ?thesis
    by (simp add: aicwf_sdio_chipmatch_def known_iff_chipmatch chipmatch_not_dw)
qed

end
