(* ===== verification/Sdio_Ops.thy ===== *)
theory Sdio_Ops
  imports Bsp_Types
begin

text \<open>
  The SDIO device interface (\<open>driver/bsp/src/sdio/ops.rs\<close>): the trait \<open>SdioOps\<close> with its
  default methods, \<open>CisReadOps\<close>, and \<open>Aic8800Sdio\<close> with its receive path, its send path and the
  flow control of the 8801. The methods of the host controller are the fields of \<open>sdio_host\<close>;
  \<open>Backend\<close> defines the CMD52 ones. A read into a slice gets the old contents of the slice and
  returns the new ones.
\<close>

section \<open>Interfaces\<close>

record 'w sdio_host =
  host_read_byte :: "u32 \<Rightarrow> ('w, byte) io"
  host_write_byte :: "u32 \<Rightarrow> byte \<Rightarrow> ('w, unit) io"
  host_read_byte_f0 :: "u32 \<Rightarrow> ('w, byte) io"
  host_read_byte_at_func :: "u8 \<Rightarrow> u32 \<Rightarrow> ('w, byte) io"
  host_write_byte_at_func :: "u8 \<Rightarrow> u32 \<Rightarrow> byte \<Rightarrow> ('w, unit) io"
  host_read_block :: "u32 \<Rightarrow> byte list \<Rightarrow> 'w \<Rightarrow> nat result \<times> byte list \<times> 'w"
  host_write_block :: "u32 \<Rightarrow> byte list \<Rightarrow> ('w, nat) io"
  host_delay_us :: "nat \<Rightarrow> 'w \<Rightarrow> 'w"

record 'w sdio_ops =
  ops_writeb :: "u32 \<Rightarrow> byte \<Rightarrow> ('w, unit) io"
  ops_readb :: "u32 \<Rightarrow> ('w, byte) io"
  ops_readb_func2 :: "u32 \<Rightarrow> ('w, byte) io"
  ops_writeb_func2 :: "u32 \<Rightarrow> byte \<Rightarrow> ('w, unit) io"
  ops_read_byte :: "u32 \<Rightarrow> ('w, byte) io"
  ops_read_byte_f0 :: "u32 \<Rightarrow> ('w, byte) io"
  ops_read_byte_at_func :: "u8 \<Rightarrow> u32 \<Rightarrow> ('w, byte) io"
  ops_write_byte :: "u32 \<Rightarrow> byte \<Rightarrow> ('w, unit) io"
  ops_recv_pkt :: "byte list \<Rightarrow> u32 \<Rightarrow> u8 \<Rightarrow> 'w \<Rightarrow> nat result \<times> byte list \<times> 'w"
  ops_send_pkt :: "byte list \<Rightarrow> nat \<Rightarrow> ('w, nat) io"
  ops_send_msg :: "byte list \<Rightarrow> nat \<Rightarrow> ('w, nat) io"
  ops_read_block :: "u32 \<Rightarrow> byte list \<Rightarrow> 'w \<Rightarrow> nat result \<times> byte list \<times> 'w"
  ops_write_block :: "u32 \<Rightarrow> byte list \<Rightarrow> ('w, nat) io"

section \<open>Default methods\<close>

definition trait_readb_func2 :: "u32 \<Rightarrow> ('w, byte) io" where
  "trait_readb_func2 regaddr = io_fail (Errno (-19))"

definition trait_writeb_func2 :: "u32 \<Rightarrow> byte \<Rightarrow> ('w, unit) io" where
  "trait_writeb_func2 regaddr val = io_fail (Errno (-19))"

definition trait_read_byte ::
  "(u32 \<Rightarrow> ('w, byte) io) \<Rightarrow> (u32 \<Rightarrow> ('w, byte) io) \<Rightarrow> u32 \<Rightarrow> ('w, byte) io" where
  "trait_read_byte readb readb_func2 addr =
     (let func = drop_bit 8 addr AND 7; off = addr AND 0xFF in
      if func = 1 then readb off else if func = 2 then readb_func2 off else io_fail (Errno (-22)))"

definition trait_write_byte ::
  "(u32 \<Rightarrow> byte \<Rightarrow> ('w, unit) io) \<Rightarrow> (u32 \<Rightarrow> byte \<Rightarrow> ('w, unit) io) \<Rightarrow> u32 \<Rightarrow> byte \<Rightarrow> ('w, unit) io" where
  "trait_write_byte writeb writeb_func2 addr val =
     (let func = drop_bit 8 addr AND 7; off = addr AND 0xFF in
      if func = 1 then writeb off val else if func = 2 then writeb_func2 off val
      else io_fail (Errno (-22)))"

definition trait_read_byte_at_func :: "u8 \<Rightarrow> u32 \<Rightarrow> ('w, byte) io" where
  "trait_read_byte_at_func func_num reg_addr = io_fail (Errno (-22))"

definition trait_send_msg :: "byte list \<Rightarrow> nat \<Rightarrow> ('w, nat) io" where
  "trait_send_msg buf count = io_fail (Errno (-19))"

text \<open>\<open>for (i, b) in buf.iter_mut().enumerate() { *b = self.read_byte(addr.wrapping_add(i))?; }\<close>\<close>

fun read_bytes :: "(u32 \<Rightarrow> ('w, byte) io) \<Rightarrow> u32 \<Rightarrow> byte list \<Rightarrow> 'w \<Rightarrow> unit result \<times> byte list \<times> 'w" where
  "read_bytes rd addr [] w = (ok (), [], w)"
| "read_bytes rd addr (b # bs) w =
     (case rd addr w of
        (Inl e, w') \<Rightarrow> (Inl e, b # bs, w')
      | (Inr x, w') \<Rightarrow> (case read_bytes rd (addr + 1) bs w' of (r, bs', w'') \<Rightarrow> (r, x # bs', w'')))"

definition trait_read_block ::
  "(u32 \<Rightarrow> ('w, byte) io) \<Rightarrow> u32 \<Rightarrow> byte list \<Rightarrow> 'w \<Rightarrow> nat result \<times> byte list \<times> 'w" where
  "trait_read_block read_byte addr buf w =
     (case read_bytes read_byte addr buf w of
        (Inl e, buf', w') \<Rightarrow> (Inl e, buf', w')
      | (Inr _, buf', w') \<Rightarrow> (ok (length buf), buf', w'))"

fun write_bytes :: "(u32 \<Rightarrow> byte \<Rightarrow> ('w, unit) io) \<Rightarrow> u32 \<Rightarrow> byte list \<Rightarrow> ('w, unit) io" where
  "write_bytes wr addr [] = io_return ()"
| "write_bytes wr addr (b # bs) = io_bind (wr addr b) (\<lambda>_. write_bytes wr (addr + 1) bs)"

definition trait_write_block ::
  "(u32 \<Rightarrow> byte \<Rightarrow> ('w, unit) io) \<Rightarrow> u32 \<Rightarrow> byte list \<Rightarrow> ('w, nat) io" where
  "trait_write_block write_byte addr buf =
     io_bind (write_bytes write_byte addr buf) (\<lambda>_. io_return (length buf))"

section \<open>Reading the CIS\<close>

definition FUNC1_BASE :: u32 where "FUNC1_BASE = 0x100"
definition FUNC2_BASE :: u32 where "FUNC2_BASE = 0x200"
definition FUNC2_MSG_ADDR_OFFSET :: u32 where "FUNC2_MSG_ADDR_OFFSET = 7"
definition FLOW_CTRL_RETRY_COUNT :: nat where "FLOW_CTRL_RETRY_COUNT = 50"
definition BUFFER_SIZE :: nat where "BUFFER_SIZE = 1536"

definition host_readb_base :: "'w sdio_host \<Rightarrow> u32 \<Rightarrow> u32 \<Rightarrow> ('w, byte) io" where
  "host_readb_base h base regaddr = io_bind (io_lift (add_checked base regaddr)) (host_read_byte h)"

definition host_writeb_base :: "'w sdio_host \<Rightarrow> u32 \<Rightarrow> u32 \<Rightarrow> byte \<Rightarrow> ('w, unit) io" where
  "host_writeb_base h base regaddr val =
     io_bind (io_lift (add_checked base regaddr)) (\<lambda>a. host_write_byte h a val)"

definition CisReadOps :: "'w sdio_host \<Rightarrow> 'w sdio_ops" where
  "CisReadOps h =
     \<lparr>ops_writeb = host_writeb_base h FUNC1_BASE, ops_readb = host_readb_base h FUNC1_BASE,
      ops_readb_func2 = host_readb_base h FUNC2_BASE, ops_writeb_func2 = host_writeb_base h FUNC2_BASE,
      ops_read_byte = host_read_byte h, ops_read_byte_f0 = host_read_byte_f0 h,
      ops_read_byte_at_func = host_read_byte_at_func h, ops_write_byte = host_write_byte h,
      ops_recv_pkt = (\<lambda>buf sz msg w. (err (-19), buf, w)),
      ops_send_pkt = (\<lambda>buf count. io_fail (Errno (-19))),
      ops_send_msg = trait_send_msg,
      ops_read_block = trait_read_block (host_read_byte h),
      ops_write_block = trait_write_block (host_write_byte h)\<rparr>"

section \<open>The device\<close>

record aic8800_sdio =
  sd_product_id :: product_id
  sd_wr_fifo_offset :: u8
  sd_rd_fifo_offset :: u8

definition Aic8800Sdio_new :: "product_id \<Rightarrow> aic8800_sdio" where
  "Aic8800Sdio_new chipid =
     (let (wr, rd) = (case chipid of
            Aic8800D80 \<Rightarrow> (REG_V3_WR_FIFO_ADDR, REG_V3_RD_FIFO_ADDR)
          | Aic8800D80X2 \<Rightarrow> (REG_V3_WR_FIFO_ADDR, REG_V3_RD_FIFO_ADDR)
          | _ \<Rightarrow> (REG_WR_FIFO_ADDR, REG_RD_FIFO_ADDR))
      in \<lparr>sd_product_id = chipid, sd_wr_fifo_offset = wr, sd_rd_fifo_offset = rd\<rparr>)"

definition Aic8800Sdio_new_v1_v2 :: aic8800_sdio where
  "Aic8800Sdio_new_v1_v2 = \<lparr>sd_product_id = Aic8800Dc, sd_wr_fifo_offset = REG_WR_FIFO_ADDR,
     sd_rd_fifo_offset = REG_RD_FIFO_ADDR\<rparr>"

definition Aic8800Sdio_new_v3 :: aic8800_sdio where
  "Aic8800Sdio_new_v3 = \<lparr>sd_product_id = Aic8800D80, sd_wr_fifo_offset = REG_V3_WR_FIFO_ADDR,
     sd_rd_fifo_offset = REG_V3_RD_FIFO_ADDR\<rparr>"

definition Aic8800Sdio_new_with_reg :: "u8 \<Rightarrow> u8 \<Rightarrow> aic8800_sdio" where
  "Aic8800Sdio_new_with_reg wr rd = \<lparr>sd_product_id = Aic8800Dc, sd_wr_fifo_offset = wr,
     sd_rd_fifo_offset = rd\<rparr>"

definition sd_read_byte :: "'w sdio_host \<Rightarrow> u32 \<Rightarrow> ('w, byte) io" where
  "sd_read_byte h addr =
     (if 0x100 \<le> addr \<and> addr < 0x200 then host_read_byte_at_func h 1 (addr AND 0xFF)
      else if 0x200 \<le> addr \<and> addr < 0x300 then host_read_byte_at_func h 2 (addr AND 0xFF)
      else host_read_byte h addr)"

definition sd_write_byte :: "'w sdio_host \<Rightarrow> u32 \<Rightarrow> byte \<Rightarrow> ('w, unit) io" where
  "sd_write_byte h addr val =
     (if 0x100 \<le> addr \<and> addr < 0x200 then host_write_byte_at_func h 1 (addr AND 0xFF) val
      else if 0x200 \<le> addr \<and> addr < 0x300 then host_write_byte_at_func h 2 (addr AND 0xFF) val
      else host_write_byte h addr val)"

text \<open>\<open>self.host.read_block(base, &mut buf[..n])\<close> for \<open>n <= buf.len()\<close>.\<close>

definition read_prefix ::
  "'w sdio_host \<Rightarrow> u32 \<Rightarrow> nat \<Rightarrow> byte list \<Rightarrow> 'w \<Rightarrow> nat result \<times> byte list \<times> 'w" where
  "read_prefix h base n buf w =
     (case host_read_block h base (take n buf) w of (r, c, w') \<Rightarrow> (r, c @ drop n buf, w'))"

definition BYTEMODE_THRESH :: u8 where "BYTEMODE_THRESH = 64"

definition sd_recv_pkt ::
  "'w sdio_host \<Rightarrow> aic8800_sdio \<Rightarrow> byte list \<Rightarrow> u32 \<Rightarrow> u8 \<Rightarrow> 'w \<Rightarrow> nat result \<times> byte list \<times> 'w" where
  "sd_recv_pkt h d buf sz msg w =
     (let n = unat sz;
          base = (if sd_product_id d = Aic8801 \<or> msg = 0 then FUNC1_BASE else FUNC2_BASE)
                 + ucast (sd_rd_fifo_offset d)
      in if length buf < n then (err (-22), buf, w)
         else if sd_product_id d = Aic8801 then
           (case host_read_byte_at_func h 1 (ucast REG_BLOCK_CNT) w of
              (Inl e, w1) \<Rightarrow> (Inl e, buf, w1)
            | (Inr block_cnt, w1) \<Rightarrow>
                if block_cnt = 0 then (ok 0, buf, w1)
                else
                  (case (if block_cnt \<ge> BYTEMODE_THRESH
                         then io_bind (host_read_byte_at_func h 1 (ucast REG_BYTEMODE_LEN))
                                (\<lambda>byte_len. io_return (unat byte_len * 4))
                         else io_return (unat block_cnt * 512)) w1 of
                     (Inl e, w2) \<Rightarrow> (Inl e, buf, w2)
                   | (Inr data_len, w2) \<Rightarrow> read_prefix h base (min n data_len) buf w2))
         else read_prefix h base n buf w)"

definition sd_send_pkt :: "'w sdio_host \<Rightarrow> aic8800_sdio \<Rightarrow> byte list \<Rightarrow> nat \<Rightarrow> ('w, nat) io" where
  "sd_send_pkt h d buf count =
     io_bind (io_lift (slice_get 0 count buf))
       (host_write_block h (FUNC1_BASE + ucast (sd_wr_fifo_offset d)))"

text \<open>
  The flow-control loops of \<open>send_msg\<close>: \<open>k\<close> rounds are left; round \<open>i\<close> waits 200 us, 1 ms
  or 10 ms before the next.
\<close>

definition flow_delay :: "nat \<Rightarrow> nat" where
  "flow_delay i = (if i < 30 then 200 else if i < 40 then 1000 else 10000)"

fun flow_poll :: "'w sdio_host \<Rightarrow> nat \<Rightarrow> u8 \<Rightarrow> ('w, u8) io" where
  "flow_poll h 0 last_fc = io_return last_fc"
| "flow_poll h (Suc k) last_fc =
     io_bind (host_read_byte_at_func h 1 (ucast REG_FLOW_CTRL)) (\<lambda>fc.
       let last' = fc AND REG_FLOWCTRL_MASK in
       if last' \<noteq> 0 then io_return last'
       else io_bind (io_do (host_delay_us h (flow_delay (FLOW_CTRL_RETRY_COUNT - Suc k))))
              (\<lambda>_. flow_poll h k last'))"

fun buffer_wait :: "'w sdio_host \<Rightarrow> nat \<Rightarrow> nat \<Rightarrow> nat \<Rightarrow> ('w, nat) io" where
  "buffer_wait h count 0 buffer_cnt = io_return buffer_cnt"
| "buffer_wait h count (Suc k) buffer_cnt =
     io_bind (flow_poll h FLOW_CTRL_RETRY_COUNT 0) (\<lambda>last_fc.
       let cnt = unat last_fc in
       if 0 < cnt \<and> count < cnt * BUFFER_SIZE then io_return cnt
       else if k = 0 then io_fail (Errno (-110))
       else buffer_wait h count k cnt)"

definition sd_send_msg :: "'w sdio_host \<Rightarrow> aic8800_sdio \<Rightarrow> byte list \<Rightarrow> nat \<Rightarrow> ('w, nat) io" where
  "sd_send_msg h d buf count =
     io_bind
       (if sd_product_id d = Aic8801 then
          io_bind (buffer_wait h count 10 0) (\<lambda>buffer_cnt.
            if buffer_cnt = 0 \<or> count \<ge> buffer_cnt * BUFFER_SIZE then io_fail (Errno (-110))
            else io_return (FUNC1_BASE + ucast (sd_wr_fifo_offset d)))
        else io_return (FUNC2_BASE + FUNC2_MSG_ADDR_OFFSET))
       (\<lambda>addr. io_bind (io_lift (slice_get 0 count buf)) (host_write_block h addr))"

definition Aic8800Sdio_ops :: "'w sdio_host \<Rightarrow> aic8800_sdio \<Rightarrow> 'w sdio_ops" where
  "Aic8800Sdio_ops h d =
     \<lparr>ops_writeb = host_writeb_base h FUNC1_BASE, ops_readb = host_readb_base h FUNC1_BASE,
      ops_readb_func2 = host_readb_base h FUNC2_BASE, ops_writeb_func2 = host_writeb_base h FUNC2_BASE,
      ops_read_byte = sd_read_byte h, ops_read_byte_f0 = sd_read_byte h,
      ops_read_byte_at_func = trait_read_byte_at_func, ops_write_byte = sd_write_byte h,
      ops_recv_pkt = sd_recv_pkt h d, ops_send_pkt = sd_send_pkt h d, ops_send_msg = sd_send_msg h d,
      ops_read_block = host_read_block h, ops_write_block = host_write_block h\<rparr>"


section \<open>Sending\<close>

lemma flow_poll_InrD:
  "flow_poll h k last_fc w = (Inr f, w') \<Longrightarrow> f \<noteq> 0 \<Longrightarrow> last_fc = 0 \<Longrightarrow>
   \<exists>w0 fc. host_read_byte_at_func h 1 (ucast REG_FLOW_CTRL) w0 = (ok fc, w') \<and> f = fc AND REG_FLOWCTRL_MASK"
  by (induction k arbitrary: last_fc w) (auto simp: io_bind_Inr_iff Let_def split: if_splits)

lemma buffer_wait_InrD:
  "buffer_wait h count (Suc k) c w = (Inr cnt, w') \<Longrightarrow>
   \<exists>w0 fc. host_read_byte_at_func h 1 (ucast REG_FLOW_CTRL) w0 = (ok fc, w') \<and>
     cnt = unat (fc AND REG_FLOWCTRL_MASK) \<and> 0 < cnt \<and> count < cnt * BUFFER_SIZE"
proof (induction k arbitrary: c w)
  case 0
  then show ?case
    by (auto simp: io_bind_Inr_iff Let_def split: if_splits dest!: flow_poll_InrD)
next
  case (Suc k)
  from Suc.prems obtain f w1 where f: "flow_poll h FLOW_CTRL_RETRY_COUNT 0 w = (Inr f, w1)"
    and r: "(if 0 < unat f \<and> count < unat f * BUFFER_SIZE then io_return (unat f)
             else if Suc k = 0 then io_fail (Errno (-110))
             else buffer_wait h count (Suc k) (unat f)) w1 = (Inr cnt, w')"
    by (simp only: buffer_wait.simps(2) [of _ _ "Suc k"] io_bind_Inr_iff Let_def) blast
  show ?case
  proof (cases "0 < unat f \<and> count < unat f * BUFFER_SIZE")
    case True
    then have "f \<noteq> 0" by auto
    with True r flow_poll_InrD [OF f] show ?thesis by auto
  next
    case False
    with r have "buffer_wait h count (Suc k) (unat f) w1 = (Inr cnt, w')" by simp
    then show ?thesis by (rule Suc.IH)
  qed
qed


text \<open>A host whose world is the list of written blocks; the card always reports one buffer.\<close>

definition one_buffer_host :: "(u32 \<times> byte list) list sdio_host" where
  "one_buffer_host =
     \<lparr>host_read_byte = (\<lambda>a. io_return 0), host_write_byte = (\<lambda>a v. io_return ()),
      host_read_byte_f0 = (\<lambda>a. io_return 0), host_read_byte_at_func = (\<lambda>f r. io_return 1),
      host_write_byte_at_func = (\<lambda>f r v. io_return ()),
      host_read_block = (\<lambda>a c w. (ok 0, c, w)),
      host_write_block = (\<lambda>a c w. (ok (length c), w @ [(a, c)])), host_delay_us = (\<lambda>n w. w)\<rparr>"

lemma one_buffer_poll: "0 < k \<Longrightarrow> flow_poll one_buffer_host k 0 w = (ok 1, w)"
  by (cases k) (simp_all add: one_buffer_host_def REG_FLOWCTRL_MASK_def)

lemma one_buffer_wait_Suc:
  "buffer_wait one_buffer_host count (Suc k) c w = (if count < 1536 then ok 1 else err (-110), w)"
proof (induction k arbitrary: c)
  case 0
  show ?case by (simp add: io_bind_def one_buffer_poll FLOW_CTRL_RETRY_COUNT_def BUFFER_SIZE_def)
next
  case (Suc k)
  show ?case
    by (subst buffer_wait.simps(2))
      (simp add: io_bind_def one_buffer_poll FLOW_CTRL_RETRY_COUNT_def BUFFER_SIZE_def Suc
        del: buffer_wait.simps)
qed

lemmas one_buffer_wait = one_buffer_wait_Suc [of _ 9, simplified]



section \<open>Receiving\<close>

text \<open>
  The read FIFO of function 1 as the card documents it: a block read of \<open>n\<close> bytes takes the next
  \<open>n\<close> bytes, single-byte accesses leave the FIFO alone.
\<close>

definition rd_fifo_law :: "'w sdio_host \<Rightarrow> u32 \<Rightarrow> ('w \<Rightarrow> byte list) \<Rightarrow> bool" where
  "rd_fifo_law h base fifo \<longleftrightarrow>
     (\<forall>c w. length c \<le> length (fifo w) \<longrightarrow>
        (\<exists>w'. host_read_block h base c w = (ok (length c), take (length c) (fifo w), w') \<and>
              fifo w' = drop (length c) (fifo w))) \<and>
     (\<forall>f r w. fifo (snd (host_read_byte_at_func h f r w)) = fifo w)"

lemma read_prefix_fifo:
  assumes "rd_fifo_law h base fifo" "n \<le> length buf" "n \<le> length (fifo w)"
  shows "\<exists>w'. read_prefix h base n buf w = (ok n, take n (fifo w) @ drop n buf, w') \<and>
    fifo w' = drop n (fifo w)"
proof -
  have "length (take n buf) = n" using assms(2) by simp
  then obtain w' where "host_read_block h base (take n buf) w = (ok n, take n (fifo w), w')"
    "fifo w' = drop n (fifo w)"
    using assms(1,3) unfolding rd_fifo_law_def by metis
  then show ?thesis by (simp add: read_prefix_def)
qed

text \<open>
  Receiving on the 8801: with \<open>b\<close> in \<open>BLOCK_CNT\<close> (below 64), \<open>recv_pkt\<close> returns \<open>0\<close> and
  leaves the buffer alone when \<open>b = 0\<close>, and otherwise moves exactly \<open>min(size, 512 * b)\<close> bytes
  from the read FIFO to the front of the buffer. In particular data of more than \<open>size\<close> bytes
  is not drained: \<open>512 * b - size\<close> bytes stay in the FIFO.
\<close>

theorem recv_pkt_8801_moves:
  assumes "rd_fifo_law h (FUNC1_BASE + ucast (sd_rd_fifo_offset d)) fifo"
    and "sd_product_id d = Aic8801" and "unat sz \<le> length buf"
    and "host_read_byte_at_func h 1 0x12 w = (ok b, w1)" and "b < 64"
    and "length (fifo w) = 512 * unat b"
  shows "\<exists>w'. let m = min (unat sz) (512 * unat b) in
     sd_recv_pkt h d buf sz msg w = (ok m, take m (fifo w) @ drop m buf, w') \<and>
     fifo w' = drop m (fifo w) \<and> length (fifo w') = 512 * unat b - unat sz"
proof -
  have f1: "fifo w1 = fifo w"
    using assms(1,4) unfolding rd_fifo_law_def by (metis snd_conv)
  show ?thesis
  proof (cases "b = 0")
    case True
    with assms f1 show ?thesis by (simp add: sd_recv_pkt_def Let_def reg_defs)
  next
    case False
    let ?m = "min (unat sz) (512 * unat b)"
    have "\<not> BYTEMODE_THRESH \<le> b" using assms(5) by (simp add: BYTEMODE_THRESH_def not_le)
    then have "sd_recv_pkt h d buf sz msg w =
        read_prefix h (FUNC1_BASE + ucast (sd_rd_fifo_offset d)) ?m buf w1"
      using assms(2,3,4) False by (simp add: sd_recv_pkt_def Let_def reg_defs mult.commute)
    moreover have "?m \<le> length buf" "?m \<le> length (fifo w1)" using assms(3,6) f1 by simp_all
    ultimately show ?thesis
      using read_prefix_fifo [OF assms(1), of ?m buf w1] assms(6) unfolding f1 Let_def by auto
  qed
qed

text \<open>A card with two blocks in its FIFO; the world is the FIFO.\<close>

definition two_block_host :: "byte list sdio_host" where
  "two_block_host =
     \<lparr>host_read_byte = (\<lambda>a. io_return 0), host_write_byte = (\<lambda>a v. io_return ()),
      host_read_byte_f0 = (\<lambda>a. io_return 0),
      host_read_byte_at_func = (\<lambda>f r w. (ok (of_nat (length w div 512)), w)),
      host_write_byte_at_func = (\<lambda>f r v. io_return ()),
      host_read_block = (\<lambda>a c w. (ok (length c), take (length c) w, drop (length c) w)),
      host_write_block = (\<lambda>a c w. (ok (length c), w)), host_delay_us = (\<lambda>n w. w)\<rparr>"

theorem recv_pkt_8801_moves_witness:
  "\<exists>w'. sd_recv_pkt two_block_host (Aic8800Sdio_new Aic8801) (replicate 512 0) 512 1 (replicate 1024 7) =
     (ok 512, replicate 512 7, w') \<and> length w' = 512"
proof -
  have "rd_fifo_law two_block_host a (\<lambda>w. w)" for a
    by (auto simp: rd_fifo_law_def two_block_host_def)
  moreover have "host_read_byte_at_func two_block_host 1 0x12 (replicate 1024 7) = (ok 2, replicate 1024 7)"
    by (simp add: two_block_host_def)
  moreover have "sd_product_id (Aic8800Sdio_new Aic8801) = Aic8801"
    by (simp add: Aic8800Sdio_new_def)
  ultimately show ?thesis
    using recv_pkt_8801_moves [of two_block_host "Aic8800Sdio_new Aic8801" "\<lambda>w. w" 512
        "replicate 512 0" "replicate 1024 7" 2 "replicate 1024 7" 1]
    by auto
qed

end
