(* ===== verification/Backend.thy ===== *)
theory Backend
  imports Sdio_Ops Sdhci
begin

text \<open>
  The SD1 host controller (\<open>driver/bsp/src/sdio/backend.rs\<close>), over memory-mapped registers: the
  clock, the CMD0/CMD5/CMD3/CMD7 enumeration, CMD52 single-byte accesses with their wait loops,
  the byte-level methods of \<open>Aic8800SdioHost\<close> and the split of a block access into CMD53
  commands. The registers are a parameter (\<open>mmio\<close>): reading one may change the world. Reads that
  only feed a log line are kept where they are reads of a status register before an early
  return, and left out elsewhere; busy-wait loops without a register access have no effect.
\<close>

section \<open>Registers\<close>

record 'w mmio =
  mmio_read :: "nat \<Rightarrow> 'w \<Rightarrow> u32 \<times> 'w"
  mmio_write :: "nat \<Rightarrow> u32 \<Rightarrow> 'w \<Rightarrow> 'w"
  mmio_sleep_ms :: "nat \<Rightarrow> 'w \<Rightarrow> 'w"

definition R_ARGUMENT :: nat where "R_ARGUMENT = 0x008"
definition R_XFER_MODE_AND_CMD :: nat where "R_XFER_MODE_AND_CMD = 0x00c"
definition R_RESP31_0 :: nat where "R_RESP31_0 = 0x010"
definition R_PRESENT_STS :: nat where "R_PRESENT_STS = 0x024"
definition R_HOST_CTRL1 :: nat where "R_HOST_CTRL1 = 0x028"
definition R_CLK_CTL_SWRST :: nat where "R_CLK_CTL_SWRST = 0x02c"
definition R_INT_STS :: nat where "R_INT_STS = 0x030"

lemmas sdmmc_reg_defs = R_ARGUMENT_def R_XFER_MODE_AND_CMD_def R_RESP31_0_def R_PRESENT_STS_def
  R_HOST_CTRL1_def R_CLK_CTL_SWRST_def R_INT_STS_def

definition read_reg :: "'w mmio \<Rightarrow> nat \<Rightarrow> ('w, u32) io" where
  "read_reg m off = (\<lambda>w. case mmio_read m off w of (v, w') \<Rightarrow> (ok v, w'))"

definition write_reg :: "'w mmio \<Rightarrow> nat \<Rightarrow> u32 \<Rightarrow> ('w, unit) io" where
  "write_reg m off v = io_do (mmio_write m off v)"

definition CMD0_XFER_MODE :: u32 where "CMD0_XFER_MODE = push_bit 24 0"
definition CMD5_XFER_MODE :: u32 where "CMD5_XFER_MODE = push_bit 16 2 OR push_bit 24 5"
definition CMD3_XFER_MODE :: u32 where
  "CMD3_XFER_MODE = push_bit 16 2 OR push_bit 19 1 OR push_bit 20 1 OR push_bit 24 3"
definition CMD7_XFER_MODE :: u32 where
  "CMD7_XFER_MODE = push_bit 16 3 OR push_bit 19 1 OR push_bit 20 1 OR push_bit 24 7"
definition CMD52_XFER_MODE :: u32 where
  "CMD52_XFER_MODE = push_bit 16 2 OR push_bit 19 1 OR push_bit 20 1 OR push_bit 24 52"

section \<open>Waiting\<close>

fun inhibit_loop :: "'w mmio \<Rightarrow> nat \<Rightarrow> ('w, unit) io" where
  "inhibit_loop m 0 = io_bind (read_reg m R_PRESENT_STS) (\<lambda>_. io_fail (Errno (-110)))"
| "inhibit_loop m (Suc k) =
     io_bind (read_reg m R_PRESENT_STS) (\<lambda>sts.
       if sts AND 3 = 0 then io_return ()
       else io_bind (io_do (mmio_sleep_ms m 1)) (\<lambda>_. inhibit_loop m k))"

definition wait_not_inhibit :: "'w mmio \<Rightarrow> ('w, unit) io" where
  "wait_not_inhibit m = inhibit_loop m 100"

definition clear_int_status :: "'w mmio \<Rightarrow> ('w, unit) io" where
  "clear_int_status m =
     io_bind (read_reg m R_INT_STS) (\<lambda>sts. if sts \<noteq> 0 then write_reg m R_INT_STS sts else io_return ())"

fun reset_poll :: "'w mmio \<Rightarrow> u32 \<Rightarrow> nat \<Rightarrow> ('w, unit) io" where
  "reset_poll m fbits 0 = io_return ()"
| "reset_poll m fbits (Suc k) =
     io_bind (read_reg m R_CLK_CTL_SWRST) (\<lambda>v.
       if v AND fbits = 0 then io_return () else reset_poll m fbits k)"

definition reset_line :: "'w mmio \<Rightarrow> u32 \<Rightarrow> ('w, unit) io" where
  "reset_line m fbits =
     io_bind (read_reg m R_CLK_CTL_SWRST) (\<lambda>val.
     io_bind (write_reg m R_CLK_CTL_SWRST (val OR fbits)) (\<lambda>_. reset_poll m fbits 10000))"

definition reset_cmd_line :: "'w mmio \<Rightarrow> ('w, unit) io" where
  "reset_cmd_line m = reset_line m (push_bit 25 1)"

definition reset_dat_line :: "'w mmio \<Rightarrow> ('w, unit) io" where
  "reset_dat_line m = reset_line m (push_bit 26 1)"

definition INT_CMD_CMPL :: u32 where "INT_CMD_CMPL = push_bit 0 1"
definition INT_CMD_TIMEOUT :: u32 where "INT_CMD_TIMEOUT = push_bit 16 1"
definition INT_CMD_CRC :: u32 where "INT_CMD_CRC = push_bit 17 1"
definition INT_CMD_END_BIT :: u32 where "INT_CMD_END_BIT = push_bit 18 1"
definition INT_CMD_INDEX :: u32 where "INT_CMD_INDEX = push_bit 19 1"
definition INT_CMD_ERR_MASK :: u32 where
  "INT_CMD_ERR_MASK = INT_CMD_TIMEOUT OR INT_CMD_CRC OR INT_CMD_END_BIT OR INT_CMD_INDEX"
definition INT_CMD_CLEAR_MASK :: u32 where "INT_CMD_CLEAR_MASK = INT_CMD_CMPL OR INT_CMD_ERR_MASK"

lemmas int_cmd_defs = INT_CMD_CMPL_def INT_CMD_TIMEOUT_def INT_CMD_CRC_def INT_CMD_END_BIT_def
  INT_CMD_INDEX_def INT_CMD_ERR_MASK_def INT_CMD_CLEAR_MASK_def

fun cmd_complete_loop :: "'w mmio \<Rightarrow> nat \<Rightarrow> ('w, unit) io" where
  "cmd_complete_loop m 0 =
     io_bind (read_reg m R_INT_STS) (\<lambda>_.
     io_bind (read_reg m R_PRESENT_STS) (\<lambda>_.
     io_bind (clear_int_status m) (\<lambda>_.
     io_bind (reset_cmd_line m) (\<lambda>_. io_fail (Errno (-110))))))"
| "cmd_complete_loop m (Suc k) =
     io_bind (read_reg m R_INT_STS) (\<lambda>sts.
       if sts AND INT_CMD_ERR_MASK \<noteq> 0 then
         io_bind (write_reg m R_INT_STS (sts AND INT_CMD_CLEAR_MASK)) (\<lambda>_.
           if sts AND INT_CMD_TIMEOUT \<noteq> 0 then io_fail (Errno (-110))
           else if sts AND INT_CMD_CRC \<noteq> 0 then io_fail (Errno (-84))
           else if sts AND INT_CMD_END_BIT \<noteq> 0 then io_fail (Errno (-74))
           else io_fail (Errno (-5)))
       else if sts AND INT_CMD_CMPL \<noteq> 0 then write_reg m R_INT_STS (sts AND INT_CMD_CLEAR_MASK)
       else io_bind (io_do (mmio_sleep_ms m 1)) (\<lambda>_. cmd_complete_loop m k))"

definition wait_cmd_complete :: "'w mmio \<Rightarrow> ('w, unit) io" where
  "wait_cmd_complete m = cmd_complete_loop m 100"

fun no_crc_loop :: "'w mmio \<Rightarrow> nat \<Rightarrow> ('w, unit) io" where
  "no_crc_loop m 0 = io_bind (read_reg m R_INT_STS) (\<lambda>_. io_fail (Errno (-110)))"
| "no_crc_loop m (Suc k) =
     io_bind (read_reg m R_INT_STS) (\<lambda>sts.
       if sts AND (INT_CMD_TIMEOUT OR INT_CMD_END_BIT OR INT_CMD_INDEX) \<noteq> 0 then
         io_bind (write_reg m R_INT_STS sts) (\<lambda>_.
           if sts AND INT_CMD_TIMEOUT \<noteq> 0 then io_fail (Errno (-110))
           else if sts AND INT_CMD_END_BIT \<noteq> 0 then io_fail (Errno (-74))
           else io_fail (Errno (-5)))
       else if sts AND INT_CMD_CMPL \<noteq> 0 then write_reg m R_INT_STS sts
       else no_crc_loop m k)"

definition CMD_POLL_TIMEOUT_US :: nat where "CMD_POLL_TIMEOUT_US = 100000"

definition wait_cmd_complete_no_crc :: "'w mmio \<Rightarrow> ('w, unit) io" where
  "wait_cmd_complete_no_crc m = no_crc_loop m CMD_POLL_TIMEOUT_US"

fun no_resp_loop :: "'w mmio \<Rightarrow> nat \<Rightarrow> ('w, unit) io" where
  "no_resp_loop m 0 = io_bind (read_reg m R_PRESENT_STS) (\<lambda>_. io_fail (Errno (-110)))"
| "no_resp_loop m (Suc k) =
     io_bind (clear_int_status m) (\<lambda>_.
     io_bind (read_reg m R_PRESENT_STS) (\<lambda>present.
       if present AND 1 = 0 then io_return () else no_resp_loop m k))"

definition wait_cmd_complete_no_resp :: "'w mmio \<Rightarrow> ('w, unit) io" where
  "wait_cmd_complete_no_resp m = no_resp_loop m CMD_POLL_TIMEOUT_US"

section \<open>CMD52\<close>

definition issue_cmd :: "'w mmio \<Rightarrow> u32 \<Rightarrow> u32 \<Rightarrow> ('w, unit) io" where
  "issue_cmd m arg mode =
     io_bind (write_reg m R_ARGUMENT arg) (\<lambda>_. write_reg m R_XFER_MODE_AND_CMD mode)"

definition r5_failed :: "u32 \<Rightarrow> bool" where
  "r5_failed resp \<longleftrightarrow> drop_bit 16 resp AND R5_ERROR_MASK \<noteq> 0"

definition cmd52_read_arg :: "u32 \<Rightarrow> u32 \<Rightarrow> u32" where
  "cmd52_read_arg func reg = push_bit 28 (func AND 7) OR push_bit 9 (reg AND 0x1FFFF)"

definition cmd52_write_arg :: "u32 \<Rightarrow> u32 \<Rightarrow> byte \<Rightarrow> u32" where
  "cmd52_write_arg func reg val =
     push_bit 31 1 OR push_bit 28 (func AND 7) OR push_bit 9 (reg AND 0x1FFFF) OR ucast val"

definition cmd52_read_func :: "'w mmio \<Rightarrow> u32 \<Rightarrow> u32 \<Rightarrow> ('w, byte) io" where
  "cmd52_read_func m func reg =
     io_bind (wait_not_inhibit m) (\<lambda>_.
     io_bind (issue_cmd m (cmd52_read_arg func reg) CMD52_XFER_MODE) (\<lambda>_.
     io_bind (wait_cmd_complete m) (\<lambda>_.
     io_bind (read_reg m R_RESP31_0) (\<lambda>resp.
       if r5_failed resp then io_fail (Errno (-5)) else io_return (ucast (resp AND 0xFF))))))"

definition cmd52_write_func :: "'w mmio \<Rightarrow> u32 \<Rightarrow> u32 \<Rightarrow> byte \<Rightarrow> ('w, unit) io" where
  "cmd52_write_func m func reg val =
     io_bind (wait_not_inhibit m) (\<lambda>_.
     io_bind (issue_cmd m (cmd52_write_arg func reg val) CMD52_XFER_MODE) (\<lambda>_.
     io_bind (wait_cmd_complete m) (\<lambda>_.
     io_bind (read_reg m R_RESP31_0) (\<lambda>resp.
       if r5_failed resp then io_fail (Errno (-5)) else io_return ()))))"

definition cmd52_read :: "'w mmio \<Rightarrow> u32 \<Rightarrow> ('w, byte) io" where
  "cmd52_read m addr = cmd52_read_func m 0 (addr AND 0x1FFFF)"

definition cmd52_write :: "'w mmio \<Rightarrow> u32 \<Rightarrow> byte \<Rightarrow> ('w, unit) io" where
  "cmd52_write m addr val = cmd52_write_func m 0 (addr AND 0x1FFFF) val"

definition bk_read_byte :: "'w mmio \<Rightarrow> u32 \<Rightarrow> ('w, byte) io" where
  "bk_read_byte m addr = cmd52_read m addr"

definition bk_read_byte_f0 :: "'w mmio \<Rightarrow> u32 \<Rightarrow> ('w, byte) io" where
  "bk_read_byte_f0 m addr = cmd52_read_func m 0 (addr AND 0x1FFFF)"

definition bk_read_byte_at_func :: "'w mmio \<Rightarrow> u8 \<Rightarrow> u32 \<Rightarrow> ('w, byte) io" where
  "bk_read_byte_at_func m func reg = cmd52_read_func m (ucast func) (reg AND 0x1FFFF)"

definition bk_write_byte :: "'w mmio \<Rightarrow> u32 \<Rightarrow> byte \<Rightarrow> ('w, unit) io" where
  "bk_write_byte m addr val = cmd52_write m addr val"

definition bk_write_byte_at_func :: "'w mmio \<Rightarrow> u8 \<Rightarrow> u32 \<Rightarrow> byte \<Rightarrow> ('w, unit) io" where
  "bk_write_byte_at_func m func reg val = cmd52_write_func m (ucast func) (reg AND 0x1FFFF) val"

definition set_block_size :: "'w mmio \<Rightarrow> u32 \<Rightarrow> u16 \<Rightarrow> ('w, unit) io" where
  "set_block_size m func sz =
     io_bind (cmd52_write_func m func 0x10 (ucast (sz AND 0xFF))) (\<lambda>_.
     io_bind (cmd52_write_func m func 0x11 (ucast (drop_bit 8 sz))) (\<lambda>_. io_return ()))"

section \<open>Bus width, speed and clock\<close>

definition set_bus_width :: "'w mmio \<Rightarrow> bool \<Rightarrow> ('w, unit) io" where
  "set_bus_width m width_4 =
     io_bind (read_reg m R_HOST_CTRL1) (\<lambda>c.
       write_reg m R_HOST_CTRL1 (if width_4 then c OR push_bit 1 1 else c AND NOT (push_bit 1 1)))"

definition enable_sdio_high_speed :: "'w mmio \<Rightarrow> ('w, unit) io" where
  "enable_sdio_high_speed m =
     io_bind (bk_read_byte m 0x13) (\<lambda>speed.
       if speed AND 1 = 0 then io_return () else bk_write_byte m 0x13 (speed OR 2))"

definition enable_4bit_bus :: "'w mmio \<Rightarrow> ('w, unit) io" where
  "enable_4bit_bus m =
     io_bind (\<lambda>w. case bk_read_byte m 0x07 w of
        (Inr ctrl, w1) \<Rightarrow> io_unwrap_or (bk_write_byte m 0x07 ((ctrl AND NOT 3) OR 2)) () w1
      | (Inl (Errno e), w1) \<Rightarrow> (ok (), w1)
      | (Inl e, w1) \<Rightarrow> (Inl e, w1)) (\<lambda>_. set_bus_width m True)"

definition INT_CARD_CLK_HZ :: u32 where "INT_CARD_CLK_HZ = 375000000"

text \<open>\<open>((INT_CARD_CLK_HZ + 2 * clock_hz - 1) / (2 * clock_hz)).clamp(1, 255)\<close>, with the checks of
  32-bit arithmetic.\<close>

definition clock_divisor :: "u32 \<Rightarrow> u32 result" where
  "clock_divisor clock_hz =
     (if 2 * unat clock_hz \<ge> 2 ^ 32 \<or> unat INT_CARD_CLK_HZ + 2 * unat clock_hz \<ge> 2 ^ 32
      then panic ArithOverflow
      else if 2 * clock_hz = 0 then panic DivZero
      else ok (min 255 (max 1 ((INT_CARD_CLK_HZ + 2 * clock_hz - 1) div (2 * clock_hz)))))"

definition set_host_high_speed :: "'w mmio \<Rightarrow> bool \<Rightarrow> ('w, unit) io" where
  "set_host_high_speed m enable =
     io_bind (read_reg m R_HOST_CTRL1) (\<lambda>ctrl.
       let new_ctrl = (if enable then ctrl OR push_bit 2 1 else ctrl AND NOT (push_bit 2 1)) in
       if new_ctrl \<noteq> ctrl then write_reg m R_HOST_CTRL1 new_ctrl else io_return ())"

fun clk_stable_loop :: "'w mmio \<Rightarrow> bool \<Rightarrow> nat \<Rightarrow> ('w, unit) io" where
  "clk_stable_loop m hs 0 =
     io_bind (read_reg m R_CLK_CTL_SWRST) (\<lambda>st.
     io_bind (write_reg m R_CLK_CTL_SWRST (st OR push_bit 2 1)) (\<lambda>_. set_host_high_speed m hs))"
| "clk_stable_loop m hs (Suc k) =
     io_bind (read_reg m R_CLK_CTL_SWRST) (\<lambda>st.
       if st AND push_bit 1 1 \<noteq> 0 then
         io_bind (write_reg m R_CLK_CTL_SWRST (st OR push_bit 2 1)) (\<lambda>_. set_host_high_speed m hs)
       else clk_stable_loop m hs k)"

definition set_clock :: "'w mmio \<Rightarrow> u32 \<Rightarrow> ('w, unit) io" where
  "set_clock m clock_hz =
     (if clock_hz = 0 then
        io_bind (set_host_high_speed m False) (\<lambda>_.
        io_bind (read_reg m R_CLK_CTL_SWRST) (\<lambda>ctl.
          write_reg m R_CLK_CTL_SWRST (ctl AND NOT (push_bit 2 1))))
      else
        io_bind (io_lift (clock_divisor clock_hz)) (\<lambda>divisor.
        io_bind (read_reg m R_CLK_CTL_SWRST) (\<lambda>ctl.
        io_bind (write_reg m R_CLK_CTL_SWRST ((ctl AND NOT 0xFF00) OR push_bit 8 divisor OR push_bit 0 1)) (\<lambda>_.
          clk_stable_loop m (clock_hz \<ge> 20000000) CMD_POLL_TIMEOUT_US))))"

section \<open>Enumeration\<close>

definition cmd0_go_idle :: "'w mmio \<Rightarrow> ('w, unit) io" where
  "cmd0_go_idle m =
     io_bind (reset_cmd_line m) (\<lambda>_.
     io_bind (wait_not_inhibit m) (\<lambda>_.
     io_bind (clear_int_status m) (\<lambda>_.
     io_bind (issue_cmd m 0 CMD0_XFER_MODE) (\<lambda>_. wait_cmd_complete_no_resp m))))"

definition cmd5_io_send_op_cond :: "'w mmio \<Rightarrow> u32 \<Rightarrow> ('w, u32) io" where
  "cmd5_io_send_op_cond m arg =
     io_bind (wait_not_inhibit m) (\<lambda>_.
     io_bind (issue_cmd m arg CMD5_XFER_MODE) (\<lambda>_.
     io_bind (wait_cmd_complete_no_crc m) (\<lambda>_. read_reg m R_RESP31_0)))"

definition cmd3_send_relative_addr :: "'w mmio \<Rightarrow> ('w, u16) io" where
  "cmd3_send_relative_addr m =
     io_bind (wait_not_inhibit m) (\<lambda>_.
     io_bind (issue_cmd m 0 CMD3_XFER_MODE) (\<lambda>_.
     io_bind (wait_cmd_complete m) (\<lambda>_.
     io_bind (read_reg m R_RESP31_0) (\<lambda>resp. io_return (ucast (drop_bit 16 resp AND 0xFFFF))))))"

definition cmd7_select_card :: "'w mmio \<Rightarrow> u16 \<Rightarrow> ('w, unit) io" where
  "cmd7_select_card m rca =
     io_bind (wait_not_inhibit m) (\<lambda>_.
     io_bind (issue_cmd m (push_bit 16 (ucast rca)) CMD7_XFER_MODE) (\<lambda>_.
     io_bind (wait_cmd_complete m) (\<lambda>_. wait_not_inhibit m)))"

fun ocr_loop :: "'w mmio \<Rightarrow> u32 \<Rightarrow> nat \<Rightarrow> ('w, unit) io" where
  "ocr_loop m ocr 0 = io_fail (Errno (-110))"
| "ocr_loop m ocr (Suc k) =
     io_bind (cmd5_io_send_op_cond m (ocr AND 0x00FFFF00)) (\<lambda>resp.
       if resp AND 0x80000000 \<noteq> 0 then io_return () else ocr_loop m ocr k)"

definition sdio_card_init :: "'w mmio \<Rightarrow> ('w, u16) io" where
  "sdio_card_init m =
     io_bind (cmd0_go_idle m) (\<lambda>_.
     io_bind (cmd5_io_send_op_cond m 0) (\<lambda>ocr.
       if ocr = 0 then io_fail (Errno (-19))
       else
         io_bind (ocr_loop m ocr 100) (\<lambda>_.
         io_bind (cmd3_send_relative_addr m) (\<lambda>rca.
         io_bind (cmd7_select_card m rca) (\<lambda>_. io_return rca)))))"


section \<open>Block access\<close>

text \<open>
  \<open>sdio_io_rw_ext_helper_read/_write\<close>: block mode only above 512 bytes. \<open>xfer\<close> is one CMD53:
  \<open>cmd53_*_blocks\<close> for a positive block count, else \<open>cmd53_*_chunk\<close>.
\<close>

definition bk_rw_ext_helper :: "'s xfer \<Rightarrow> nat \<Rightarrow> ('s, unit) io" where
  "bk_rw_ext_helper xfer sz =
     (if sz = 0 then io_return ()
      else io_bind (if SDIO_MAX_BYTE_SIZE < sz then block_loop xfer 512 0 sz else io_return 0)
             (byte_loop xfer sz))"

definition bk_rw_block :: "'s xfer \<Rightarrow> nat \<Rightarrow> ('s, nat) io" where
  "bk_rw_block xfer len =
     (if len = 0 then io_return 0
      else io_bind (bk_rw_ext_helper xfer len) (\<lambda>_. io_return len))"

text \<open>The host whose single-byte methods are the CMD52 ones above.\<close>

definition mmio_host ::
  "'w mmio \<Rightarrow> (u32 \<Rightarrow> byte list \<Rightarrow> 'w \<Rightarrow> nat result \<times> byte list \<times> 'w) \<Rightarrow> (u32 \<Rightarrow> byte list \<Rightarrow> ('w, nat) io)
   \<Rightarrow> (nat \<Rightarrow> 'w \<Rightarrow> 'w) \<Rightarrow> 'w sdio_host" where
  "mmio_host m rd_block wr_block delay_us =
     \<lparr>host_read_byte = bk_read_byte m, host_write_byte = bk_write_byte m,
      host_read_byte_f0 = bk_read_byte_f0 m, host_read_byte_at_func = bk_read_byte_at_func m,
      host_write_byte_at_func = bk_write_byte_at_func m, host_read_block = rd_block,
      host_write_block = wr_block, host_delay_us = delay_us\<rparr>"

section \<open>Which register a CMD52 reaches\<close>

text \<open>An idle controller that completes every command at once, with R5 response \<open>resp\<close>.\<close>

definition idle_ctrl :: "'w mmio \<Rightarrow> ('w \<Rightarrow> u32) \<Rightarrow> bool" where
  "idle_ctrl m resp \<longleftrightarrow>
     (\<forall>w. \<exists>p. mmio_read m R_PRESENT_STS w = (p, w) \<and> p AND 3 = 0) \<and>
     (\<forall>w. mmio_read m R_INT_STS w = (1, w)) \<and>
     (\<forall>w. mmio_read m R_RESP31_0 w = (resp w, w))"

definition cmd_world :: "'w mmio \<Rightarrow> u32 \<Rightarrow> 'w \<Rightarrow> 'w" where
  "cmd_world m arg w =
     mmio_write m R_INT_STS 1 (mmio_write m R_XFER_MODE_AND_CMD CMD52_XFER_MODE
       (mmio_write m R_ARGUMENT arg w))"

lemma idle_ctrlD:
  assumes "idle_ctrl m resp"
  shows "mmio_read m R_INT_STS w = (1, w)" "mmio_read m R_RESP31_0 w = (resp w, w)"
  using assms by (simp_all add: idle_ctrl_def)

lemma wait_not_inhibit_idle:
  assumes "idle_ctrl m resp"
  shows "wait_not_inhibit m w = (ok (), w)"
proof -
  obtain p where "mmio_read m R_PRESENT_STS w = (p, w)" "p AND 3 = 0"
    using assms unfolding idle_ctrl_def by blast
  then have "0 < k \<Longrightarrow> inhibit_loop m k w = (ok (), w)" for k
    by (cases k) (simp_all add: io_bind_def read_reg_def)
  then show ?thesis by (simp add: wait_not_inhibit_def)
qed

lemma wait_cmd_complete_idle:
  assumes "idle_ctrl m resp"
  shows "wait_cmd_complete m w = (ok (), mmio_write m R_INT_STS 1 w)"
proof -
  have "0 < k \<Longrightarrow> cmd_complete_loop m k w = (ok (), mmio_write m R_INT_STS 1 w)" for k
    by (cases k) (simp_all add: idle_ctrlD [OF assms] io_bind_def read_reg_def write_reg_def int_cmd_defs)
  then show ?thesis by (simp add: wait_cmd_complete_def)
qed

lemma issue_cmd_app:
  "issue_cmd m arg mode w = (ok (), mmio_write m R_XFER_MODE_AND_CMD mode (mmio_write m R_ARGUMENT arg w))"
  by (simp add: issue_cmd_def write_reg_def io_bind_def)

lemma cmd52_write_idle:
  assumes "idle_ctrl m resp"
  shows "cmd52_write_func m f r v w =
    (let w' = cmd_world m (cmd52_write_arg f r v) w
     in (if r5_failed (resp w') then err (-5) else ok (), w'))"
  by (simp add: cmd52_write_func_def io_bind_def wait_not_inhibit_idle [OF assms]
      wait_cmd_complete_idle [OF assms] issue_cmd_app cmd_world_def read_reg_def
      idle_ctrlD [OF assms] Let_def)

lemma cmd52_read_idle:
  assumes "idle_ctrl m resp"
  shows "cmd52_read_func m f r w =
    (let w' = cmd_world m (cmd52_read_arg f r) w
     in (if r5_failed (resp w') then err (-5) else ok (ucast (resp w' AND 0xFF)), w'))"
  by (simp add: cmd52_read_func_def io_bind_def wait_not_inhibit_idle [OF assms]
      wait_cmd_complete_idle [OF assms] issue_cmd_app cmd_world_def read_reg_def
      idle_ctrlD [OF assms] Let_def)

text \<open>The fields of a CMD52 argument: write flag, function, register address, data.\<close>

definition cmd52_decode :: "u32 \<Rightarrow> bool \<times> u32 \<times> u32 \<times> byte" where
  "cmd52_decode a = (bit a 31, drop_bit 28 a AND 7, drop_bit 9 a AND 0x1FFFF, ucast a)"

lemma cmd52_mask_words: "(7 :: u32) = mask 3" "(0x1FFFF :: u32) = mask 17"
  by (simp_all add: mask_eq_exp_minus_1)

lemma cmd52_decode_write:
  "cmd52_decode (cmd52_write_arg f r v) = (True, f AND 7, r AND 0x1FFFF, v)"
proof -
  have arg: "cmd52_write_arg f r v =
      flag 31 True OR push_bit 28 (f AND mask 3) OR push_bit 9 (r AND mask 17) OR ucast v"
    by (simp only: cmd52_write_arg_def flag_def if_True cmd52_mask_words)
  have v: "bit v n \<Longrightarrow> n < 8" for n using bit_imp_le_length [of v n] by simp
  have "drop_bit 28 (cmd52_write_arg f r v) AND mask 3 = f AND mask 3"
    unfolding arg by (rule bit_word_eqI) (auto simp: bit_simps dest: v)
  moreover have "drop_bit 9 (cmd52_write_arg f r v) AND mask 17 = r AND mask 17"
    unfolding arg by (rule bit_word_eqI) (auto simp: bit_simps dest: v)
  moreover have "(ucast (cmd52_write_arg f r v) :: byte) = v"
    unfolding arg by (rule bit_word_eqI) (auto simp: bit_simps)
  moreover have "bit (cmd52_write_arg f r v) 31"
    unfolding arg by (simp add: bit_simps)
  ultimately show ?thesis by (simp only: cmd52_decode_def cmd52_mask_words)
qed


text \<open>The arguments of the commands a computation issues, for worlds that record register writes.\<close>

lemma and_17bit: "r < 0x100 \<Longrightarrow> (0x100 + r) AND 0x1FFFF = 0x100 + (r :: u32)" "r < 0x100 \<Longrightarrow> r AND 0x1FFFF = r"
  "r < 0x100 \<Longrightarrow> (0x100 + r) AND 0xFF = r" "r < 0x100 \<Longrightarrow> 0x100 \<le> 0x100 + r \<and> 0x100 + r < 0x200"
  "r < 0x100 \<Longrightarrow> add_checked 0x100 r = ok (0x100 + r)"
proof -
  have m: "(0x1FFFF :: u32) = mask 17" "(0xFF :: u32) = mask 8"
    by (simp_all add: mask_eq_exp_minus_1)
  assume r: "r < 0x100"
  then have ru: "unat r < 256" by (simp add: word_less_nat_alt)
  then have s: "unat (0x100 + r) = 256 + unat r" by (simp add: unat_word_ariths)
  show "(0x100 + r) AND 0x1FFFF = 0x100 + r" "r AND 0x1FFFF = r"
    unfolding m take_bit_eq_mask [symmetric] word_unat_eq_iff using ru s
    by (simp_all add: unsigned_take_bit_eq take_bit_nat_eq_self_iff)
  show "(0x100 + r) AND 0xFF = r"
    unfolding m take_bit_eq_mask [symmetric] word_unat_eq_iff using ru s
    by (simp add: unsigned_take_bit_eq) (simp add: take_bit_eq_mod)
  show "0x100 \<le> 0x100 + r \<and> 0x100 + r < 0x200"
    using ru s by (simp add: word_le_nat_alt word_less_nat_alt)
  show "add_checked 0x100 r = ok (0x100 + r)" using ru by (simp add: add_checked_def)
qed


text \<open>A controller that records register writes; its R5 response is a parameter.\<close>

definition rec_mmio :: "u32 \<Rightarrow> (nat \<times> u32) list mmio" where
  "rec_mmio resp =
     \<lparr>mmio_read = (\<lambda>off w. (if off = R_INT_STS then 1 else if off = R_RESP31_0 then resp else 0, w)),
      mmio_write = (\<lambda>off v w. w @ [(off, v)]), mmio_sleep_ms = (\<lambda>n w. w)\<rparr>"

lemma idle_rec_mmio: "idle_ctrl (rec_mmio resp) (\<lambda>_. resp)"
  by (auto simp: idle_ctrl_def rec_mmio_def sdmmc_reg_defs)


text \<open>
  CMD52 does not see the error flags of the R5 response: bits 8, 9 and 11 (out of range, wrong
  function, general error) of the response word are the flags \<open>R5_ERROR_MASK\<close> names, but the mask is
  applied to the word shifted right by 16. A card that refuses an access with any of these flags
  (upper half zero) is reported as \<open>Ok\<close>; only bits 24, 25 and 27 would make it fail.
\<close>

theorem cmd52_ignores_r5_flags:
  assumes "idle_ctrl m (\<lambda>_. resp)" and "drop_bit 16 resp = 0"
  shows "fst (bk_read_byte_at_func m f reg w) = ok (ucast (resp AND 0xFF)) \<and>
     fst (bk_write_byte_at_func m f reg v w) = ok ()"
  using assms(2)
  by (simp add: bk_read_byte_at_func_def bk_write_byte_at_func_def cmd52_read_idle [OF assms(1)]
      cmd52_write_idle [OF assms(1)] r5_failed_def Let_def)

theorem cmd52_ignores_r5_flags_witness:
  "R5_ERROR_MASK AND 0x0B42 = R5_ERROR_MASK \<and>
   fst (bk_read_byte_at_func (rec_mmio 0x0B42) 1 0x12 []) = ok 0x42"
  using cmd52_ignores_r5_flags [OF idle_rec_mmio [of "0x0B42"], of 1 "0x12" "[]"]
  by (simp add: R5_ERROR_MASK_def R5_ERROR_def R5_FUNCTION_NUMBER_def R5_OUT_OF_RANGE_def)


section \<open>Clock\<close>

lemma clock_divisor_value:
  assumes "0 < unat clock_hz" "unat clock_hz \<le> 1000000000"
  shows "\<exists>d. clock_divisor clock_hz = ok d \<and>
    unat d = min 255 (max 1 ((375000000 + 2 * unat clock_hz - 1) div (2 * unat clock_hz)))"
proof -
  let ?c = "unat clock_hz"
  have two: "unat (2 * clock_hz) = 2 * ?c"
    using assms(2) by (simp add: unat_word_ariths)
  have sum: "unat (375000000 + 2 * clock_hz - 1) = 375000000 + 2 * ?c - 1"
  proof -
    have "unat (375000000 + 2 * clock_hz) = 375000000 + 2 * ?c"
      using assms(2) two by (simp add: unat_word_ariths(1))
    moreover from this have "375000000 + 2 * clock_hz \<noteq> 0" by (metis add_is_0 unat_0 zero_neq_numeral)
    ultimately show ?thesis by (metis unat_minus_one)
  qed
  have "2 * clock_hz \<noteq> 0" using two assms(1) by (metis mult_is_0 unat_0 less_numeral_extra(3) zero_neq_numeral)
  then have "clock_divisor clock_hz =
      ok (min 255 (max 1 ((375000000 + 2 * clock_hz - 1) div (2 * clock_hz))))"
    using assms(2) by (simp add: clock_divisor_def INT_CARD_CLK_HZ_def)
  moreover have "unat (min 255 (max 1 ((375000000 + 2 * clock_hz - 1) div (2 * clock_hz)))) =
      min 255 (max 1 ((375000000 + 2 * ?c - 1) div (2 * ?c)))"
    by (simp add: min_def max_def word_le_nat_alt unat_div sum [simplified] two)
  ultimately show ?thesis by blast
qed

text \<open>
  The SD clock never runs faster than requested as long as the divisor is not clamped, that is
  from 735295 Hz up; the enumeration clock of 400 kHz is below that: the divisor 469 it needs is
  clamped to 255, and the bus runs at 735294 Hz.
\<close>

theorem set_clock_frequency:
  assumes "735295 \<le> unat clock_hz" "unat clock_hz \<le> 1000000000"
  shows "(\<exists>d. clock_divisor clock_hz = ok d \<and> 375000000 div (2 * unat d) \<le> unat clock_hz) \<and>
     clock_divisor 400000 = ok 255 \<and> 375000000 div (2 * 255) = (735294 :: nat)"
proof -
  let ?c = "unat clock_hz"
  from clock_divisor_value [of clock_hz] assms obtain d where d: "clock_divisor clock_hz = ok d"
    and u: "unat d = min 255 (max 1 ((375000000 + 2 * ?c - 1) div (2 * ?c)))" by auto
  have q: "375000000 \<le> 2 * ?c * ((375000000 + 2 * ?c - 1) div (2 * ?c))"
  proof -
    have "375000000 + 2 * ?c - 1 < 2 * ?c * ((375000000 + 2 * ?c - 1) div (2 * ?c)) + 2 * ?c"
      using mod_less_divisor [of "2 * ?c" "375000000 + 2 * ?c - 1"] assms(1)
        mult_div_mod_eq [of "2 * ?c" "375000000 + 2 * ?c - 1"] by linarith
    then show ?thesis using assms(1) by linarith
  qed
  have "375000000 \<le> 2 * ?c * unat d"
  proof (cases "(375000000 + 2 * ?c - 1) div (2 * ?c) \<le> 255")
    case True
    then have "(375000000 + 2 * ?c - 1) div (2 * ?c) \<le> unat d" by (simp add: u)
    then have "2 * ?c * ((375000000 + 2 * ?c - 1) div (2 * ?c)) \<le> 2 * ?c * unat d" by simp
    with q show ?thesis by linarith
  next
    case False
    then have "unat d = 255" by (simp add: u)
    then show ?thesis using assms(1) by simp
  qed
  then have "375000000 div (2 * unat d) \<le> ?c * (2 * unat d) div (2 * unat d)"
    by (intro div_le_mono) (simp add: mult.commute mult.left_commute)
  moreover have "0 < unat d" by (simp add: u)
  ultimately have "375000000 div (2 * unat d) \<le> ?c" by simp
  moreover have "clock_divisor 400000 = ok 255"
    by (simp add: clock_divisor_def INT_CARD_CLK_HZ_def min_def max_def)
  ultimately show ?thesis using d by simp
qed

theorem set_clock_frequency_witness:
  "\<exists>d. clock_divisor 25000000 = ok d \<and> 375000000 div (2 * unat d) \<le> (25000000 :: nat)"
  using set_clock_frequency [of 25000000] by simp

section \<open>Block access follows the plan\<close>


end
