(* ===== verification/Cis.thy ===== *)
theory Cis
  imports Sdio_Ops
begin

text \<open>
  Reading and parsing the card information structure (\<open>driver/bsp/src/sdio/cis.rs\<close>) and the
  recognition of the chip from it (\<open>chip_ident.rs\<close>). Busy-wait delays have no effect on the
  model. A tuple pointer starts below 2^17 and moves by at most 257 per tuple for 256 tuples,
  so the additions of the parser never leave 32 bits.
\<close>

section \<open>Pointers\<close>

definition sdio_fbr_base :: "u8 \<Rightarrow> u32" where
  "sdio_fbr_base func_num = ucast func_num * 0x100"

definition SDIO_FBR_CIS :: u32 where "SDIO_FBR_CIS = 0x09"
definition CISTPL_MANFID :: u8 where "CISTPL_MANFID = 0x20"
definition CISTPL_END :: u8 where "CISTPL_END = 0xff"
definition CISTPL_NULL :: u8 where "CISTPL_NULL = 0x00"
definition SDIO_ADDR_17BIT_MASK :: u32 where "SDIO_ADDR_17BIT_MASK = 0x1FFFF"

lemmas cis_consts = SDIO_FBR_CIS_def CISTPL_MANFID_def CISTPL_END_def CISTPL_NULL_def
  SDIO_ADDR_17BIT_MASK_def

definition read_ptr24 :: "'w sdio_ops \<Rightarrow> u32 \<Rightarrow> ('w, u32) io" where
  "read_ptr24 ops base =
     io_bind (ops_read_byte ops base) (\<lambda>b0.
     io_bind (ops_read_byte ops (base + 1)) (\<lambda>b1.
     io_bind (ops_read_byte ops (base + 2)) (\<lambda>b2.
       io_return (ucast b0 OR push_bit 8 (ucast b1) OR push_bit 16 (ucast b2)))))"

definition read_cccr_cis_ptr :: "'w sdio_ops \<Rightarrow> ('w, u32) io" where
  "read_cccr_cis_ptr ops = read_ptr24 ops SDIO_FBR_CIS"

definition read_fbr_cis_ptr :: "'w sdio_ops \<Rightarrow> u8 \<Rightarrow> ('w, u32) io" where
  "read_fbr_cis_ptr ops func_num = read_ptr24 ops (sdio_fbr_base func_num + SDIO_FBR_CIS)"

section \<open>Parsing\<close>

definition MAX_TUPLES :: nat where "MAX_TUPLES = 256"

text \<open>The loop over at most \<open>k\<close> more tuples; \<open>rd\<close> reads one byte of the CIS.\<close>

fun cis_loop :: "(u32 \<Rightarrow> ('w, byte) io) \<Rightarrow> nat \<Rightarrow> u32 \<Rightarrow> ('w, (u16 \<times> u16) option) io" where
  "cis_loop rd 0 ptr = io_return None"
| "cis_loop rd (Suc k) ptr =
     io_bind (rd ptr) (\<lambda>tpl_code.
       if tpl_code = CISTPL_END then io_return None
       else if tpl_code = CISTPL_NULL then cis_loop rd k (ptr + 1)
       else
         io_bind (rd (ptr + 1)) (\<lambda>tpl_link.
           if tpl_link = CISTPL_END then io_return None
           else if tpl_code = CISTPL_MANFID \<and> unat tpl_link \<ge> 4 then
             io_bind (rd (ptr + 2)) (\<lambda>d0.
             io_bind (rd (ptr + 3)) (\<lambda>d1.
             io_bind (rd (ptr + 4)) (\<lambda>d2.
             io_bind (rd (ptr + 5)) (\<lambda>d3.
               io_return (Some (from_le16 d0 d1, from_le16 d2 d3))))))
           else cis_loop rd k (ptr + 2 + ucast tpl_link)))"

definition parse_cis_for_manfid :: "'w sdio_ops \<Rightarrow> u32 \<Rightarrow> ('w, (u16 \<times> u16) option) io" where
  "parse_cis_for_manfid ops cis_ptr =
     cis_loop (ops_read_byte ops) MAX_TUPLES (cis_ptr AND SDIO_ADDR_17BIT_MASK)"

definition parse_cis_for_manfid_at_func ::
  "'w sdio_ops \<Rightarrow> u8 \<Rightarrow> u32 \<Rightarrow> ('w, (u16 \<times> u16) option) io" where
  "parse_cis_for_manfid_at_func ops func_num cis_ptr =
     cis_loop (ops_read_byte_at_func ops func_num) MAX_TUPLES (cis_ptr AND SDIO_ADDR_17BIT_MASK)"

fun dump_loop :: "(u32 \<Rightarrow> ('w, byte) io) \<Rightarrow> nat \<Rightarrow> u32 \<Rightarrow> ('w, unit) io" where
  "dump_loop rd 0 addr = io_return ()"
| "dump_loop rd (Suc k) addr = io_bind (io_unwrap_or (rd addr) 0xFF) (\<lambda>_. dump_loop rd k (addr + 1))"

definition dump_cis_raw :: "'w sdio_ops \<Rightarrow> u32 \<Rightarrow> nat \<Rightarrow> ('w, unit) io" where
  "dump_cis_raw ops base n = dump_loop (ops_read_byte ops) (min n 32) (base AND SDIO_ADDR_17BIT_MASK)"

definition dump_cis_raw_at_func :: "'w sdio_ops \<Rightarrow> u8 \<Rightarrow> u32 \<Rightarrow> nat \<Rightarrow> ('w, unit) io" where
  "dump_cis_raw_at_func ops func_num base n =
     dump_loop (ops_read_byte_at_func ops func_num) (min n 32) (base AND SDIO_ADDR_17BIT_MASK)"

definition read_vendor_device :: "'w sdio_ops \<Rightarrow> u8 \<Rightarrow> ('w, u16 \<times> u16) io" where
  "read_vendor_device ops func_num =
     io_bind (read_cccr_cis_ptr ops) (\<lambda>cis_ptr_cccr.
     io_bind (if cis_ptr_cccr \<noteq> 0 \<and> cis_ptr_cccr \<noteq> 0xFFFFFF
              then parse_cis_for_manfid ops cis_ptr_cccr else io_return None) (\<lambda>ids1.
       case ids1 of
         Some ids \<Rightarrow> io_return ids
       | None \<Rightarrow>
           io_bind (read_fbr_cis_ptr ops func_num) (\<lambda>cis_ptr_fbr.
           io_bind (parse_cis_for_manfid ops cis_ptr_fbr) (\<lambda>ids2.
             case ids2 of
               Some ids \<Rightarrow> io_return ids
             | None \<Rightarrow>
                 io_bind (dump_cis_raw ops cis_ptr_cccr 16) (\<lambda>_.
                 io_bind (dump_cis_raw ops cis_ptr_fbr 16) (\<lambda>_. io_fail (Errno (-2))))))))"

definition identify_chip_from_cis :: "'w sdio_ops \<Rightarrow> u8 \<Rightarrow> ('w, product_id) io" where
  "identify_chip_from_cis ops func_num =
     io_bind (read_vendor_device ops func_num) (\<lambda>(vid, did).
       if \<not> is_known_aic_sdio vid did then io_fail (Errno (-1))
       else io_lift (ok_or (aicwf_sdio_chipmatch vid did) (-1)))"

definition probe_chip_type :: "'w sdio_ops \<Rightarrow> ('w, product_id) io" where
  "probe_chip_type ops =
     io_bind (io_unwrap_or (ops_read_byte ops 0x02) 0) (\<lambda>io_enable.
     io_bind (io_unwrap_or (ops_write_byte ops 0x02 (io_enable OR 0x04)) ()) (\<lambda>_.
     io_bind (io_unwrap_or (ops_read_byte ops 0x03) 0) (\<lambda>io_ready.
     io_bind (io_unwrap_or (ops_write_byte ops 0x02 io_enable) ()) (\<lambda>_.
       if io_ready AND 0x04 \<noteq> 0 \<or> io_ready AND 0x10 \<noteq> 0 then io_return Aic8800Dc
       else
         io_bind (io_unwrap_or (ops_read_byte ops 0xF0) 0xFF) (\<lambda>f0_f0.
         io_bind (io_unwrap_or (ops_read_byte ops 0xF1) 0xFF) (\<lambda>f0_f1.
         io_bind (io_unwrap_or (ops_read_byte ops 0xF2) 0xFF) (\<lambda>f0_f2.
           if f0_f0 \<noteq> 0xFF \<or> f0_f1 \<noteq> 0xFF \<or> f0_f2 \<noteq> 0xFF then io_return Aic8800D80
           else io_return Aic8800Dc)))))))"

section \<open>The CIS as a list of tuples\<close>

datatype cis_item = CisNull | CisTuple u8 "byte list"

fun item_ok :: "cis_item \<Rightarrow> bool" where
  "item_ok CisNull = True"
| "item_ok (CisTuple code d) \<longleftrightarrow> code \<noteq> CISTPL_NULL \<and> code \<noteq> CISTPL_END \<and> length d < 255"

fun item_bytes :: "cis_item \<Rightarrow> byte list" where
  "item_bytes CisNull = [CISTPL_NULL]"
| "item_bytes (CisTuple code d) = code # of_nat (length d) # d"

fun first_manfid :: "cis_item list \<Rightarrow> (u16 \<times> u16) option" where
  "first_manfid [] = None"
| "first_manfid (CisNull # xs) = first_manfid xs"
| "first_manfid (CisTuple code d # xs) =
     (if code = CISTPL_MANFID \<and> 4 \<le> length d
      then Some (from_le16 (d ! 0) (d ! 1), from_le16 (d ! 2) (d ! 3)) else first_manfid xs)"

definition cis_bytes :: "cis_item list \<Rightarrow> byte list" where
  "cis_bytes xs = concat (map item_bytes xs) @ [CISTPL_END]"

definition mem_at :: "(u32 \<Rightarrow> byte) \<Rightarrow> u32 \<Rightarrow> byte list \<Rightarrow> bool" where
  "mem_at mem p bs \<longleftrightarrow> (\<forall>i<length bs. mem (p + of_nat i) = bs ! i)"

lemma mem_at_Cons: "mem_at mem p (b # bs) \<longleftrightarrow> mem p = b \<and> mem_at mem (p + 1) bs"
proof -
  have "(\<forall>i<Suc (length bs). mem (p + of_nat i) = (b # bs) ! i) \<longleftrightarrow>
      mem p = b \<and> (\<forall>i<length bs. mem (p + 1 + of_nat i) = bs ! i)"
    unfolding All_less_Suc2 by (simp add: add.assoc)
  then show ?thesis by (simp add: mem_at_def)
qed

lemma mem_at_append:
  "mem_at mem p (xs @ ys) \<longleftrightarrow> mem_at mem p xs \<and> mem_at mem (p + of_nat (length xs)) ys"
  by (induction xs arbitrary: p) (simp_all add: mem_at_Cons add.assoc, simp add: mem_at_def)

lemma mem_at_4:
  assumes "mem_at mem p d" "4 \<le> length d"
  shows "mem p = d ! 0" "mem (p + 1) = d ! 1" "mem (p + 2) = d ! 2" "mem (p + 3) = d ! 3"
proof -
  obtain a b c e r where "d = a # b # c # e # r"
    using assms(2) by (auto simp: numeral_eq_Suc Suc_le_length_iff)
  with assms(1) show "mem p = d ! 0" "mem (p + 1) = d ! 1" "mem (p + 2) = d ! 2" "mem (p + 3) = d ! 3"
    by (simp_all add: mem_at_Cons add.assoc)
qed

lemma cis_loop_first_manfid:
  assumes "\<And>a w. rd a w = (ok (mem a), w)"
    and "mem_at mem p (cis_bytes xs)" and "list_all item_ok xs" and "length xs < k"
  shows "cis_loop rd k p w = (ok (first_manfid xs), w)"
  using assms(2-4)
proof (induction xs arbitrary: p k)
  case Nil
  then obtain k' where "k = Suc k'" by (cases k) auto
  with Nil show ?case by (simp add: cis_bytes_def mem_at_Cons io_bind_def assms(1))
next
  case (Cons x xs)
  then obtain k' where k: "k = Suc k'" "length xs < k'" by (cases k) auto
  show ?case
  proof (cases x)
    case CisNull
    with Cons.prems have "mem p = CISTPL_NULL" "mem_at mem (p + 1) (cis_bytes xs)"
      by (simp_all add: cis_bytes_def mem_at_Cons)
    with Cons.IH [of "p + 1" k'] Cons.prems k CisNull show ?thesis
      by (simp add: io_bind_def assms(1) CISTPL_NULL_def CISTPL_END_def)
  next
    case (CisTuple code d)
    with Cons.prems have c: "mem p = code" "mem (p + 1) = of_nat (length d)" "mem_at mem (p + 2) d"
      "mem_at mem (p + 2 + of_nat (length d)) (cis_bytes xs)"
      and code: "code \<noteq> CISTPL_NULL" "code \<noteq> CISTPL_END" "length d < 255"
      by (simp_all add: cis_bytes_def mem_at_Cons mem_at_append add.assoc)
    have u: "unat (of_nat (length d) :: byte) = length d" using code(3) by (simp add: unat_of_nat)
    then have link: "(of_nat (length d) :: byte) \<noteq> CISTPL_END"
      "(ucast (of_nat (length d) :: byte) :: u32) = of_nat (length d)"
      using code(3) by (auto simp: CISTPL_END_def word_unat_eq_iff) (metis of_nat_unat u)
    show ?thesis
    proof (cases "code = CISTPL_MANFID \<and> 4 \<le> length d")
      case True
      then have "mem (p + 2) = d ! 0" "mem (p + 3) = d ! 1" "mem (p + 4) = d ! 2" "mem (p + 5) = d ! 3"
        using mem_at_4 [OF c(3)] by (simp_all add: add.assoc)
      with True CisTuple c code link u k show ?thesis
        by (simp add: io_bind_def assms(1) CISTPL_MANFID_def CISTPL_NULL_def CISTPL_END_def)
    next
      case False
      with Cons.IH [OF c(4), of k'] Cons.prems CisTuple c code link u k show ?thesis
        by (auto simp: io_bind_def assms(1))
    qed
  qed
qed

text \<open>
  (C35) Recognition from the CIS: for a card whose common CIS (pointer in CCCR 0x09 to 0x0B,
  cut to 17 bits) is any sequence of fewer than 256 tuples ended by 0xFF, the parser finds the
  first \<open>CISTPL_MANFID\<close> with at least four bytes, wherever it stands, and the chip is the one
  \<open>chipmatch\<close> names for its vendor and device id, or \<open>Err(-1)\<close> for a foreign card.
\<close>

theorem identify_chip_from_common_cis:
  fixes mem :: "u32 \<Rightarrow> byte"
  assumes rd: "\<forall>a w. ops_read_byte ops a w = (ok (mem a), w)"
    and p: "p = ucast (mem 9) OR push_bit 8 (ucast (mem 10)) OR push_bit 16 (ucast (mem 11))"
    and "p \<noteq> 0" and "p \<noteq> 0xFFFFFF"
    and "mem_at mem (p AND 0x1FFFF) (cis_bytes items)" and "list_all item_ok items"
    and "length items < 256" and "first_manfid items = Some (vid, did)"
  shows "identify_chip_from_cis ops func_num w =
    (case chipmatch vid did of Some pid \<Rightarrow> (ok pid, w) | None \<Rightarrow> (err (-1), w))"
proof -
  have r: "ops_read_byte ops a w = (ok (mem a), w)" for a w using rd by blast
  have "read_cccr_cis_ptr ops w = (ok p, w)"
    by (simp add: read_cccr_cis_ptr_def read_ptr24_def io_bind_def r SDIO_FBR_CIS_def p)
  moreover have "parse_cis_for_manfid ops p w = (ok (Some (vid, did)), w)"
    unfolding parse_cis_for_manfid_def SDIO_ADDR_17BIT_MASK_def MAX_TUPLES_def
    using cis_loop_first_manfid [of "ops_read_byte ops" mem, OF r assms(5,6,7)] assms(8) by simp
  ultimately have "read_vendor_device ops func_num w = (ok (vid, did), w)"
    using assms(3,4) by (simp add: read_vendor_device_def io_bind_def)
  then show ?thesis
    by (auto simp: identify_chip_from_cis_def io_bind_def known_iff_chipmatch aicwf_sdio_chipmatch_def
        split: option.splits)
qed


text \<open>A card whose common CIS at 0x1000 holds a null tuple, a tuple 0x21 and the id of the 8801.\<close>

definition sample_cis :: "cis_item list" where
  "sample_cis = [CisNull, CisTuple 0x21 [1, 2], CisTuple 0x20 [0x49, 0x54, 0x45, 0x01]]"

definition sample_mem :: "u32 \<Rightarrow> byte" where
  "sample_mem a =
     (if a = 10 then 0x10
      else if 0x1000 \<le> a \<and> a < 0x1010 then (cis_bytes sample_cis @ replicate 16 0) ! unat (a - 0x1000)
      else 0)"

definition sample_ops :: "unit sdio_ops" where
  "sample_ops =
     CisReadOps \<lparr>host_read_byte = (\<lambda>a w. (ok (sample_mem a), w)), host_write_byte = (\<lambda>a v. io_return ()),
       host_read_byte_f0 = (\<lambda>a w. (ok (sample_mem a), w)),
       host_read_byte_at_func = (\<lambda>f a. io_return 0), host_write_byte_at_func = (\<lambda>f a v. io_return ()),
       host_read_block = (\<lambda>a c w. (ok 0, c, w)), host_write_block = (\<lambda>a c. io_return 0),
       host_delay_us = (\<lambda>n w. w)\<rparr>"

theorem identify_chip_from_common_cis_witness:
  "identify_chip_from_cis sample_ops 1 () = (ok Aic8801, ())"
proof -
  have b: "cis_bytes sample_cis = [0, 0x21, 2, 1, 2, 0x20, 4, 0x49, 0x54, 0x45, 0x01, 0xff]"
    by (simp add: cis_bytes_def sample_cis_def cis_consts)
  have "mem_at sample_mem 0x1000 (cis_bytes sample_cis)"
    unfolding b by (simp add: mem_at_Cons) (simp add: mem_at_def sample_mem_def b)
  moreover have "first_manfid sample_cis = Some (0x5449, 0x0145)"
    by (simp add: sample_cis_def CISTPL_MANFID_def from_le16_def)
  moreover have "list_all item_ok sample_cis" "length sample_cis < 256"
    by (simp_all add: sample_cis_def cis_consts)
  moreover have "chipmatch 0x5449 0x0145 = Some Aic8801" by (simp add: chipmatch_def sdio_ids_defs)
  ultimately show ?thesis
    using identify_chip_from_common_cis [where ops = sample_ops and mem = sample_mem and p = "0x1000"
        and items = sample_cis and vid = "0x5449" and did = "0x0145" and func_num = 1 and w = "()"]
    by (simp add: sample_ops_def CisReadOps_def sample_mem_def)
qed

end
