(* ===== verification/Fw_Load.thy ===== *)
theory Fw_Load
  imports Cmd
begin

text \<open>
  Firmware download (\<open>driver/bsp/src/fw_load.rs\<close>): the registry of firmware images, the \<open>DBG_*\<close>
  messages, the request/confirm exchanges over the command manager, and the block upload. The
  platform's send function, the receive poll and the waits are functions on the world \<open>'w\<close>;
  the state of an exchange is the command manager with the world.
\<close>

section \<open>Constants\<close>

definition TASK_DBG :: u16 where "TASK_DBG = 1"
definition DBG_MEM_READ_REQ :: u16 where "DBG_MEM_READ_REQ = 1024"
definition DBG_MEM_READ_CFM :: u16 where "DBG_MEM_READ_CFM = 1025"
definition DBG_MEM_WRITE_REQ :: u16 where "DBG_MEM_WRITE_REQ = 1026"
definition DBG_MEM_WRITE_CFM :: u16 where "DBG_MEM_WRITE_CFM = 1027"
definition DBG_MEM_BLOCK_WRITE_REQ :: u16 where "DBG_MEM_BLOCK_WRITE_REQ = 1034"
definition DBG_MEM_BLOCK_WRITE_CFM :: u16 where "DBG_MEM_BLOCK_WRITE_CFM = 1035"
definition DBG_START_APP_REQ :: u16 where "DBG_START_APP_REQ = 1036"
definition DBG_START_APP_CFM :: u16 where "DBG_START_APP_CFM = 1037"
definition DBG_MEM_MASK_WRITE_REQ :: u16 where "DBG_MEM_MASK_WRITE_REQ = 1038"
definition DBG_MEM_MASK_WRITE_CFM :: u16 where "DBG_MEM_MASK_WRITE_CFM = 1039"
definition RAM_FMAC_FW_ADDR :: u32 where "RAM_FMAC_FW_ADDR = 0x00120000"
definition RAM_FMAC_FW_PATCH_ADDR :: u32 where "RAM_FMAC_FW_PATCH_ADDR = 0x00190000"
definition HOST_START_APP_AUTO :: u32 where "HOST_START_APP_AUTO = 1"
definition CHIP_REV_MEM_ADDR :: u32 where "CHIP_REV_MEM_ADDR = 0x40500000"

section \<open>Firmware registry\<close>

type_synonym fw_store = "(string \<times> byte list) option list"

definition MAX_FIRMWARE_SLOTS :: nat where "MAX_FIRMWARE_SLOTS = 12"

definition fw_store_init :: fw_store where
  "fw_store_init = replicate MAX_FIRMWARE_SLOTS None"

definition set_wifi_firmware :: "string \<Rightarrow> byte list \<Rightarrow> fw_store \<Rightarrow> fw_store" where
  "set_wifi_firmware name dat store =
     (case find_slot (\<lambda>s. s = None) store of None \<Rightarrow> store | Some i \<Rightarrow> store[i := Some (name, dat)])"

fun get_wifi_firmware :: "string \<Rightarrow> fw_store \<Rightarrow> byte list option" where
  "get_wifi_firmware name [] = None"
| "get_wifi_firmware name (s # ss) =
     (case s of Some (n, d) \<Rightarrow> if n = name then Some d else get_wifi_firmware name ss
              | None \<Rightarrow> get_wifi_firmware name ss)"

text \<open>\<open>embedded\<close> is \<open>firmware_data::get_firmware_by_name\<close>.\<close>

definition get_firmware_by_name ::
  "(string \<Rightarrow> byte list option) \<Rightarrow> fw_store \<Rightarrow> string \<Rightarrow> byte list option" where
  "get_firmware_by_name embedded store name =
     (case embedded name of Some d \<Rightarrow> Some d | None \<Rightarrow> get_wifi_firmware name store)"

section \<open>Messages\<close>

text \<open>\<open>msg.param[off..off+n].copy_from_slice(bytes)\<close>, inside the 1032 bytes of \<open>param\<close>.\<close>

definition put_param :: "nat \<Rightarrow> byte list \<Rightarrow> lmac_msg \<Rightarrow> lmac_msg" where
  "put_param off bs m =
     m\<lparr>m_param := take off (m_param m) @ bs @ drop (off + length bs) (m_param m)\<rparr>"

definition build_dbg_mem_read_req :: "u32 \<Rightarrow> lmac_msg" where
  "build_dbg_mem_read_req mem_addr =
     put_param 0 (le32 mem_addr) (LmacMsg_new DBG_MEM_READ_REQ TASK_DBG DRV_TASK_ID 4)"

definition parse_dbg_mem_read_cfm :: "byte list \<Rightarrow> u32 option" where
  "parse_dbg_mem_read_cfm param =
     (if length param < 8 then None else decode_le32 (take 4 (drop 4 param)))"

definition parse_dbg_mem_read_cfm_full :: "byte list \<Rightarrow> (u32 \<times> u32) option" where
  "parse_dbg_mem_read_cfm_full param =
     (if length param < 8 then None
      else Option.bind (decode_le32 (take 4 param)) (\<lambda>memaddr.
           map_option (Pair memaddr) (decode_le32 (take 4 (drop 4 param)))))"

definition parse_dbg_mem_read_cfm_with_addr :: "byte list \<Rightarrow> u32 \<Rightarrow> u32 option" where
  "parse_dbg_mem_read_cfm_with_addr param requested_addr =
     map_option (\<lambda>(first, second). if second = requested_addr then first else second)
       (parse_dbg_mem_read_cfm_full param)"

definition build_dbg_mem_write_req :: "u32 \<Rightarrow> u32 \<Rightarrow> lmac_msg" where
  "build_dbg_mem_write_req mem_addr mem_data =
     put_param 4 (le32 mem_data) (put_param 0 (le32 mem_addr)
       (LmacMsg_new DBG_MEM_WRITE_REQ TASK_DBG DRV_TASK_ID 8))"

definition build_dbg_mem_mask_write_req :: "u32 \<Rightarrow> u32 \<Rightarrow> u32 \<Rightarrow> lmac_msg" where
  "build_dbg_mem_mask_write_req mem_addr mem_mask mem_data =
     put_param 8 (le32 mem_data) (put_param 4 (le32 mem_mask) (put_param 0 (le32 mem_addr)
       (LmacMsg_new DBG_MEM_MASK_WRITE_REQ TASK_DBG DRV_TASK_ID 12)))"

definition build_dbg_mem_block_write_req :: "u32 \<Rightarrow> u32 \<Rightarrow> byte list \<Rightarrow> lmac_msg option" where
  "build_dbg_mem_block_write_req mem_addr mem_size mem_data =
     (let param_len = 8 + length mem_data in
      if LMAC_MSG_MAX_LEN < param_len then None
      else Some (put_param 8 mem_data (put_param 4 (le32 mem_size) (put_param 0 (le32 mem_addr)
             (LmacMsg_new DBG_MEM_BLOCK_WRITE_REQ TASK_DBG DRV_TASK_ID (of_nat param_len))))))"

definition build_dbg_start_app_req :: "u32 \<Rightarrow> u32 \<Rightarrow> lmac_msg" where
  "build_dbg_start_app_req boot_addr boot_type =
     put_param 4 (le32 boot_type) (put_param 0 (le32 boot_addr)
       (LmacMsg_new DBG_START_APP_REQ TASK_DBG DRV_TASK_ID 8))"

section \<open>Exchanges\<close>

definition push_cmd :: "u16 \<Rightarrow> (cmd_mgr \<times> 'w, nat) io" where
  "push_cmd cfm_id = (\<lambda>(m, w).
     case mgr_push cfm_id m of (t, m') \<Rightarrow> (ok_or t (-12), (m', w)))"

definition take_cfm_cmd :: "nat \<Rightarrow> byte list \<Rightarrow> (cmd_mgr \<times> 'w, nat \<times> byte list) io" where
  "take_cfm_cmd token out = (\<lambda>(m, w).
     case take_cfm token out m of (r, m') \<Rightarrow> (ok_or r (-5), (m', w)))"

text \<open>\<open>tx_fn\<close> sends a message, \<open>poll\<close> receives, \<open>idle\<close> waits a millisecond, \<open>delay\<close> spins.\<close>

definition send_dbg_mem_read ::
  "(lmac_msg \<Rightarrow> ('w, unit) io) \<Rightarrow> u32 \<Rightarrow> u32 \<Rightarrow> (cmd_mgr \<times> 'w \<Rightarrow> cmd_mgr \<times> 'w) \<Rightarrow> ('w \<Rightarrow> 'w) option
   \<Rightarrow> (nat \<Rightarrow> 'w \<Rightarrow> 'w) \<Rightarrow> ('w \<Rightarrow> 'w) \<Rightarrow> (cmd_mgr \<times> 'w, u32) io" where
  "send_dbg_mem_read tx_fn mem_addr timeout_ms poll after_delay delay idle =
     io_bind (push_cmd DBG_MEM_READ_CFM) (\<lambda>token.
     io_bind (on_snd (io_map_err (tx_fn (build_dbg_mem_read_req mem_addr)) (Errno (-5)))) (\<lambda>_.
     io_bind (on_snd (io_do (\<lambda>w. (case after_delay of None \<Rightarrow> delay 100 w | Some f \<Rightarrow> f (delay 100 w))))) (\<lambda>_.
     io_bind (wait_done token timeout_ms poll None idle) (\<lambda>_.
     io_bind (take_cfm_cmd token (replicate 16 0)) (\<lambda>(len, cfm_buf).
     io_bind (io_lift (slice_get 0 len cfm_buf)) (\<lambda>p.
       io_lift (ok_or (parse_dbg_mem_read_cfm_with_addr p mem_addr) (-5))))))))"

text \<open>The common form of the exchanges that wait for a confirmation and do not read it.\<close>

definition send_and_wait ::
  "lmac_msg \<Rightarrow> u16 \<Rightarrow> (lmac_msg \<Rightarrow> ('w, unit) io) \<Rightarrow> u32 \<Rightarrow> (cmd_mgr \<times> 'w \<Rightarrow> cmd_mgr \<times> 'w)
   \<Rightarrow> (u32 \<Rightarrow> 'w \<Rightarrow> 'w) option \<Rightarrow> ('w \<Rightarrow> 'w) \<Rightarrow> (cmd_mgr \<times> 'w, unit) io" where
  "send_and_wait msg cfm_id tx_fn timeout_ms poll tick idle =
     io_bind (push_cmd cfm_id) (\<lambda>token.
     io_bind (on_snd (io_map_err (tx_fn msg) (Errno (-5)))) (\<lambda>_.
       wait_done token timeout_ms poll tick idle))"

definition send_dbg_mem_write ::
  "(lmac_msg \<Rightarrow> ('w, unit) io) \<Rightarrow> u32 \<Rightarrow> u32 \<Rightarrow> u32 \<Rightarrow> (cmd_mgr \<times> 'w \<Rightarrow> cmd_mgr \<times> 'w)
   \<Rightarrow> (u32 \<Rightarrow> 'w \<Rightarrow> 'w) option \<Rightarrow> ('w \<Rightarrow> 'w) \<Rightarrow> (cmd_mgr \<times> 'w, unit) io" where
  "send_dbg_mem_write tx_fn mem_addr mem_data timeout_ms poll tick idle =
     send_and_wait (build_dbg_mem_write_req mem_addr mem_data) DBG_MEM_WRITE_CFM tx_fn timeout_ms poll tick idle"

definition send_dbg_mem_mask_write ::
  "(lmac_msg \<Rightarrow> ('w, unit) io) \<Rightarrow> u32 \<Rightarrow> u32 \<Rightarrow> u32 \<Rightarrow> u32 \<Rightarrow> (cmd_mgr \<times> 'w \<Rightarrow> cmd_mgr \<times> 'w)
   \<Rightarrow> ('w \<Rightarrow> 'w) \<Rightarrow> (cmd_mgr \<times> 'w, unit) io" where
  "send_dbg_mem_mask_write tx_fn mem_addr mem_mask mem_data timeout_ms poll idle =
     send_and_wait (build_dbg_mem_mask_write_req mem_addr mem_mask mem_data) DBG_MEM_MASK_WRITE_CFM
       tx_fn timeout_ms poll None idle"

definition fw_start_app ::
  "(lmac_msg \<Rightarrow> ('w, unit) io) \<Rightarrow> u32 \<Rightarrow> u32 \<Rightarrow> u32 \<Rightarrow> (cmd_mgr \<times> 'w \<Rightarrow> cmd_mgr \<times> 'w)
   \<Rightarrow> ('w \<Rightarrow> 'w) \<Rightarrow> (cmd_mgr \<times> 'w, unit) io" where
  "fw_start_app tx_fn boot_addr boot_type timeout_ms poll idle =
     send_and_wait (build_dbg_start_app_req boot_addr boot_type) DBG_START_APP_CFM
       tx_fn timeout_ms poll None idle"

section \<open>Block upload\<close>

definition UPLOAD_BLOCK :: nat where "UPLOAD_BLOCK = 1024"

text \<open>\<open>while off < data.len()\<close>; \<open>push_fn\<close> and \<open>wait_fn\<close> are the caller's closures.\<close>

function upload_loop ::
  "(lmac_msg \<Rightarrow> ('w, unit) io) \<Rightarrow> byte list \<Rightarrow> ('w \<Rightarrow> nat option \<times> 'w) \<Rightarrow> (nat \<Rightarrow> ('w, unit) io)
   \<Rightarrow> u32 \<Rightarrow> nat \<Rightarrow> ('w, unit) io" where
  "upload_loop tx_fn dat push_fn wait_fn addr off w =
     (if off < length dat then
        let len = min (length dat - off) UPLOAD_BLOCK;
            block = take len (drop off dat)
        in case build_dbg_mem_block_write_req addr (of_nat len) block of
             None \<Rightarrow> (err (-12), w)
           | Some msg \<Rightarrow>
               (case push_fn w of
                  (None, w1) \<Rightarrow> (err (-12), w1)
                | (Some token, w1) \<Rightarrow>
                    (case io_bind (io_map_err (tx_fn msg) (Errno (-5))) (\<lambda>_. wait_fn token) w1 of
                       (Inl e, w2) \<Rightarrow> (Inl e, w2)
                     | (Inr _, w2) \<Rightarrow>
                         (case add_checked addr (of_nat len) of
                            Inl e \<Rightarrow> (Inl e, w2)
                          | Inr addr' \<Rightarrow> upload_loop tx_fn dat push_fn wait_fn addr' (off + len) w2)))
      else (ok (), w))"
  by pat_completeness auto

termination
  by (relation "measure (\<lambda>(tx_fn, dat, push_fn, wait_fn, addr, off, w). length dat - off)")
    (auto simp: UPLOAD_BLOCK_def)

declare upload_loop.simps [simp del]

definition fw_upload_blocks ::
  "(lmac_msg \<Rightarrow> ('w, unit) io) \<Rightarrow> u32 \<Rightarrow> byte list \<Rightarrow> ('w \<Rightarrow> nat option \<times> 'w) \<Rightarrow> (nat \<Rightarrow> ('w, unit) io)
   \<Rightarrow> ('w, unit) io" where
  "fw_upload_blocks tx_fn mem_addr dat push_fn wait_fn = upload_loop tx_fn dat push_fn wait_fn mem_addr 0"


section \<open>The registry\<close>

lemma find_slot_prefix:
  "find_slot (\<lambda>s. s = None) (map Some xs @ replicate k None) = (if k = 0 then None else Some (length xs))"
  by (induction xs) (auto simp: find_slot_replicate)

lemma set_wifi_firmware_full: "set_wifi_firmware n d (map Some xs) = map Some xs"
  using find_slot_prefix [of xs 0] by (simp add: set_wifi_firmware_def)

lemma set_wifi_firmware_prefix:
  "set_wifi_firmware n d (map Some xs @ None # replicate k None) = map Some (xs @ [(n, d)]) @ replicate k None"
  using find_slot_prefix [of xs "Suc k"] by (simp add: set_wifi_firmware_def list_update_append)

lemma set_wifi_firmware_fold:
  "fold (\<lambda>(n, d). set_wifi_firmware n d) regs (map Some xs @ replicate k None) =
     map Some (xs @ take k regs) @ replicate (k - length regs) None"
proof (induction regs arbitrary: xs k)
  case (Cons r regs)
  obtain n d where r: "r = (n, d)" by fastforce
  show ?case
  proof (cases k)
    case 0
    then show ?thesis using Cons.IH [of xs 0] r by (simp add: set_wifi_firmware_full)
  next
    case (Suc k')
    then show ?thesis using Cons.IH [of "xs @ [(n, d)]" k'] set_wifi_firmware_prefix [of n d xs k'] r
      by simp
  qed
qed simp

lemma get_wifi_firmware_prefix: "get_wifi_firmware name (map Some xs @ replicate k None) = map_of xs name"
proof (induction xs)
  case Nil
  show ?case by (induction k) simp_all
qed auto

text \<open>
  The firmware registry: after any sequence of registrations, a name is bound to the data of
  its first registration among the first twelve; a later registration of the same name, and
  every registration after the twelfth, has no effect.
\<close>

theorem fw_registry_first_wins:
  "get_wifi_firmware name (fold (\<lambda>(n, d). set_wifi_firmware n d) regs fw_store_init) =
     map_of (take 12 regs) name"
  using set_wifi_firmware_fold [of regs "[]" 12] get_wifi_firmware_prefix
  by (simp add: fw_store_init_def MAX_FIRMWARE_SLOTS_def)

section \<open>Memory reads\<close>

text \<open>
  The confirmation of a memory read yields the data word in both orders a boot ROM may use,
  address first or data first, also when data and address are the same word.
\<close>

theorem mem_read_cfm_either_order:
  "parse_dbg_mem_read_cfm_with_addr (le32 a @ le32 d @ rest) a = Some d \<and>
   parse_dbg_mem_read_cfm_with_addr (le32 d @ le32 a @ rest) a = Some d \<and>
   (length p < 8 \<longleftrightarrow> parse_dbg_mem_read_cfm_with_addr p a = None)"
proof -
  have *: "parse_dbg_mem_read_cfm_full (le32 x @ le32 y @ rest) = Some (x, y)" for x y
    using le32_codec.dec_enc [of x] le32_codec.dec_enc [of y]
    by (simp add: parse_dbg_mem_read_cfm_full_def)
  have "parse_dbg_mem_read_cfm_full p \<noteq> None" if len: "8 \<le> length p"
  proof -
    obtain x0 x1 x2 x3 x4 x5 x6 x7 r where "p = x0 # x1 # x2 # x3 # x4 # x5 # x6 # x7 # r"
      using len by (rule split8)
    then show ?thesis by (simp add: parse_dbg_mem_read_cfm_full_def)
  qed
  then have "length p < 8 \<longleftrightarrow> parse_dbg_mem_read_cfm_with_addr p a = None"
    by (auto simp: parse_dbg_mem_read_cfm_with_addr_def parse_dbg_mem_read_cfm_full_def not_less)
  then show ?thesis by (simp add: parse_dbg_mem_read_cfm_with_addr_def *)
qed

section \<open>The upload\<close>

text \<open>What the chip does with a block-write message: write the data to its memory.\<close>

definition write_mem :: "nat \<Rightarrow> byte list \<Rightarrow> (nat \<Rightarrow> byte) \<Rightarrow> nat \<Rightarrow> byte" where
  "write_mem a bs mem = (\<lambda>x. if a \<le> x \<and> x < a + length bs then bs ! (x - a) else mem x)"

definition chip_apply :: "lmac_msg \<Rightarrow> (nat \<Rightarrow> byte) \<Rightarrow> nat \<Rightarrow> byte" where
  "chip_apply msg mem =
     (case (decode_le32 (take 4 (m_param msg)), decode_le32 (take 4 (drop 4 (m_param msg)))) of
        (Some a, Some n) \<Rightarrow> write_mem (unat a) (take (unat n) (drop 8 (m_param msg))) mem
      | _ \<Rightarrow> mem)"

lemma write_mem_append: "write_mem (a + length xs) ys (write_mem a xs mem) = write_mem a (xs @ ys) mem"
  by (auto simp: write_mem_def nth_append fun_eq_iff diff_diff_left)

lemma write_mem_Nil [simp]: "write_mem a [] mem = mem"
  by (auto simp: write_mem_def fun_eq_iff)

lemma block_write_msg:
  assumes "length block \<le> 1024"
  shows "\<exists>msg. build_dbg_mem_block_write_req addr (of_nat (length block)) block = Some msg \<and>
    unat (h_param_len (m_header msg)) = 8 + length block \<and>
    h_id (m_header msg) = DBG_MEM_BLOCK_WRITE_REQ \<and> length (m_param msg) = LMAC_MSG_MAX_LEN \<and>
    (\<forall>mem. chip_apply msg mem = write_mem (unat addr) block mem)"
proof -
  define p where "p = le32 addr @ le32 (of_nat (length block)) @ block @ replicate (1024 - length block) 0"
  have "build_dbg_mem_block_write_req addr (of_nat (length block)) block =
      Some ((LmacMsg_new DBG_MEM_BLOCK_WRITE_REQ TASK_DBG DRV_TASK_ID (of_nat (8 + length block)))\<lparr>m_param := p\<rparr>)"
    using assms by (simp add: build_dbg_mem_block_write_req_def LMAC_MSG_MAX_LEN_def put_param_def
        LmacMsg_new_def p_def)
  moreover have "unat (of_nat (8 + length block) :: u16) = 8 + length block"
    "unat (of_nat (length block) :: u32) = length block"
    using assms by (simp_all add: unat_of_nat take_bit_nat_eq_self del: of_nat_add)
  ultimately show ?thesis
    using le32_codec.dec_enc [of addr] le32_codec.dec_enc [of "of_nat (length block)"] assms
    by (simp add: LmacMsg_new_def chip_apply_def p_def LMAC_MSG_MAX_LEN_def del: of_nat_add)
qed

text \<open>
  A chip that takes every message and confirms it; \<open>mem\<close> reads its memory from the world.
\<close>

definition chip_law ::
  "('w \<Rightarrow> nat \<Rightarrow> byte) \<Rightarrow> (lmac_msg \<Rightarrow> ('w, unit) io) \<Rightarrow> ('w \<Rightarrow> nat option \<times> 'w) \<Rightarrow> (nat \<Rightarrow> ('w, unit) io) \<Rightarrow> bool" where
  "chip_law mem tx_fn push_fn wait_fn \<longleftrightarrow>
     (\<forall>msg w. \<exists>w'. tx_fn msg w = (ok (), w') \<and> mem w' = chip_apply msg (mem w)) \<and>
     (\<forall>w. \<exists>t w'. push_fn w = (Some t, w') \<and> mem w' = mem w) \<and>
     (\<forall>t w. \<exists>w'. wait_fn t w = (ok (), w') \<and> mem w' = mem w)"

lemma upload_loop_chip:
  assumes "chip_law mem tx_fn push_fn wait_fn" and "unat addr + (length dat - off) < 2 ^ 32"
    and "off \<le> length dat"
  shows "\<exists>w'. upload_loop tx_fn dat push_fn wait_fn addr off w = (ok (), w') \<and>
     mem w' = write_mem (unat addr) (drop off dat) (mem w)"
  using assms(2,3)
proof (induction "length dat - off" arbitrary: addr off w rule: less_induct)
  case less
  show ?case
  proof (cases "off < length dat")
    case False
    then show ?thesis by (subst upload_loop.simps) simp
  next
    case True
    define len where "len = min (length dat - off) UPLOAD_BLOCK"
    define block where "block = take len (drop off dat)"
    have len: "0 < len" "len \<le> 1024" "off + len \<le> length dat" "length block = len"
      using True by (auto simp: len_def block_def UPLOAD_BLOCK_def)
    obtain msg where msg: "build_dbg_mem_block_write_req addr (of_nat len) block = Some msg"
      "\<forall>mem. chip_apply msg mem = write_mem (unat addr) block mem"
      using block_write_msg [of block addr] len by auto
    from assms(1) obtain t w1 where p: "push_fn w = (Some t, w1)" "mem w1 = mem w"
      unfolding chip_law_def by blast
    from assms(1) obtain w2 where x: "tx_fn msg w1 = (ok (), w2)" "mem w2 = chip_apply msg (mem w1)"
      unfolding chip_law_def by blast
    from assms(1) obtain w3 where wt: "wait_fn t w2 = (ok (), w3)" "mem w3 = mem w2"
      unfolding chip_law_def by blast
    have u: "unat (of_nat len :: u32) = len" using len(2) by (simp add: unat_of_nat take_bit_nat_eq_self)
    then have a: "add_checked addr (of_nat len) = ok (addr + of_nat len)"
      using less.prems len(3) by (simp add: add_checked_def)
    then have ua: "unat (addr + of_nat len) = unat addr + len" using add_checked_ok u by metis
    have step: "upload_loop tx_fn dat push_fn wait_fn addr off w =
        upload_loop tx_fn dat push_fn wait_fn (addr + of_nat len) (off + len) w3"
      using True msg(1) p(1) x(1) wt(1) a
      by (subst upload_loop.simps)
        (simp add: Let_def len_def [symmetric] block_def [symmetric] io_bind_def io_map_err_def)
    have "length dat - (off + len) < length dat - off" using len by simp
    from less.hyps [OF this, of "addr + of_nat len" w3] less.prems len ua obtain w' where
      "upload_loop tx_fn dat push_fn wait_fn (addr + of_nat len) (off + len) w3 = (ok (), w')"
      "mem w' = write_mem (unat addr + len) (drop (off + len) dat) (mem w3)" by auto
    moreover have "write_mem (unat addr + len) (drop (off + len) dat) (mem w3) =
        write_mem (unat addr) (drop off dat) (mem w)"
      using write_mem_append [of "unat addr" block "drop (off + len) dat" "mem w"] len(4)
      by (simp add: wt(2) x(2) p(2) msg(2) block_def)
        (metis append_take_drop_id drop_drop add.commute)
    ultimately show ?thesis using step by auto
  qed
qed




section \<open>What the exchanges do to the slots\<close>

text \<open>
  \<open>occupied\<close> counts the slots in use, done or not. Confirmations never change it; only
  \<open>take_cfm\<close> and \<open>complete_timeout\<close> free a slot.
\<close>

definition occupied :: "cmd_mgr \<Rightarrow> nat" where
  "occupied m = length (filter (\<lambda>s. s \<noteq> None) (slots m))"

definition mgr_frame :: "cmd_mgr \<Rightarrow> cmd_mgr \<Rightarrow> bool" where
  "mgr_frame m m' \<longleftrightarrow> mgr_wf m' \<and> occupied m' = occupied m \<and> mgr_state m' = mgr_state m"

lemma mgr_frame_refl: "mgr_wf m \<Longrightarrow> mgr_frame m m"
  by (simp add: mgr_frame_def)

lemma mgr_frame_trans: "mgr_frame m m1 \<Longrightarrow> mgr_frame m1 m2 \<Longrightarrow> mgr_frame m m2"
  by (simp add: mgr_frame_def)

lemma filter_update_length:
  assumes "i < length xs"
  shows "length (filter P (xs[i := x])) + (if P (xs ! i) then 1 else 0) =
     length (filter P xs) + (if P x then 1 else 0)"
proof -
  have "length (filter P xs) =
      length (filter P (take i xs)) + (if P (xs ! i) then 1 else 0) + length (filter P (drop (Suc i) xs))"
    by (subst id_take_nth_drop [OF assms]) simp
  then show ?thesis using assms by (simp add: upd_conv_take_nth_drop)
qed

lemma on_cfm_frame:
  assumes "mgr_wf m"
  shows "mgr_frame m (on_cfm r p m)"
proof (cases "find_slot (slot_waits r) (slots m)")
  case None
  with assms show ?thesis by (simp add: on_cfm_miss mgr_frame_refl)
next
  case (Some t)
  from on_cfm_hit [OF assms Some] obtain s where t: "t < 8" "slots m ! t = Some s"
    and e: "on_cfm r p m = m\<lparr>slots := (slots m)[t := Some (confirmed p s)],
                       queue_sz := saturating_dec (queue_sz m)\<rparr>" by blast
  have "mgr_wf (on_cfm r p m)" using assms by (rule on_cfm_wf)
  moreover have "occupied (on_cfm r p m) = occupied m"
    using filter_update_length [of t "slots m" "\<lambda>s. s \<noteq> None" "Some (confirmed p s)"] t
      mgr_wfD(1) [OF assms] unfolding e by (simp add: occupied_def)
  ultimately show ?thesis by (simp add: mgr_frame_def e)
qed

lemma cfms_frame: "mgr_wf m \<Longrightarrow> mgr_frame m (fold (\<lambda>(i, p). on_cfm i p) cs m)"
proof (induction cs arbitrary: m)
  case Nil
  then show ?case by (simp add: mgr_frame_refl)
next
  case (Cons c cs)
  then have "mgr_frame m (on_cfm (fst c) (snd c) m)" by (simp add: on_cfm_frame)
  moreover from this have "mgr_wf (on_cfm (fst c) (snd c) m)" by (simp add: mgr_frame_def)
  from Cons.IH [OF this] have "mgr_frame (on_cfm (fst c) (snd c) m)
      (fold (\<lambda>(i, p). on_cfm i p) cs (on_cfm (fst c) (snd c) m))" .
  ultimately show ?case by (cases c) (auto intro: mgr_frame_trans)
qed

lemma occupied_le: "mgr_wf m \<Longrightarrow> occupied m \<le> 8"
  using length_filter_le [of "\<lambda>s. s \<noteq> None" "slots m"] mgr_wfD(1) [of m] by (simp add: occupied_def)

lemma occupied_full: "mgr_wf m \<Longrightarrow> occupied m = 8 \<longleftrightarrow> None \<notin> set (slots m)"
proof -
  assume wf: "mgr_wf m"
  have "None \<notin> set (slots m) \<longleftrightarrow> (\<forall>s\<in>set (slots m). s \<noteq> None)" by metis
  also have "\<dots> \<longleftrightarrow> length (filter (\<lambda>s. s \<noteq> None) (slots m)) = length (slots m)"
    by (metis (mono_tags, lifting) filter_True length_filter_less less_irrefl)
  finally show ?thesis using mgr_wfD(1) [OF wf] by (simp add: occupied_def)
qed

lemma mgr_push_occupied:
  assumes "mgr_wf m" and "mgr_push r m = (Some t, m')"
  shows "occupied m' = Suc (occupied m) \<and> mgr_wf m' \<and> mgr_state m' = mgr_state m \<and> t < 8"
proof -
  from mgr_push_SomeD [OF assms(2,1)] have t: "t < 8" "slots m ! t = None"
    and m': "m' = m\<lparr>next_tkn := next_tkn m + 1, slots := (slots m)[t := Some (new_pending r)],
           queue_sz := queue_sz m + 1\<rparr>" by auto
  have "occupied m' = Suc (occupied m)"
    using filter_update_length [of t "slots m" "\<lambda>s. s \<noteq> None" "Some (new_pending r)"] t
      mgr_wfD(1) [OF assms(1)] unfolding m' by (simp add: occupied_def)
  then show ?thesis using mgr_push_wf [OF assms(1), of r] assms(2) t by (simp add: m')
qed

lemma mgr_push_full:
  assumes "mgr_wf m" and "mgr_state m = Crashed \<or> occupied m = 8"
  shows "mgr_push r m = (None, m)"
  using mgr_push_None_iff [OF assms(1), of r] mgr_push_NoneD [of r m] occupied_full [OF assms(1)] assms(2)
  by (cases "mgr_push r m") auto

text \<open>The receive path changes the manager by confirmations only.\<close>

definition cfm_only :: "(cmd_mgr \<times> 'w \<Rightarrow> cmd_mgr \<times> 'w) \<Rightarrow> bool" where
  "cfm_only poll \<longleftrightarrow> (\<forall>m w. \<exists>cs. fst (poll (m, w)) = fold (\<lambda>(i, p). on_cfm i p) cs m)"

lemma wait_done_loop_frame:
  assumes "cfm_only poll" and "mgr_wf (fst s)"
  shows "mgr_frame (fst s) (fst (snd (wait_done_loop token timeout_ms poll tick idle waited_ms s)))"
  using assms
proof (induction token timeout_ms poll tick idle waited_ms s rule: wait_done_loop.induct)
  case (1 token timeout_ms poll tick idle waited_ms m w)
  obtain m1 w1 where p: "poll (m, w) = (m1, w1)" by fastforce
  with 1(2) obtain cs where "m1 = fold (\<lambda>(i, p). on_cfm i p) cs m" unfolding cfm_only_def by (metis fst_conv)
  then have f: "mgr_frame m m1" using cfms_frame 1(3) by simp
  show ?case
  proof (cases "waited_ms < timeout_ms \<and> \<not> is_done token m \<and> \<not> is_done token m1")
    case False
    then show ?thesis using f mgr_frame_refl [of m] 1(3) p
      by (subst wait_done_loop.simps) (auto simp: Let_def)
  next
    case True
    then have c: "waited_ms < timeout_ms" "\<not> is_done token m" "\<not> is_done token m1" by auto
    note ih = 1(1) [OF c(1,2) p [symmetric] refl c(3) refl 1(2)]
    have "mgr_wf m1" using f by (simp add: mgr_frame_def)
    with ih f c p show ?thesis
      by (subst wait_done_loop.simps) (auto simp: Let_def intro: mgr_frame_trans)
  qed
qed

lemma send_and_wait_slots:
  assumes "cfm_only poll" and "mgr_wf m"
  shows "if mgr_state m = Crashed \<or> occupied m = 8
         then send_and_wait msg cfm_id tx_fn timeout_ms poll tick idle (m, w) = (err (-12), (m, w))
         else let m' = fst (snd (send_and_wait msg cfm_id tx_fn timeout_ms poll tick idle (m, w)))
              in mgr_wf m' \<and> occupied m' = Suc (occupied m) \<and> mgr_state m' = mgr_state m"
proof (cases "mgr_state m = Crashed \<or> occupied m = 8")
  case True
  then show ?thesis using mgr_push_full [OF assms(2) True, of cfm_id]
    by (simp add: send_and_wait_def push_cmd_def io_bind_def)
next
  case False
  then obtain t m1 where p: "mgr_push cfm_id m = (Some t, m1)"
    using mgr_push_None_iff [OF assms(2), of cfm_id] occupied_full [OF assms(2)]
    by (cases "mgr_push cfm_id m") auto
  note o = mgr_push_occupied [OF assms(2) p]
  obtain r w1 where x: "io_map_err (tx_fn msg) (Errno (-5)) w = (r, w1)" by fastforce
  have "mgr_frame m1 (fst (snd (wait_done t timeout_ms poll tick idle (m1, w1))))"
    using wait_done_loop_frame [OF assms(1), of "(m1, w1)" t timeout_ms tick idle 0] o
    by (simp add: wait_done_def)
  then show ?thesis using False o p x
    by (cases r) (simp_all add: send_and_wait_def push_cmd_def io_bind_def on_snd_def mgr_frame_def Let_def)
qed

text \<open>
  A memory write, a masked write and START_APP never release the slot of their command,
  whether they succeed, fail or time out: each call uses up one of the eight slots, and once all
  are used every further call fails with -12 before anything is sent.
\<close>

theorem dbg_exchange_uses_up_slot:
  assumes "cfm_only poll" and "mgr_wf m" and "mgr_state m \<noteq> Crashed"
    and "f \<in> {send_dbg_mem_write tx_fn addr dat timeout_ms poll tick idle,
              send_dbg_mem_mask_write tx_fn addr msk dat timeout_ms poll idle,
              fw_start_app tx_fn addr boot_type timeout_ms poll idle}"
  shows "if occupied m = 8 then f (m, w) = (err (-12), (m, w))
         else occupied (fst (snd (f (m, w)))) = Suc (occupied m) \<and> mgr_wf (fst (snd (f (m, w)))) \<and>
              mgr_state (fst (snd (f (m, w)))) = mgr_state m"
  using send_and_wait_slots [OF assms(1,2)] assms(3,4)
  by (auto simp: send_dbg_mem_write_def send_dbg_mem_mask_write_def fw_start_app_def Let_def)

theorem dbg_exchange_uses_up_slot_witness:
  "occupied (fst (snd (send_dbg_mem_write (\<lambda>msg w. (ok (), w)) 0x40500014 0x101 2000 (\<lambda>s. s) None (\<lambda>w. w)
      (CmdMgr_new, (0::nat))))) = 1"
proof -
  have "cfm_only (\<lambda>s::cmd_mgr \<times> nat. s)"
    unfolding cfm_only_def by (intro allI exI [of _ "[]"]) simp
  moreover have "occupied CmdMgr_new = 0" "mgr_state CmdMgr_new \<noteq> Crashed"
    by (simp_all add: occupied_def CmdMgr_new_def)
  ultimately show ?thesis
    using dbg_exchange_uses_up_slot [of "\<lambda>s. s" CmdMgr_new
        "send_dbg_mem_write (\<lambda>msg w. (ok (), w)) 0x40500014 0x101 2000 (\<lambda>s. s) None (\<lambda>w. w)"
        "\<lambda>msg w. (ok (), w)" "0x40500014" "0x101" 2000 None "\<lambda>w. w" 0 0 "0::nat"] mgr_wf_new by simp
qed

end
