(* ===== verification/Firmware.thy ===== *)
theory Firmware
  imports Cis Fw_Load
begin

text \<open>
  The firmware tables (\<open>driver/bsp/src/firmware.rs\<close>), the choice of a table by product and
  chip revision, and the names embedded by \<open>firmware_data.rs\<close> (the contents of the embedded
  files, which \<open>include_bytes!\<close> takes from outside the repository, are a parameter).
\<close>

section \<open>Tables\<close>

datatype chip_rev = U01 | U02 | U03

fun rev_repr :: "chip_rev \<Rightarrow> u8" where
  "rev_repr U01 = 1" | "rev_repr U02 = 3" | "rev_repr U03 = 7"

definition rev_from_u8 :: "u8 \<Rightarrow> chip_rev option" where
  "rev_from_u8 v = (if v = 1 then Some U01 else if v = 3 then Some U02 else if v = 7 then Some U03 else None)"

record bsp_firmware =
  fw_desc :: string
  fw_bt_adid :: string
  fw_bt_patch :: string
  fw_bt_table :: string
  fw_wl_fw :: string
  fw_bt_ext_patch :: "string option"

definition FW_U02 :: "bsp_firmware list" where
  "FW_U02 =
     [\<lparr>fw_desc = ''normal work mode(sdio u02)'', fw_bt_adid = ''fw_adid.bin'',
       fw_bt_patch = ''fw_patch.bin'', fw_bt_table = ''fw_patch_table.bin'',
       fw_wl_fw = ''fmacfw.bin'', fw_bt_ext_patch = None\<rparr>,
      \<lparr>fw_desc = ''rf test mode(sdio u02)'', fw_bt_adid = ''fw_adid.bin'',
       fw_bt_patch = ''fw_patch.bin'', fw_bt_table = ''fw_patch_table.bin'',
       fw_wl_fw = ''fmacfw_rf.bin'', fw_bt_ext_patch = None\<rparr>]"

definition FW_8800DC_U02 :: "bsp_firmware list" where
  "FW_8800DC_U02 =
     [\<lparr>fw_desc = ''normal work mode(8800dc sdio u02)'', fw_bt_adid = ''fw_adid_8800dc_u02.bin'',
       fw_bt_patch = ''fw_patch_8800dc_u02.bin'', fw_bt_table = ''fw_patch_table_8800dc_u02.bin'',
       fw_wl_fw = ''fmacfw_patch_8800dc_u02.bin'', fw_bt_ext_patch = Some ''fw_patch_8800dc_u02_ext''\<rparr>,
      \<lparr>fw_desc = ''rf test mode(8800dc sdio u02)'', fw_bt_adid = ''fw_adid_8800dc_u02.bin'',
       fw_bt_patch = ''fw_patch_8800dc_u02.bin'', fw_bt_table = ''fw_patch_table_8800dc_u02.bin'',
       fw_wl_fw = ''lmacfw_rf_8800dc.bin'', fw_bt_ext_patch = Some ''fw_patch_8800dc_u02_ext''\<rparr>]"

definition FW_8800D80_U02 :: "bsp_firmware list" where
  "FW_8800D80_U02 =
     [\<lparr>fw_desc = ''normal work mode(8800d80 sdio u02)'', fw_bt_adid = ''fw_adid_8800d80_u02.bin'',
       fw_bt_patch = ''fw_patch_8800d80_u02.bin'', fw_bt_table = ''fw_patch_table_8800d80_u02.bin'',
       fw_wl_fw = ''fmacfw_8800d80_u02.bin'', fw_bt_ext_patch = Some ''fw_patch_8800d80_u02_ext''\<rparr>,
      \<lparr>fw_desc = ''rf test mode(8800d80 sdio u02)'', fw_bt_adid = ''fw_adid_8800d80_u02.bin'',
       fw_bt_patch = ''fw_patch_8800d80_u02.bin'', fw_bt_table = ''fw_patch_table_8800d80_u02.bin'',
       fw_wl_fw = ''lmacfw_rf_8800d80_u02.bin'', fw_bt_ext_patch = Some ''fw_patch_8800d80_u02_ext''\<rparr>]"

definition FW_U03 :: "bsp_firmware list" where
  "FW_U03 =
     [\<lparr>fw_desc = ''normal work mode(sdio u03)'', fw_bt_adid = ''fw_adid.bin'',
       fw_bt_patch = ''fw_patch.bin'', fw_bt_table = ''fw_patch_table.bin'',
       fw_wl_fw = ''fmacfw.bin'', fw_bt_ext_patch = None\<rparr>,
      \<lparr>fw_desc = ''rf test mode(sdio u03)'', fw_bt_adid = ''fw_adid.bin'',
       fw_bt_patch = ''fw_patch.bin'', fw_bt_table = ''fw_patch_table.bin'',
       fw_wl_fw = ''fmacfw_rf.bin'', fw_bt_ext_patch = None\<rparr>]"

definition FW_8800DC_U01 :: "bsp_firmware list" where
  "FW_8800DC_U01 =
     [\<lparr>fw_desc = ''normal work mode(8800dc sdio u01)'', fw_bt_adid = ''fw_adid_8800dc_u02.bin'',
       fw_bt_patch = ''fw_patch_8800dc_u02.bin'', fw_bt_table = ''fw_patch_table_8800dc_u02.bin'',
       fw_wl_fw = ''fmacfw_patch_8800dc_u02.bin'', fw_bt_ext_patch = Some ''fw_patch_8800dc_u02_ext''\<rparr>,
      \<lparr>fw_desc = ''rf test mode(8800dc sdio u01)'', fw_bt_adid = ''fw_adid_8800dc_u02.bin'',
       fw_bt_patch = ''fw_patch_8800dc_u02.bin'', fw_bt_table = ''fw_patch_table_8800dc_u02.bin'',
       fw_wl_fw = ''lmacfw_rf_8800dc.bin'', fw_bt_ext_patch = Some ''fw_patch_8800dc_u02_ext''\<rparr>]"

definition FW_8800DC_H_U02 :: "bsp_firmware list" where
  "FW_8800DC_H_U02 =
     [\<lparr>fw_desc = ''normal work mode(8800dc h sdio u02)'', fw_bt_adid = ''fw_adid_8800dc_u02.bin'',
       fw_bt_patch = ''fw_patch_8800dc_u02.bin'', fw_bt_table = ''fw_patch_table_8800dc_u02.bin'',
       fw_wl_fw = ''fmacfw_patch_8800dc_u02.bin'', fw_bt_ext_patch = Some ''fw_patch_8800dc_u02_ext''\<rparr>,
      \<lparr>fw_desc = ''rf test mode(8800dc h sdio u02)'', fw_bt_adid = ''fw_adid_8800dc_u02.bin'',
       fw_bt_patch = ''fw_patch_8800dc_u02.bin'', fw_bt_table = ''fw_patch_table_8800dc_u02.bin'',
       fw_wl_fw = ''lmacfw_rf_8800dc.bin'', fw_bt_ext_patch = Some ''fw_patch_8800dc_u02_ext''\<rparr>]"

definition FW_8800D80_U01 :: "bsp_firmware list" where
  "FW_8800D80_U01 =
     [\<lparr>fw_desc = ''normal work mode(8800d80 sdio u01)'', fw_bt_adid = ''fw_adid_8800d80_u02.bin'',
       fw_bt_patch = ''fw_patch_8800d80_u02.bin'', fw_bt_table = ''fw_patch_table_8800d80_u02.bin'',
       fw_wl_fw = ''fmacfw_8800d80_u02.bin'', fw_bt_ext_patch = Some ''fw_patch_8800d80_u02_ext''\<rparr>,
      \<lparr>fw_desc = ''rf test mode(8800d80 sdio u01)'', fw_bt_adid = ''fw_adid_8800d80_u02.bin'',
       fw_bt_patch = ''fw_patch_8800d80_u02.bin'', fw_bt_table = ''fw_patch_table_8800d80_u02.bin'',
       fw_wl_fw = ''lmacfw_rf_8800d80_u02.bin'', fw_bt_ext_patch = Some ''fw_patch_8800d80_u02_ext''\<rparr>]"

definition FW_8800D80_H_U02 :: "bsp_firmware list" where
  "FW_8800D80_H_U02 =
     [\<lparr>fw_desc = ''normal work mode(8800d80 h sdio u02)'', fw_bt_adid = ''fw_adid_8800d80_u02.bin'',
       fw_bt_patch = ''fw_patch_8800d80_u02.bin'', fw_bt_table = ''fw_patch_table_8800d80_u02.bin'',
       fw_wl_fw = ''fmacfw_8800d80_u02.bin'', fw_bt_ext_patch = Some ''fw_patch_8800d80_u02_ext''\<rparr>,
      \<lparr>fw_desc = ''rf test mode(8800d80 h sdio u02)'', fw_bt_adid = ''fw_adid_8800d80_u02.bin'',
       fw_bt_patch = ''fw_patch_8800d80_u02.bin'', fw_bt_table = ''fw_patch_table_8800d80_u02.bin'',
       fw_wl_fw = ''lmacfw_rf_8800d80_u02.bin'', fw_bt_ext_patch = Some ''fw_patch_8800d80_u02_ext''\<rparr>]"

definition FW_8800D80X2 :: "bsp_firmware list" where
  "FW_8800D80X2 =
     [\<lparr>fw_desc = ''normal work mode(8800d80x2)'', fw_bt_adid = ''fw_adid_8800d80_u02.bin'',
       fw_bt_patch = ''fw_patch_8800d80_u02.bin'', fw_bt_table = ''fw_patch_table_8800d80_u02.bin'',
       fw_wl_fw = ''fmacfw_8800d80_u02.bin'', fw_bt_ext_patch = Some ''fw_patch_8800d80_u02_ext''\<rparr>,
      \<lparr>fw_desc = ''rf test mode(8800d80x2)'', fw_bt_adid = ''fw_adid_8800d80_u02.bin'',
       fw_bt_patch = ''fw_patch_8800d80_u02.bin'', fw_bt_table = ''fw_patch_table_8800d80_u02.bin'',
       fw_wl_fw = ''lmacfw_rf_8800d80_u02.bin'', fw_bt_ext_patch = Some ''fw_patch_8800d80_u02_ext''\<rparr>]"

lemmas fw_tables = FW_U02_def FW_8800DC_U02_def FW_8800D80_U02_def FW_U03_def FW_8800DC_U01_def FW_8800DC_H_U02_def FW_8800D80_U01_def FW_8800D80_H_U02_def FW_8800D80X2_def

section \<open>Selection\<close>

definition get_firmware_list :: "product_id \<Rightarrow> u8 \<Rightarrow> bool \<Rightarrow> bsp_firmware list option" where
  "get_firmware_list pid cr is_chip_id_h =
     (case pid of
        Aic8801 \<Rightarrow>
          if cr \<noteq> rev_repr U02 \<and> cr \<noteq> rev_repr U03 then None
          else if cr = rev_repr U02 then Some FW_U02 else Some FW_U03
      | Aic8800D80 \<Rightarrow>
          let r = cr AND 0x3F in
          if is_chip_id_h then Some FW_8800D80_H_U02
          else if r = rev_repr U01 then Some FW_8800D80_U01
          else Some FW_8800D80_U02
      | Aic8800D80X2 \<Rightarrow>
          let r = cr AND 0x3F in
          if r \<ge> rev_repr U03 + 8 then Some FW_8800D80X2 else None
      | _ \<Rightarrow>
          let r = cr AND 0x3F in
          if r \<noteq> rev_repr U01 \<and> r \<noteq> rev_repr U02 \<and> r \<noteq> rev_repr U03 then None
          else if is_chip_id_h then Some FW_8800DC_H_U02
          else if r = rev_repr U01 then Some FW_8800DC_U01
          else Some FW_8800DC_U02)"

text \<open>The names the feature \<open>embed_firmware\<close> embeds, and those of \<open>embed_firmware_8801\<close>.\<close>

definition embedded_all :: "string list" where
  "embedded_all =
     [''fmacfw.bin'',
      ''fmacfw_patch.bin'',
      ''fmacfw_rf.bin'',
      ''fw_adid.bin'',
      ''fw_adid_u03.bin'',
      ''fw_patch.bin'',
      ''fw_patch_u03.bin'',
      ''fw_patch_table.bin'',
      ''fw_patch_table_u03.bin'',
      ''fmacfw_patch_8800dc_u02.bin'',
      ''fw_adid_8800dc_u02.bin'',
      ''fw_patch_8800dc_u02.bin'',
      ''fw_patch_table_8800dc_u02.bin'',
      ''fmacfw_8800d80_u02.bin'',
      ''fw_adid_8800d80_u02.bin'',
      ''fw_patch_8800d80_u02.bin'',
      ''fw_patch_table_8800d80_u02.bin'']"

definition embedded_8801 :: "string list" where
  "embedded_8801 = [''fmacfw.bin'', ''fmacfw_patch.bin'']"

definition embedded_firmware :: "string list \<Rightarrow> (string \<Rightarrow> byte list) \<Rightarrow> string \<Rightarrow> byte list option" where
  "embedded_firmware names contents name = (if name \<in> set names then Some (contents name) else None)"


section \<open>Properties\<close>

lemma fw_lists:
  "get_firmware_list pid cr h = Some l \<Longrightarrow>
     if pid = Aic8801 then l \<in> {FW_U02, FW_U03}
     else l \<in> {FW_8800DC_U01, FW_8800DC_U02, FW_8800DC_H_U02, FW_8800D80_U01, FW_8800D80_U02,
               FW_8800D80_H_U02, FW_8800D80X2}"
  by (cases pid) (auto simp: get_firmware_list_def Let_def split: if_splits)

lemma fw_list_entries:
  "l \<in> {FW_U02, FW_U03} \<Longrightarrow>
     length l = 2 \<and> fw_wl_fw (l ! 0) \<in> set embedded_all \<and> fw_wl_fw (l ! 1) \<in> set embedded_all"
  "l \<in> {FW_8800DC_U01, FW_8800DC_U02, FW_8800DC_H_U02, FW_8800D80_U01, FW_8800D80_U02,
        FW_8800D80_H_U02, FW_8800D80X2} \<Longrightarrow>
     length l = 2 \<and> fw_wl_fw (l ! 0) \<in> set embedded_all \<and> fw_wl_fw (l ! 1) \<notin> set embedded_all"
  by (auto simp: fw_tables embedded_all_def)

text \<open>
  Firmware selection: the 8801 is accepted with revision 3 or 7 only, the DC and DW with 1,
  3 or 7 in the low six bits, the D80 always and the D80X2 from 15 on. A selected list has
  an entry for both modes of \<open>cpmode\<close>; the image of the normal mode is always among the embedded
  ones, that of the RF test mode only for the 8801.
\<close>

theorem firmware_selection:
  "(get_firmware_list pid cr h = None \<longleftrightarrow>
      (case pid of Aic8801 \<Rightarrow> cr \<noteq> 3 \<and> cr \<noteq> 7 | Aic8800D80 \<Rightarrow> False
       | Aic8800D80X2 \<Rightarrow> cr AND 0x3F < 15 | _ \<Rightarrow> cr AND 0x3F \<notin> {1, 3, 7})) \<and>
   (\<forall>l. get_firmware_list pid cr h = Some l \<longrightarrow>
      length l = 2 \<and> fw_wl_fw (l ! 0) \<in> set embedded_all \<and>
      (fw_wl_fw (l ! 1) \<in> set embedded_all \<longleftrightarrow> pid = Aic8801))"
proof
  show "get_firmware_list pid cr h = None \<longleftrightarrow>
      (case pid of Aic8801 \<Rightarrow> cr \<noteq> 3 \<and> cr \<noteq> 7 | Aic8800D80 \<Rightarrow> False
       | Aic8800D80X2 \<Rightarrow> cr AND 0x3F < 15 | _ \<Rightarrow> cr AND 0x3F \<notin> {1, 3, 7})"
    by (cases pid) (auto simp: get_firmware_list_def Let_def not_le)
next
  show "\<forall>l. get_firmware_list pid cr h = Some l \<longrightarrow>
      length l = 2 \<and> fw_wl_fw (l ! 0) \<in> set embedded_all \<and>
      (fw_wl_fw (l ! 1) \<in> set embedded_all \<longleftrightarrow> pid = Aic8801)"
    using fw_lists [of pid cr h] fw_list_entries by (metis (full_types))
qed

theorem firmware_selection_witness:
  "\<exists>l. get_firmware_list Aic8800Dc 0xC7 True = Some l \<and> fw_wl_fw (l ! 1) \<notin> set embedded_all"
proof -
  have "(0xC7 :: u8) AND 0x3F = 7" by simp
  then show ?thesis using firmware_selection [of Aic8800Dc "0xC7" True] by auto
qed

end
