(* ===== verification/Ipc.thy ===== *)
theory Ipc
  imports Skb Backend Firmware Mmc
begin

text \<open>
  The IPC layer of the driver (\<open>driver/bsp/src/sdio/flow.rs\<close>, first half): the static cells the
  threads share, the padding of outgoing messages, the receive path from the read FIFO to
  \<open>on_cfm\<close> and the registered callbacks, the transmit thread, and the exchanges of the main
  thread. The cells are the record \<open>bsp\<close>; each operation locks them for its own accesses. What
  the scheduler lets the other threads do while the main thread sleeps or waits is a parameter
  (\<open>bsp_env\<close>).
\<close>

section \<open>Shared state\<close>

definition PRODUCT_ID_NONE :: u32 where "PRODUCT_ID_NONE = 0xFFFF"
definition PENDING_CMD_TX_CAP :: nat where "PENDING_CMD_TX_CAP = 1536"

record 'w bsp =
  current_product_id :: u32
  sdio_device :: "aic8800_sdio option"
  cmd_mgr_cell :: "cmd_mgr option"
  busrx_running :: bool
  bustx_running :: bool
  busrx_started :: bool
  bustx_started :: bool
  pending_cmd_tx :: "(byte list \<times> nat) option"
  tx_result :: "int option"
  e2a_indication_cb :: "(u16 \<Rightarrow> byte list \<Rightarrow> 'w \<Rightarrow> 'w) option"
  rx_data_indication_cb :: "(byte list \<Rightarrow> 'w \<Rightarrow> 'w) option"
  probe_done :: bool
  wifi_firmware_store :: fw_store
  world :: 'w

text \<open>
  The environment: the host controller, \<open>axtask::sleep\<close> in milliseconds, the one-millisecond wait
  of the wait loops, \<open>wait_tx_done_timeout\<close> (true for a timeout) and
  \<open>wait_sdio_irq_work_done_timeout\<close>. Other threads may run during each wait.
\<close>

record 'w bsp_env =
  env_host :: "'w sdio_host"
  env_sleep :: "nat \<Rightarrow> 'w bsp \<Rightarrow> 'w bsp"
  env_idle :: "'w bsp \<Rightarrow> 'w bsp"
  env_wait_tx_done :: "'w bsp \<Rightarrow> bool \<times> 'w bsp"
  env_wait_irq_work :: "'w bsp \<Rightarrow> 'w bsp"
  env_embedded :: "string \<Rightarrow> byte list option"

definition set_e2a_indication_cb :: "(u16 \<Rightarrow> byte list \<Rightarrow> 'w \<Rightarrow> 'w) option \<Rightarrow> 'w bsp \<Rightarrow> 'w bsp" where
  "set_e2a_indication_cb cb s = s\<lparr>e2a_indication_cb := cb\<rparr>"

definition set_rx_data_indication_cb :: "(byte list \<Rightarrow> 'w \<Rightarrow> 'w) option \<Rightarrow> 'w bsp \<Rightarrow> 'w bsp" where
  "set_rx_data_indication_cb cb s = s\<lparr>rx_data_indication_cb := cb\<rparr>"

section \<open>Message lengths\<close>

definition TX_ALIGNMENT :: nat where "TX_ALIGNMENT = 4"
definition SDIOWIFI_FUNC_BLOCKSIZE :: nat where "SDIOWIFI_FUNC_BLOCKSIZE = 512"
definition TAIL_LEN :: nat where "TAIL_LEN = 4"

lemmas tx_len_defs = TX_ALIGNMENT_def SDIOWIFI_FUNC_BLOCKSIZE_def TAIL_LEN_def

text \<open>\<open>if buf.len() >= b { buf[a..b].fill(0); }\<close>\<close>

definition fill0 :: "nat \<Rightarrow> nat \<Rightarrow> byte list \<Rightarrow> byte list" where
  "fill0 a b buf = (if b \<le> length buf then take a buf @ replicate (b - a) 0 @ drop b buf else buf)"

definition aicwf_sdio_tx_msg_pad :: "byte list \<Rightarrow> nat \<Rightarrow> nat \<times> byte list" where
  "aicwf_sdio_tx_msg_pad buf payload_len =
     (let adjust_len = (payload_len + TX_ALIGNMENT - 1) div TX_ALIGNMENT * TX_ALIGNMENT;
          (len, buf1) = (if payload_len mod TX_ALIGNMENT \<noteq> 0
                         then (adjust_len, fill0 payload_len (payload_len + (adjust_len - payload_len)) buf)
                         else (payload_len, buf));
          (send_len, buf2) = (if len mod SDIOWIFI_FUNC_BLOCKSIZE \<noteq> 0
                         then (((len + TAIL_LEN) div SDIOWIFI_FUNC_BLOCKSIZE + 1) * SDIOWIFI_FUNC_BLOCKSIZE,
                               fill0 len (len + TAIL_LEN) buf1)
                         else (len, buf1))
      in (send_len, if len < send_len then fill0 len send_len buf2 else buf2))"

definition IPC_RX_BUF_SIZE :: nat where "IPC_RX_BUF_SIZE = 512"

definition ipc_send_len_8801 :: "nat \<Rightarrow> nat" where
  "ipc_send_len_8801 serialized_len =
     (let len4 = (serialized_len + TX_ALIGNMENT - 1) div TX_ALIGNMENT * TX_ALIGNMENT in
      if len4 mod SDIOWIFI_FUNC_BLOCKSIZE = 0 then len4
      else (len4 + TAIL_LEN + SDIOWIFI_FUNC_BLOCKSIZE - 1) div SDIOWIFI_FUNC_BLOCKSIZE * SDIOWIFI_FUNC_BLOCKSIZE)"

section \<open>Receiving\<close>

definition RX_HWHRD_LEN_DATA :: nat where "RX_HWHRD_LEN_DATA = 60"
definition RX_ALIGNMENT :: nat where "RX_ALIGNMENT = 4"
definition SDIO_TYPE_CFG_CMD_RSP :: u8 where "SDIO_TYPE_CFG_CMD_RSP = 0x11"
definition SDIO_TYPE_CFG :: u8 where "SDIO_TYPE_CFG = 0x10"

text \<open>\<open>buf[i]\<close> and \<open>u16::from_le_bytes([buf[i], buf[i + 1]])\<close>\<close>

definition byte_at :: "byte list \<Rightarrow> nat \<Rightarrow> byte result" where
  "byte_at buf i = (if i < length buf then ok (buf ! i) else panic IndexRange)"

definition u16_at :: "byte list \<Rightarrow> nat \<Rightarrow> nat result" where
  "u16_at buf i = bind_res (byte_at buf i) (\<lambda>a. bind_res (byte_at buf (i + 1)) (\<lambda>b. ok (unat (from_le16 a b))))"

text \<open>
  The callbacks as the receive path uses them. A callback gets a pointer and a length; here it
  gets the bytes of that range. The state of the receive path is the command manager and the world.
\<close>

record 'w rx_cbs =
  cb_e2a :: "(u16 \<Rightarrow> byte list \<Rightarrow> 'w \<Rightarrow> 'w) option"
  cb_data :: "(byte list \<Rightarrow> 'w \<Rightarrow> 'w) option"

definition deliver_cfm ::
  "'w rx_cbs \<Rightarrow> byte list \<Rightarrow> nat \<Rightarrow> nat \<Rightarrow> nat \<Rightarrow> (cmd_mgr \<times> 'w, nat) io" where
  "deliver_cfm cbs buf id_at param_start param_len =
     io_bind (io_lift (u16_at buf id_at)) (\<lambda>msg_id.
     io_bind (io_lift (slice_get param_start (param_start + param_len) buf)) (\<lambda>param (m, w).
       (ok param_len,
        (on_cfm (of_nat msg_id) param m,
         case cb_e2a cbs of None \<Rightarrow> w | Some cb \<Rightarrow> cb (of_nat msg_id) param w))))"

definition parse_one_cfm_at ::
  "'w rx_cbs \<Rightarrow> byte list \<Rightarrow> nat \<Rightarrow> nat \<Rightarrow> (cmd_mgr \<times> 'w, nat) io" where
  "parse_one_cfm_at cbs buf n off =
     (if off + 16 > n then io_return 0
      else
        io_bind (io_lift (byte_at buf (off + 2))) (\<lambda>t.
        io_bind (if t AND 0x7f = SDIO_TYPE_CFG_CMD_RSP
                 then io_bind (io_lift (u16_at buf (off + 10))) (\<lambda>param_len.
                        if param_len \<le> 256 \<and> off + (16 + param_len) \<le> n
                        then io_bind (deliver_cfm cbs buf (off + 4) (off + 16) param_len)
                               (\<lambda>_. io_return (16 + param_len))
                        else io_return 0)
                 else io_return 0) (\<lambda>total.
          if total \<noteq> 0 then io_return total
          else if off + 8 \<le> n
          then io_bind (io_lift (u16_at buf (off + 6))) (\<lambda>param_len.
                 if 0 < param_len \<and> param_len \<le> 256 \<and> off + (8 + param_len) \<le> n
                 then io_bind (deliver_cfm cbs buf off (off + 8) param_len)
                        (\<lambda>_. io_return (8 + param_len))
                 else io_return 0)
          else io_return 0)))"

text \<open>
  The header of a data frame at \<open>off\<close>: the length of the frame and the length it occupies in
  the buffer, when it is complete.
\<close>

definition data_frame_at :: "byte list \<Rightarrow> nat \<Rightarrow> nat \<Rightarrow> (nat \<times> nat) option result" where
  "data_frame_at buf n off =
     (if off + 3 \<le> n then
        bind_res (u16_at buf off) (\<lambda>pkt_len.
        bind_res (byte_at buf (off + 2)) (\<lambda>type_byte.
          if type_byte AND SDIO_TYPE_CFG \<noteq> SDIO_TYPE_CFG then
            let aggr_len = pkt_len + RX_HWHRD_LEN_DATA;
                adjust_len = (aggr_len + RX_ALIGNMENT - 1) div RX_ALIGNMENT * RX_ALIGNMENT;
                total = 3 + adjust_len
            in ok (if off + total \<le> n then Some (3 + aggr_len, total) else None)
          else ok None))
      else ok None)"

lemma data_frame_at_bounds:
  "data_frame_at buf n off = ok (Some (frame_len, tot)) \<Longrightarrow>
     3 \<le> tot \<and> frame_len \<le> tot \<and> off + tot \<le> n"
  by (auto simp: data_frame_at_def bind_res_Inr_iff Let_def RX_ALIGNMENT_def split: if_splits)

function rx_loop :: "'w rx_cbs \<Rightarrow> byte list \<Rightarrow> nat \<Rightarrow> nat \<Rightarrow> (cmd_mgr \<times> 'w, unit) io" where
  "rx_loop cbs buf n off (m, w) =
     (if off < n then
        (case data_frame_at buf n off of
           Inl e \<Rightarrow> (Inl e, (m, w))
         | Inr (Some (frame_len, tot)) \<Rightarrow>
             rx_loop cbs buf n (off + tot)
               (m, case cb_data cbs of None \<Rightarrow> w | Some cb \<Rightarrow> cb (take frame_len (drop off buf)) w)
         | Inr None \<Rightarrow>
             (case parse_one_cfm_at cbs buf n off (m, w) of
                (Inl e, s') \<Rightarrow> (Inl e, s')
              | (Inr consumed, s') \<Rightarrow>
                  if consumed = 0 then (ok (), s') else rx_loop cbs buf n (off + consumed) s'))
      else (ok (), (m, w)))"
  by pat_completeness auto

termination
  by (relation "measure (\<lambda>(cbs, buf, n, off, s). n - off)") (auto dest: data_frame_at_bounds)

declare rx_loop.simps [simp del]

definition poll_rx_one ::
  "'w sdio_host \<Rightarrow> aic8800_sdio \<Rightarrow> 'w rx_cbs \<Rightarrow> (cmd_mgr \<times> 'w, unit) io" where
  "poll_rx_one h d cbs = (\<lambda>(m, w).
     let skb = skb_alloc IPC_RX_BUF_SIZE in
     case skb_data_mut skb of
       Inl e \<Rightarrow> (Inl e, (m, w))
     | Inr rng \<Rightarrow>
         (case sd_recv_pkt h d (take (snd rng - fst rng) (drop (fst rng) (skb_storage skb)))
                 (of_nat IPC_RX_BUF_SIZE) 1 w of
            (Inl e, _, w1) \<Rightarrow> (Inl e, (m, w1))
          | (Inr n, filled, w1) \<Rightarrow>
              if n = 0 then (ok (), (m, w1))
              else (case bind_res (skb_fill rng filled skb) (\<lambda>skb'. skb_data (skb_set_len n skb')) of
                      Inl e \<Rightarrow> (Inl e, (m, w1))
                    | Inr buf \<Rightarrow> rx_loop cbs buf n 0 (m, w1))))"

section \<open>Access to the shared state\<close>

definition with_cmd_mgr :: "(cmd_mgr \<Rightarrow> 'a \<times> cmd_mgr) \<Rightarrow> 'w bsp \<Rightarrow> 'a option \<times> 'w bsp" where
  "with_cmd_mgr f s =
     (case cmd_mgr_cell s of
        None \<Rightarrow> (None, s)
      | Some m \<Rightarrow> (case f m of (x, m') \<Rightarrow> (Some x, s\<lparr>cmd_mgr_cell := Some m'\<rparr>)))"

definition with_sdio :: "(aic8800_sdio \<Rightarrow> ('w, 'a) io) \<Rightarrow> 'w bsp \<Rightarrow> 'a result option \<times> 'w bsp" where
  "with_sdio f s =
     (case sdio_device s of
        None \<Rightarrow> (None, s)
      | Some d \<Rightarrow> (case f d (world s) of (r, w') \<Rightarrow> (Some r, s\<lparr>world := w'\<rparr>)))"

fun aicbsp_current_product_id :: "'w bsp \<Rightarrow> product_id option" where
  "aicbsp_current_product_id s =
     (let i = current_product_id s in
      if i = PRODUCT_ID_NONE then None
      else if i = 0 then Some Aic8801 else if i = 1 then Some Aic8800Dc else if i = 2 then Some Aic8800Dw
      else if i = 3 then Some Aic8800D80 else if i = 4 then Some Aic8800D80X2 else None)"

declare aicbsp_current_product_id.simps [simp del]

text \<open>The three F1 register reads behind a log line; an error counts as \<open>0xff\<close>.\<close>

definition read_f1_status :: "'w sdio_host \<Rightarrow> u32 list \<Rightarrow> ('w, unit) io" where
  "read_f1_status h regs =
     io_for (\<lambda>r. io_bind (io_unwrap_or (sd_read_byte h r) 0xff) (\<lambda>_. io_return ())) regs"

definition log_f1_block_cnt_flow_ctrl :: "'w bsp_env \<Rightarrow> u32 \<Rightarrow> 'w bsp \<Rightarrow> 'w bsp" where
  "log_f1_block_cnt_flow_ctrl env waited_ms s =
     snd (with_sdio (\<lambda>d. read_f1_status (env_host env) [0x112, 0x102, 0x10A]) s)"

section \<open>The receive thread\<close>

definition EAGAIN :: int where "EAGAIN = -11"

definition rx_cbs_of :: "'w bsp \<Rightarrow> 'w rx_cbs" where
  "rx_cbs_of s = \<lparr>cb_e2a = e2a_indication_cb s, cb_data = rx_data_indication_cb s\<rparr>"

definition run_poll_rx_one :: "'w bsp_env \<Rightarrow> ('w bsp, unit) io" where
  "run_poll_rx_one env s =
     (case cmd_mgr_cell s of
        None \<Rightarrow> (ok (), s)
      | Some m \<Rightarrow>
          (case sdio_device s of
             None \<Rightarrow> (ok (), s)
           | Some d \<Rightarrow>
               (case poll_rx_one (env_host env) d (rx_cbs_of s) (m, world s) of
                  (r, (m', w')) \<Rightarrow>
                    let s' = s\<lparr>cmd_mgr_cell := Some m', world := w'\<rparr> in
                    (case r of
                       Inl (Errno e) \<Rightarrow> (ok (), if e = EAGAIN then env_wait_irq_work env s' else s')
                     | Inl x \<Rightarrow> (Inl x, s')
                     | Inr _ \<Rightarrow> (ok (), s')))))"

definition sdio_poll_rx_once :: "'w bsp_env \<Rightarrow> ('w bsp, unit) io" where
  "sdio_poll_rx_once env = run_poll_rx_one env"

text \<open>One round of \<open>busrx_thread_fn\<close>, after its wait.\<close>

definition busrx_round :: "'w bsp_env \<Rightarrow> ('w bsp, unit) io" where
  "busrx_round env s = (if busrx_running s then run_poll_rx_one env s else (ok (), s))"

definition ensure_busrx_thread_started :: "'w bsp_env \<Rightarrow> 'w bsp \<Rightarrow> 'w bsp" where
  "ensure_busrx_thread_started env s =
     (if busrx_started s then s
      else env_sleep env 1 (s\<lparr>busrx_started := True, busrx_running := True\<rparr>))"

section \<open>The transmit thread\<close>

text \<open>
  \<open>with_sdio(|sdio| sdio.send_msg(&buf[..send_len], send_len))\<close>, and the \<open>match\<close> of the thread
  on it: 0 for success, else the error code.
\<close>

definition sdio_send :: "'w bsp_env \<Rightarrow> byte list \<Rightarrow> nat \<Rightarrow> 'w bsp \<Rightarrow> nat result option \<times> 'w bsp" where
  "sdio_send env buf send_len =
     with_sdio (\<lambda>d. io_bind (io_lift (slice_get 0 send_len buf))
                      (\<lambda>b. sd_send_msg (env_host env) d b send_len))"

definition send_result :: "'w bsp_env \<Rightarrow> byte list \<Rightarrow> nat \<Rightarrow> ('w bsp, int) io" where
  "send_result env buf send_len s =
     (case sdio_send env buf send_len s of
        (None, s') \<Rightarrow> (ok (-5), s')
      | (Some (Inr _), s') \<Rightarrow> (ok 0, s')
      | (Some (Inl (Errno e)), s') \<Rightarrow> (ok e, s')
      | (Some (Inl x), s') \<Rightarrow> (Inl x, s'))"

text \<open>The retry loop; \<open>EAGAIN\<close> may come back without bound, so it takes fuel.\<close>

fun bustx_send :: "'w bsp_env \<Rightarrow> nat \<Rightarrow> byte list \<Rightarrow> nat \<Rightarrow> ('w bsp, unit) io" where
  "bustx_send env 0 buf send_len s = (Inl Hang, s)"
| "bustx_send env (Suc fuel) buf send_len s =
     (case send_result env buf send_len s of
        (Inl x, s') \<Rightarrow> (Inl x, s')
      | (Inr r, s') \<Rightarrow>
          if r \<noteq> EAGAIN then (ok (), s'\<lparr>tx_result := Some r\<rparr>)
          else bustx_send env fuel buf send_len (env_wait_irq_work env s'))"

definition bustx_round :: "'w bsp_env \<Rightarrow> nat \<Rightarrow> ('w bsp, unit) io" where
  "bustx_round env fuel s =
     (if bustx_running s then
        (case pending_cmd_tx s of
           None \<Rightarrow> (ok (), s)
         | Some (buf, payload_len) \<Rightarrow>
             (case aicwf_sdio_tx_msg_pad buf payload_len of
                (send_len, buf') \<Rightarrow> bustx_send env fuel buf' send_len (s\<lparr>pending_cmd_tx := None\<rparr>)))
      else (ok (), s))"

definition ensure_bustx_thread_started :: "'w bsp_env \<Rightarrow> 'w bsp \<Rightarrow> 'w bsp" where
  "ensure_bustx_thread_started env s =
     (if bustx_started s then s
      else env_sleep env 1 (s\<lparr>bustx_started := True, bustx_running := True\<rparr>))"

section \<open>Sending from the main thread\<close>

definition TX_DONE_TIMEOUT_MS :: nat where "TX_DONE_TIMEOUT_MS = 5000"
definition TX_DONE_CHUNK_MS :: nat where "TX_DONE_CHUNK_MS = 50"

text \<open>The wait loop; a wake-up without a result does not count, so it takes fuel.\<close>

fun tx_done_loop :: "'w bsp_env \<Rightarrow> nat \<Rightarrow> nat \<Rightarrow> ('w bsp, unit) io" where
  "tx_done_loop env 0 elapsed_ms s = (Inl Hang, s)"
| "tx_done_loop env (Suc fuel) elapsed_ms s =
     (case env_wait_tx_done env s of
        (timed_out, s1) \<Rightarrow>
          (case tx_result s1 of
             Some r \<Rightarrow> (if r = 0 then ok () else err r, s1\<lparr>tx_result := None\<rparr>)
           | None \<Rightarrow>
               if timed_out then
                 if elapsed_ms + TX_DONE_CHUNK_MS \<ge> TX_DONE_TIMEOUT_MS then (err (-110), s1)
                 else tx_done_loop env fuel (elapsed_ms + TX_DONE_CHUNK_MS) s1
               else tx_done_loop env fuel elapsed_ms s1))"

definition submit_cmd_tx_and_wait_tx_done ::
  "'w bsp_env \<Rightarrow> nat \<Rightarrow> byte list \<Rightarrow> nat \<Rightarrow> ('w bsp, unit) io" where
  "submit_cmd_tx_and_wait_tx_done env fuel buf len s =
     (if len > PENDING_CMD_TX_CAP then (err (-22), s)
      else case slice_set 0 len buf (replicate PENDING_CMD_TX_CAP 0) of
             Inl x \<Rightarrow> (Inl x, s\<lparr>tx_result := None\<rparr>)
           | Inr arr \<Rightarrow>
               tx_done_loop env fuel 0 (s\<lparr>tx_result := None, pending_cmd_tx := Some (arr, len)\<rparr>))"

section \<open>Exchanges of the main thread\<close>

text \<open>\<open>with_cmd_mgr(|c| c.push(id)).flatten().ok_or(-12)\<close> and \<open>with_cmd_mgr(|c| c.take_cfm(..)).flatten()\<close>\<close>

definition push_token :: "u16 \<Rightarrow> ('w bsp, nat) io" where
  "push_token cfm_id s =
     (case with_cmd_mgr (mgr_push cfm_id) s of (t, s') \<Rightarrow> (ok_or (Option.bind t (\<lambda>x. x)) (-12), s'))"

definition take_token :: "nat \<Rightarrow> byte list \<Rightarrow> 'w bsp \<Rightarrow> (nat \<times> byte list) option \<times> 'w bsp" where
  "take_token token out s =
     (case with_cmd_mgr (take_cfm token out) s of (r, s') \<Rightarrow> (Option.bind r (\<lambda>x. x), s'))"

definition token_done :: "nat \<Rightarrow> 'w bsp \<Rightarrow> bool \<times> 'w bsp" where
  "token_done token s =
     (case with_cmd_mgr (\<lambda>m. (is_done token m, m)) s of (r, s') \<Rightarrow> (r = Some True, s'))"

definition wait_token ::
  "'w bsp_env \<Rightarrow> u32 \<Rightarrow> (u32 \<Rightarrow> 'w bsp \<Rightarrow> 'w bsp) option \<Rightarrow> ('w bsp \<Rightarrow> 'w bsp) option \<Rightarrow> u32 option
   \<Rightarrow> nat \<Rightarrow> ('w bsp, unit) io" where
  "wait_token env timeout_ms tick poll log_every token =
     io_map_err (wait_done_until timeout_ms (token_done token) tick poll log_every (env_idle env)) (Errno (-62))"

definition serialize_for :: "product_id \<Rightarrow> lmac_msg \<Rightarrow> byte list \<Rightarrow> (nat \<times> byte list) result" where
  "serialize_for pid msg buf = (if pid = Aic8801 then serialize_8801 msg buf else serialize msg buf)"

text \<open>Reading the confirmation of a memory read.\<close>

definition take_mem_read :: "nat \<Rightarrow> u32 \<Rightarrow> ('w bsp, u32) io" where
  "take_mem_read token mem_addr s =
     (case take_token token (replicate 16 0) s of
        (r, s') \<Rightarrow>
          (bind_res (ok_or r (-5)) (\<lambda>(len, cfm_buf).
           bind_res (slice_get 0 len cfm_buf) (\<lambda>p.
             ok_or (parse_dbg_mem_read_cfm_with_addr p mem_addr) (-5))), s'))"

definition send_dbg_mem_read_busrx ::
  "'w bsp_env \<Rightarrow> nat \<Rightarrow> u32 \<Rightarrow> u32 \<Rightarrow> ('w bsp \<Rightarrow> 'w bsp) option \<Rightarrow> ('w bsp, u32) io" where
  "send_dbg_mem_read_busrx env fuel mem_addr timeout_ms after_delay =
     io_bind (push_token DBG_MEM_READ_CFM) (\<lambda>token.
     io_bind (\<lambda>s. (ok_or (aicbsp_current_product_id s) (-22), s)) (\<lambda>pid.
     io_bind (io_lift (serialize_for pid (build_dbg_mem_read_req mem_addr) (replicate 512 0))) (\<lambda>(len, buf).
     io_bind (io_lift (slice_get 0 len buf)) (\<lambda>b.
     io_bind (submit_cmd_tx_and_wait_tx_done env fuel b len) (\<lambda>_.
     io_bind (io_do (env_sleep env 100)) (\<lambda>_.
     io_bind (io_do (case after_delay of None \<Rightarrow> \<lambda>s. s | Some f \<Rightarrow> f)) (\<lambda>_.
     io_bind (wait_token env timeout_ms None None None token) (\<lambda>_.
       take_mem_read token mem_addr))))))))"

text \<open>\<open>buf[a..b].fill(0)\<close> and the common send of the direct exchanges.\<close>

definition fill_range :: "nat \<Rightarrow> nat \<Rightarrow> byte list \<Rightarrow> byte list result" where
  "fill_range a b buf = (if a < b then slice_set a b (replicate (b - a) 0) buf else ok buf)"

definition send_direct :: "'w bsp_env \<Rightarrow> product_id \<Rightarrow> lmac_msg \<Rightarrow> ('w bsp, unit) io" where
  "send_direct env pid msg =
     io_bind (io_lift (serialize_for pid msg (replicate 512 0))) (\<lambda>(len, buf).
       let send_len = (if pid = Aic8801 then ipc_send_len_8801 len else len) in
       io_bind (io_lift (fill_range len send_len buf)) (\<lambda>buf'.
       (\<lambda>s. case sdio_send env buf' send_len s of
                (None, s') \<Rightarrow> (err (-5), s')
              | (Some (Inr _), s') \<Rightarrow> (ok (), s')
              | (Some (Inl e), s') \<Rightarrow> (Inl e, s'))))"

definition send_dbg_mem_read_direct :: "'w bsp_env \<Rightarrow> u32 \<Rightarrow> u32 \<Rightarrow> product_id \<Rightarrow> ('w bsp, u32) io" where
  "send_dbg_mem_read_direct env mem_addr timeout_ms pid =
     io_bind (push_token DBG_MEM_READ_CFM) (\<lambda>token.
     io_bind (send_direct env pid (build_dbg_mem_read_req mem_addr)) (\<lambda>_.
     io_bind (io_do (env_sleep env 100)) (\<lambda>_.
     io_bind (wait_token env timeout_ms None None None token) (\<lambda>_.
       take_mem_read token mem_addr))))"

definition send_dbg_mem_write_direct ::
  "'w bsp_env \<Rightarrow> u32 \<Rightarrow> u32 \<Rightarrow> u32 \<Rightarrow> product_id \<Rightarrow> ('w bsp, unit) io" where
  "send_dbg_mem_write_direct env addr dat timeout_ms pid =
     io_bind (push_token DBG_MEM_WRITE_CFM) (\<lambda>token.
     io_bind (send_direct env pid (build_dbg_mem_write_req addr dat)) (\<lambda>_.
       wait_token env timeout_ms None None None token))"


section \<open>Message lengths\<close>

definition align4 :: "nat \<Rightarrow> nat" where
  "align4 n = (n + 3) div 4 * 4"

lemma pad_len:
  "fst (aicwf_sdio_tx_msg_pad buf n) =
     (if align4 n mod 512 = 0 then align4 n else ((align4 n + 4) div 512 + 1) * 512)"
proof -
  have "n mod 4 = 0 \<Longrightarrow> align4 n = n" unfolding align4_def by presburger
  then show ?thesis
    by (cases "n mod 4 = 0") (simp_all add: aicwf_sdio_tx_msg_pad_def tx_len_defs align4_def Let_def add.commute)
qed

text \<open>
  The two computations of the length on the bus, both meant to be that of
  \<open>aicwf_sdio_tx_msg\<close>: each gives a multiple of the 512-byte block that holds the message, and
  they agree except when the aligned message with its 4-byte tail fills a block exactly; then
  the transmit thread sends a whole block more.
\<close>

theorem ipc_length_vs_pad:
  "fst (aicwf_sdio_tx_msg_pad buf n) = ipc_send_len_8801 n + (if align4 n mod 512 = 508 then 512 else 0) \<and>
   512 dvd ipc_send_len_8801 n \<and> n \<le> ipc_send_len_8801 n"
proof -
  define l where "l = align4 n"
  have l: "n \<le> l" unfolding l_def align4_def by presburger
  have e: "ipc_send_len_8801 n = (if l mod 512 = 0 then l else (l + 515) div 512 * 512)"
    by (simp add: ipc_send_len_8801_def tx_len_defs Let_def l_def align4_def add.commute)
  define q r where "q = l div 512" and "r = l mod 512"
  have qr: "l = 512 * q + r" "r < 512" by (simp_all add: q_def r_def)
  have "4 dvd l" by (simp add: l_def align4_def)
  then have "4 dvd r" unfolding r_def by (simp add: dvd_mod)
  with qr(2) have r: "r \<le> 508" by presburger
  have "(r + 515) div 512 = 1" using r by (simp add: div_nat_eqI)
  then have d1: "(l + 515) div 512 = q + 1" unfolding qr(1) by (simp add: add.assoc)
  have "(r + 4) div 512 = (if r = 508 then 1 else 0)" using r by (auto simp: div_nat_eqI)
  then have d2: "(l + 4) div 512 = q + (if r = 508 then 1 else 0)" unfolding qr(1) by (simp add: add.assoc)
  have "((l + 4) div 512 + 1) * 512 = (l + 515) div 512 * 512 + (if l mod 512 = 508 then 512 else 0)"
    unfolding d1 d2 r_def [symmetric] by simp
  moreover have "l \<le> (l + 515) div 512 * 512" unfolding d1 distrib_right using qr by linarith
  ultimately show ?thesis using l unfolding pad_len e l_def [symmetric] by auto
qed

section \<open>Receiving\<close>

lemma byte_at_ok: "i < length buf \<Longrightarrow> byte_at buf i = ok (buf ! i)"
  by (simp add: byte_at_def)

lemma u16_at_ok: "Suc i < length buf \<Longrightarrow> u16_at buf i = ok (unat (from_le16 (buf ! i) (buf ! Suc i)))"
  by (simp add: u16_at_def byte_at_ok)

lemma deliver_cfm_ok:
  assumes "Suc id_at < length buf" and "start + len \<le> length buf"
  shows "\<exists>i p w'. deliver_cfm cbs buf id_at start len (m, w) = (ok len, (on_cfm i p m, w'))"
  using assms by (simp add: deliver_cfm_def io_bind_def u16_at_ok slice_get_ok) blast

text \<open>
  On any buffer, \<open>parse_one_cfm_at\<close> does not panic, stays inside the \<open>n\<close> bytes received, and
  changes the manager by at most one confirmation.
\<close>

lemma parse_one_cfm_at_safe:
  assumes "n \<le> length buf"
  shows "\<exists>c s'. parse_one_cfm_at cbs buf n off (m, w) = (ok c, s') \<and> (c \<noteq> 0 \<longrightarrow> off + c \<le> n) \<and>
     (fst s' = m \<or> (\<exists>i p. fst s' = on_cfm i p m))"
proof (cases "off + 16 > n")
  case True
  then show ?thesis by (simp add: parse_one_cfm_at_def)
next
  case False
  with assms have len: "off + 16 \<le> length buf" by simp
  define t where "t = buf ! (off + 2)"
  define l1 where "l1 = unat (from_le16 (buf ! (off + 10)) (buf ! (11 + off)))"
  define l2 where "l2 = unat (from_le16 (buf ! (off + 6)) (buf ! (7 + off)))"
  have b: "byte_at buf (off + 2) = ok t" "u16_at buf (off + 10) = ok l1" "u16_at buf (off + 6) = ok l2"
    using len by (simp_all add: byte_at_ok u16_at_ok t_def l1_def l2_def)
  have snd: "\<exists>c s'. (if 0 < l2 \<and> l2 \<le> 256 \<and> off + (8 + l2) \<le> n
             then io_bind (deliver_cfm cbs buf off (off + 8) l2) (\<lambda>_. io_return (8 + l2)) else io_return 0) (m, w) =
             (ok c, s') \<and> (c \<noteq> 0 \<longrightarrow> off + c \<le> n) \<and> (fst s' = m \<or> (\<exists>i p. fst s' = on_cfm i p m))"
    using deliver_cfm_ok [of off buf "off + 8" l2 cbs m w] len assms by (auto simp: io_bind_def) blast
  show ?thesis
  proof (cases "t AND 0x7f = SDIO_TYPE_CFG_CMD_RSP \<and> l1 \<le> 256 \<and> off + (16 + l1) \<le> n")
    case True
    with deliver_cfm_ok [of "off + 4" buf "off + 16" l1 cbs m w] len assms False b show ?thesis
      by (auto simp: parse_one_cfm_at_def io_bind_def) blast
  next
    case c: False
    then have "parse_one_cfm_at cbs buf n off (m, w) =
        (if 0 < l2 \<and> l2 \<le> 256 \<and> off + (8 + l2) \<le> n
         then io_bind (deliver_cfm cbs buf off (off + 8) l2) (\<lambda>_. io_return (8 + l2)) else io_return 0) (m, w)"
      using False b by (auto simp: parse_one_cfm_at_def io_bind_def)
    with snd show ?thesis by simp
  qed
qed

lemma data_frame_at_ok:
  assumes "n \<le> length buf"
  shows "\<exists>x. data_frame_at buf n off = ok x"
  using assms by (auto simp: data_frame_at_def byte_at_ok u16_at_ok Let_def)

lemma rx_loop_safe:
  assumes "n \<le> length buf"
  shows "\<exists>cs w'. rx_loop cbs buf n off (m, w) = (ok (), (fold (\<lambda>(i, p). on_cfm i p) cs m, w'))"
  using assms
proof (induction cbs buf n off "(m, w)" arbitrary: m w rule: rx_loop.induct)
  case (1 cbs buf n off m w)
  show ?case
  proof (cases "off < n")
    case False
    then show ?thesis by (subst rx_loop.simps) (auto intro: exI [of _ "[]"])
  next
    case lt: True
    obtain x where x: "data_frame_at buf n off = ok x" using data_frame_at_ok 1(3) by blast
    show ?thesis
    proof (cases x)
      case (Some ft)
      obtain f tt where ft: "ft = (f, tt)" by fastforce
      from 1(2) [OF lt x Some ft [symmetric] 1(3)] lt x Some ft show ?thesis
        by (subst rx_loop.simps) simp
    next
      case None
      obtain c m1 w1 where p: "parse_one_cfm_at cbs buf n off (m, w) = (ok c, (m1, w1))"
        and m1: "m1 = m \<or> (\<exists>i p. m1 = on_cfm i p m)"
        using parse_one_cfm_at_safe [OF 1(3), of cbs off m w] by (metis fst_conv prod.collapse)
      then obtain cs0 where cs0: "m1 = fold (\<lambda>(i, p). on_cfm i p) cs0 m"
        by (metis (no_types, lifting) case_prod_conv fold_simps)
      show ?thesis
      proof (cases "c = 0")
        case True
        with lt x None p cs0 show ?thesis by (subst rx_loop.simps) auto
      next
        case c: False
        obtain cs w' where "rx_loop cbs buf n (off + c) (m1, w1) = (ok (), (fold (\<lambda>(i, p). on_cfm i p) cs m1, w'))"
          using 1(1) [OF lt x None p [symmetric] refl c 1(3)] by blast
        with lt x None p c cs0 show ?thesis
          by (subst rx_loop.simps) (auto intro: exI [of _ "cs0 @ cs"])
      qed
    qed
  qed
qed

text \<open>
  A stream of frames: a data frame (length, a type byte without the configuration bit, the frame
  padded to 4 bytes) and a confirmation (length and type 0x11, id, destination and source,
  parameter length, pattern, parameters).
\<close>

datatype rx_frame =
    RxData u16 byte "byte list"
  | RxCfm byte byte byte byte u16 "byte list" "byte list" "byte list"

fun rx_frame_ok :: "rx_frame \<Rightarrow> bool" where
  "rx_frame_ok (RxData l t body) \<longleftrightarrow> t AND 0x10 \<noteq> 0x10 \<and> length body = (unat l + 63) div 4 * 4"
| "rx_frame_ok (RxCfm a b t c msg_id mid pat param) \<longleftrightarrow>
     t AND 0x7f = 0x11 \<and> length mid = 4 \<and> length pat = 4 \<and> length param \<le> 256"

fun rx_frame_bytes :: "rx_frame \<Rightarrow> byte list" where
  "rx_frame_bytes (RxData l t body) = le16 l @ [t] @ body"
| "rx_frame_bytes (RxCfm a b t c msg_id mid pat param) =
     [a, b, t, c] @ le16 msg_id @ mid @ le16 (of_nat (length param)) @ pat @ param"

fun rx_effect :: "'w rx_cbs \<Rightarrow> rx_frame \<Rightarrow> cmd_mgr \<times> 'w \<Rightarrow> cmd_mgr \<times> 'w" where
  "rx_effect cbs (RxData l t body) (m, w) =
     (m, case cb_data cbs of None \<Rightarrow> w | Some cb \<Rightarrow> cb (le16 l @ [t] @ take (unat l + 60) body) w)"
| "rx_effect cbs (RxCfm a b t c msg_id mid pat param) (m, w) =
     (on_cfm msg_id param m, case cb_e2a cbs of None \<Rightarrow> w | Some cb \<Rightarrow> cb msg_id param w)"

lemma byte_at_append [simp]: "byte_at (pre @ xs) (length pre + i) = byte_at xs i"
  by (simp add: byte_at_def)

lemma u16_at_append [simp]: "u16_at (pre @ xs) (length pre + i) = u16_at xs i"
  using byte_at_append [of pre xs "Suc i"] by (simp add: u16_at_def)

lemma slice_get_append [simp]: "slice_get (length pre + i) (length pre + j) (pre @ xs) = slice_get i j xs"
  by (simp add: slice_get_def)

lemma byte_at_append0 [simp]: "byte_at (pre @ xs) (length pre) = byte_at xs 0"
  using byte_at_append [of pre xs 0] by simp

lemma byte_at_append2 [simp]: "byte_at (pre @ xs) (Suc (Suc (length pre))) = byte_at xs 2"
  using byte_at_append [of pre xs 2] by simp

lemma u16_at_append0 [simp]: "u16_at (pre @ xs) (length pre) = u16_at xs 0"
  using u16_at_append [of pre xs 0] by simp

lemma u16_at_le16 [simp]: "u16_at (le16 l @ rest) 0 = ok (unat l)"
  using from_le16_le16 [of l] by (simp add: u16_at_def byte_at_def le16_def)

lemma rx_step_data:
  assumes "rx_frame_ok (RxData l t body)"
    and buf_def: "buf = pre @ rx_frame_bytes (RxData l t body) @ rest"
  shows "rx_loop cbs buf (length buf) (length pre) s =
     rx_loop cbs buf (length buf) (length pre + length (rx_frame_bytes (RxData l t body)))
       (rx_effect cbs (RxData l t body) s)"
proof -
  obtain m w where s: "s = (m, w)" by fastforce
  have "t AND SDIO_TYPE_CFG \<noteq> SDIO_TYPE_CFG" using assms(1) by (simp add: SDIO_TYPE_CFG_def)
  moreover have "byte_at (le16 l @ t # body @ rest) 2 = ok t" by (simp add: byte_at_def le16_def)
  ultimately have d: "data_frame_at buf (length buf) (length pre) =
      ok (Some (3 + (unat l + 60), 3 + length body))"
    using assms(1) by (simp add: data_frame_at_def buf_def RX_HWHRD_LEN_DATA_def RX_ALIGNMENT_def Let_def
        add.commute)
  have t3: "take (3 + n) (x # y # z # ys) = x # y # z # take n ys" for n and x y z :: byte and ys
    by (simp add: numeral_eq_Suc)
  have "unat l + 60 \<le> length body" using assms(1) by simp
  moreover have "drop (length pre) buf = ucast l # ucast (drop_bit 8 l) # t # body @ rest"
    by (simp add: buf_def le16_def)
  ultimately have tk: "take (3 + (unat l + 60)) (drop (length pre) buf) = le16 l @ [t] @ take (unat l + 60) body"
    by (simp only: t3) (simp add: le16_def)
  have fl: "length (rx_frame_bytes (RxData l t body)) = 3 + length body" by simp
  have lt: "length pre < length buf" by (simp add: buf_def)
  show ?thesis unfolding s fl using d tk lt
    by (subst rx_loop.simps) (simp only: if_True sum.case option.case prod.case rx_effect.simps)
qed

lemma cfm_type_bits: "t AND 0x7f = (0x11 :: byte) \<Longrightarrow> t AND 0x10 = 0x10"
proof -
  assume "t AND 0x7f = 0x11"
  moreover have "t AND 0x10 = (t AND 0x7f) AND 0x10" by (simp add: and.assoc)
  ultimately show ?thesis by simp
qed

lemma split4: "length xs = 4 \<Longrightarrow> \<exists>a b c d. xs = [a, b, c, d]"
  by (auto simp: numeral_eq_Suc length_Suc_conv)

lemma rx_step_cfm:
  assumes "rx_frame_ok (RxCfm a b t c msg_id mid pat param)"
    and buf_def: "buf = pre @ rx_frame_bytes (RxCfm a b t c msg_id mid pat param) @ rest"
  shows "rx_loop cbs buf (length buf) (length pre) s =
     rx_loop cbs buf (length buf) (length pre + length (rx_frame_bytes (RxCfm a b t c msg_id mid pat param)))
       (rx_effect cbs (RxCfm a b t c msg_id mid pat param) s)"
proof -
  obtain m w where s: "s = (m, w)" by fastforce
  obtain m0 m1 m2 m3 p0 p1 p2 p3 where mp: "mid = [m0, m1, m2, m3]" "pat = [p0, p1, p2, p3]"
    using assms(1) split4 [of mid] split4 [of pat] by auto
  define l :: u16 where "l = of_nat (length param)"
  have l: "unat l = length param" using assms(1) by (simp add: l_def unat_of_nat take_bit_nat_eq_self)
  define xs where "xs = rx_frame_bytes (RxCfm a b t c msg_id mid pat param) @ rest"
  have xs: "xs = a # b # t # c # le16 msg_id @ m0 # m1 # m2 # m3 # le16 l @ p0 # p1 # p2 # p3 # param @ rest"
    by (simp add: xs_def mp l_def)
  have at: "byte_at xs 2 = ok t" "\<exists>v. u16_at xs 0 = ok v" "u16_at xs 4 = ok (unat msg_id)"
    "u16_at xs 10 = ok (length param)" "slice_get 16 (16 + length param) xs = ok param"
    using from_le16_le16 [of msg_id] from_le16_le16 [of l] l
    by (simp_all add: xs byte_at_def u16_at_def le16_def slice_get_def)
  have buf: "buf = pre @ xs" by (simp add: buf_def xs_def)
  have len: "length xs = 16 + length param + length rest" by (simp add: xs)
  have "t AND SDIO_TYPE_CFG = SDIO_TYPE_CFG"
    using assms(1) cfm_type_bits by (simp add: SDIO_TYPE_CFG_def)
  then have d: "data_frame_at buf (length buf) (length pre) = ok None"
    using at(1,2) len by (auto simp: data_frame_at_def buf)
  have "parse_one_cfm_at cbs buf (length buf) (length pre) (m, w) =
      (ok (16 + length param), rx_effect cbs (RxCfm a b t c msg_id mid pat param) (m, w))"
    using at len assms(1)
    by (simp add: parse_one_cfm_at_def buf io_bind_def deliver_cfm_def SDIO_TYPE_CFG_CMD_RSP_def add.assoc
        split: option.split)
  moreover have fl: "length (rx_frame_bytes (RxCfm a b t c msg_id mid pat param)) = 16 + length param"
    by (simp add: mp)
  ultimately show ?thesis unfolding s fl using d by (subst rx_loop.simps) (simp add: buf len)
qed

lemma rx_step:
  assumes "rx_frame_ok f" and "buf = pre @ rx_frame_bytes f @ rest"
  shows "rx_loop cbs buf (length buf) (length pre) s =
     rx_loop cbs buf (length buf) (length (pre @ rx_frame_bytes f)) (rx_effect cbs f s)"
proof (cases f)
  case (RxData l t body)
  show ?thesis using assms rx_step_data [of l t body] unfolding RxData length_append by blast
next
  case (RxCfm a b t c msg_id mid pat param)
  show ?thesis using assms rx_step_cfm [of a b t c msg_id mid pat param] unfolding RxCfm length_append by blast
qed

lemma rx_loop_frames:
  assumes "list_all rx_frame_ok fs" and "buf = pre @ concat (map rx_frame_bytes fs) @ rest"
  shows "rx_loop cbs buf (length buf) (length pre) s =
     rx_loop cbs buf (length buf) (length buf - length rest) (fold (rx_effect cbs) fs s)"
  using assms
proof (induction fs arbitrary: pre s)
  case (Cons f fs)
  then have "rx_loop cbs buf (length buf) (length pre) s =
      rx_loop cbs buf (length buf) (length (pre @ rx_frame_bytes f)) (rx_effect cbs f s)"
    by (intro rx_step) auto
  also have "\<dots> = rx_loop cbs buf (length buf) (length buf - length rest) (fold (rx_effect cbs) fs (rx_effect cbs f s))"
    using Cons.prems by (intro Cons.IH) auto
  finally show ?case by simp
qed simp

lemma rx_loop_zero_tail:
  assumes "k < 63" and "buf = pre @ replicate k 0"
  shows "rx_loop cbs buf (length buf) (length pre) (m, w) = (ok (), (m, w))"
proof -
  have z: "byte_at (replicate k 0) i = ok 0" "u16_at (replicate k 0) i = ok 0" if "Suc i < k" for i
    using that by (simp_all add: byte_at_def u16_at_def from_le16_def)
  have "data_frame_at buf (length buf) (length pre) = ok None"
    using z [of 0] z [of 2] z [of 1] assms by (auto simp: data_frame_at_def RX_HWHRD_LEN_DATA_def RX_ALIGNMENT_def Let_def byte_at_def)
  moreover have "parse_one_cfm_at cbs buf (length buf) (length pre) (m, w) = (ok 0, (m, w))"
    using z [of 2] z [of 6] assms
    by (simp add: parse_one_cfm_at_def io_bind_def SDIO_TYPE_CFG_CMD_RSP_def)
  ultimately show ?thesis by (subst rx_loop.simps) simp
qed

definition pad_frame :: rx_frame where
  "pad_frame = RxData 0 0 (replicate 60 0)"

lemma pad_frame_bytes: "rx_frame_bytes pad_frame = replicate 63 0"
  by (simp add: pad_frame_def le16_def numeral_eq_Suc)

lemma zeros_split: "replicate k (0::byte) =
    concat (map rx_frame_bytes (replicate (k div 63) pad_frame)) @ replicate (k mod 63) 0"
proof -
  have "concat (replicate n (replicate 63 (0::byte))) = replicate (n * 63) 0" for n
    by (induction n) (simp_all add: replicate_add [symmetric])
  then show ?thesis
    by (simp add: map_replicate pad_frame_bytes replicate_add [symmetric])
qed

text \<open>
  (C1) The receive loop delivers a buffer of frames completely and in order: every confirmation
  reaches the command manager and then the indication callback, every data frame the data
  callback with its exact bytes. Zero bytes after the last frame are taken for data frames of
  length 0: each 63 of them cause one call of the data callback.
\<close>

theorem rx_delivers_frames:
  assumes "list_all rx_frame_ok fs"
    and "buf = concat (map rx_frame_bytes fs) @ replicate k 0"
  shows "rx_loop cbs buf (length buf) 0 s =
     (ok (), fold (rx_effect cbs) (fs @ replicate (k div 63) pad_frame) s)"
proof -
  define gs where "gs = fs @ replicate (k div 63) pad_frame"
  have "rx_frame_ok pad_frame" by (simp add: pad_frame_def)
  then have gs: "list_all rx_frame_ok gs" using assms(1) by (auto simp: gs_def list_all_iff in_set_replicate)
  have buf: "buf = concat (map rx_frame_bytes gs) @ replicate (k mod 63) 0"
    unfolding assms(2) gs_def using zeros_split [of k] by simp
  obtain m w where s: "fold (rx_effect cbs) gs s = (m, w)" by fastforce
  have "rx_loop cbs buf (length buf) 0 s =
      rx_loop cbs buf (length buf) (length buf - k mod 63) (fold (rx_effect cbs) gs s)"
    using rx_loop_frames [OF gs, of buf "[]" "replicate (k mod 63) 0" cbs s] buf by simp
  also have "\<dots> = (ok (), (m, w))"
    using rx_loop_zero_tail [of "k mod 63" buf "concat (map rx_frame_bytes gs)" cbs m w] buf s by simp
  finally show ?thesis using s by (simp add: gs_def)
qed

theorem rx_delivers_frames_witness:
  "map_prod id snd (rx_loop \<lparr>cb_e2a = None, cb_data = Some (\<lambda>bs. Suc)\<rparr>
      (rx_frame_bytes (RxCfm 0 0 0x11 0 1027 [0, 0, 0, 0] [0, 0, 0, 0] [1, 2, 3, 4]) @ replicate 492 0)
      512 0 (CmdMgr_new, (0::nat))) = (ok (), 7)"
proof -
  let ?cbs = "\<lparr>cb_e2a = None, cb_data = Some (\<lambda>bs. Suc)\<rparr>"
  have pad: "(rx_effect ?cbs pad_frame ^^ j) (m, 0) = (m, j)" for m j
    by (induction j) (simp_all add: pad_frame_def)
  have "list_all rx_frame_ok [RxCfm 0 0 0x11 0 1027 [0, 0, 0, 0] [0, 0, 0, 0] [1, 2, 3, 4]]" by simp
  from rx_delivers_frames [OF this refl, of ?cbs 492 "(CmdMgr_new, 0)"]
  show ?thesis by (simp add: le16_def pad)
qed

text \<open>
  What the receive path relies on from the host: single-byte reads and block reads return \<open>Ok\<close>
  or \<open>Err\<close>, and a successful block read fills the buffer it was given.
\<close>

definition host_read_law :: "'w sdio_host \<Rightarrow> bool" where
  "host_read_law h \<longleftrightarrow>
     (\<forall>f a w. \<not> is_panic (fst (host_read_byte_at_func h f a w))) \<and>
     (\<forall>a buf w. \<not> is_panic (fst (host_read_block h a buf w)) \<and>
        length (fst (snd (host_read_block h a buf w))) = length buf \<and>
        (\<forall>n. fst (host_read_block h a buf w) = ok n \<longrightarrow> n = length buf))"

definition recv_ok :: "nat \<Rightarrow> byte list \<Rightarrow> nat result \<times> byte list \<times> 'w \<Rightarrow> bool" where
  "recv_ok k buf x \<longleftrightarrow> length (fst (snd x)) = length buf \<and> \<not> is_panic (fst x) \<and> (\<forall>n. fst x = ok n \<longrightarrow> n \<le> k)"

lemma read_prefix_safe:
  assumes "host_read_law h" and "k \<le> length buf" and "k \<le> j"
  shows "recv_ok j buf (read_prefix h base k buf w)"
proof -
  obtain r c w' where e: "host_read_block h base (take k buf) w = (r, c, w')" by (metis prod_cases3)
  have "\<not> is_panic (fst (host_read_block h base (take k buf) w)) \<and>
      length (fst (snd (host_read_block h base (take k buf) w))) = length (take k buf) \<and>
      (\<forall>n. fst (host_read_block h base (take k buf) w) = ok n \<longrightarrow> n = length (take k buf))"
    using assms(1) unfolding host_read_law_def by blast
  with e assms(2,3) show ?thesis by (auto simp: read_prefix_def recv_ok_def)
qed

lemma sd_recv_pkt_safe:
  assumes "host_read_law h" and "unat sz \<le> length buf"
  shows "recv_ok (unat sz) buf (sd_recv_pkt h d buf sz msg w)"
proof -
  define base where "base = (if sd_product_id d = Aic8801 \<or> msg = 0 then FUNC1_BASE else FUNC2_BASE)
                 + ucast (sd_rd_fifo_offset d)"
  have rp: "recv_ok (unat sz) buf (read_prefix h base (min (unat sz) k) buf w)" for k w
    using assms by (intro read_prefix_safe) auto
  have rb: "\<not> is_panic (fst (host_read_byte_at_func h f a w))" for f a w
    using assms(1) by (simp add: host_read_law_def)
  show ?thesis
  proof (cases "sd_product_id d = Aic8801")
    case False
    then show ?thesis using assms(2) rp [of "unat sz" w] by (simp add: sd_recv_pkt_def Let_def base_def)
  next
    case True
    obtain r1 w1 where r1: "host_read_byte_at_func h 1 (ucast REG_BLOCK_CNT) w = (r1, w1)" by fastforce
    obtain r2 w2 where r2: "host_read_byte_at_func h 1 (ucast REG_BYTEMODE_LEN) w1 = (r2, w2)" by fastforce
    from rb [of 1 "ucast REG_BLOCK_CNT" w] rb [of 1 "ucast REG_BYTEMODE_LEN" w1] r1 r2
    have np: "\<not> is_panic r1" "\<not> is_panic r2" by simp_all
    show ?thesis
    proof (cases r1)
      case (Inl e)
      with True assms(2) r1 np show ?thesis by (simp add: sd_recv_pkt_def Let_def recv_ok_def is_panic_def)
    next
      case (Inr bc)
      with True assms(2) r1 have e: "sd_recv_pkt h d buf sz msg w =
          (if bc = 0 then (ok 0, buf, w1)
           else if bc \<ge> BYTEMODE_THRESH
           then (case r2 of Inl e \<Rightarrow> (Inl e, buf, w2) | Inr b \<Rightarrow> read_prefix h base (min (unat sz) (unat b * 4)) buf w2)
           else read_prefix h base (min (unat sz) (unat bc * 512)) buf w1)"
        by (simp add: sd_recv_pkt_def Let_def base_def io_bind_def r2 split: sum.split)
      show ?thesis unfolding e using rp np(2) by (cases r2) (auto simp: recv_ok_def is_panic_def)
    qed
  qed
qed

lemma poll_rx_one_unfold:
  assumes "host_read_law h"
  shows "\<exists>filled r w1. length filled = 512 \<and> \<not> is_panic r \<and> (\<forall>n. r = ok n \<longrightarrow> n \<le> 512) \<and>
     poll_rx_one h d cbs (m, w) =
       (case r of Inl e \<Rightarrow> (Inl e, (m, w1))
        | Inr n \<Rightarrow> if n = 0 then (ok (), (m, w1)) else rx_loop cbs (take n filled) n 0 (m, w1))"
proof -
  obtain r filled w1 where x: "sd_recv_pkt h d (replicate 512 0) 512 1 w = (r, filled, w1)"
    by (metis prod_cases3)
  have "recv_ok 512 (replicate 512 0) (r, filled, w1)"
    using sd_recv_pkt_safe [OF assms, of 512 "replicate 512 0" d 1 w] x by simp
  then have len: "length filled = 512" and np: "\<not> is_panic r" and n: "\<forall>n. r = ok n \<longrightarrow> n \<le> 512"
    by (simp_all add: recv_ok_def)
  have "poll_rx_one h d cbs (m, w) =
       (case r of Inl e \<Rightarrow> (Inl e, (m, w1))
        | Inr n \<Rightarrow> if n = 0 then (ok (), (m, w1)) else rx_loop cbs (take n filled) n 0 (m, w1))"
  proof (cases r)
    case (Inl e)
    then show ?thesis
      by (simp add: poll_rx_one_def Let_def skb_alloc_def alloc_with_headroom_def skb_data_mut_def
          IPC_RX_BUF_SIZE_def x)
  next
    case (Inr k)
    with n have "k \<le> 512" by simp
    with Inr len show ?thesis
      by (simp add: poll_rx_one_def Let_def skb_alloc_def alloc_with_headroom_def skb_data_mut_def
          IPC_RX_BUF_SIZE_def x skb_fill_def slice_set_def skb_set_len_def skb_data_def slice_get_def)
  qed
  with len np n show ?thesis by blast
qed


definition noise_host :: "unit sdio_host" where
  "noise_host =
     \<lparr>host_read_byte = (\<lambda>a. io_return 0xFF), host_write_byte = (\<lambda>a v. io_return ()),
      host_read_byte_f0 = (\<lambda>a. io_return 0xFF), host_read_byte_at_func = (\<lambda>f a. io_return 0xFF),
      host_write_byte_at_func = (\<lambda>f a v. io_return ()),
      host_read_block = (\<lambda>a buf w. (ok (length buf), map (\<lambda>_. 0xFF) buf, w)),
      host_write_block = (\<lambda>a buf. io_return (length buf)), host_delay_us = (\<lambda>n w. w)\<rparr>"


section \<open>What the other threads change\<close>

text \<open>A computation on the receive state that touches the manager through confirmations only.\<close>

definition cfm_io :: "(cmd_mgr \<times> 'w, 'a) io \<Rightarrow> bool" where
  "cfm_io f \<longleftrightarrow> (\<forall>m w. \<exists>cs. fst (snd (f (m, w))) = fold (\<lambda>(i, p). on_cfm i p) cs m)"

lemma cfm_ioI_same: "(\<And>m w. fst (snd (f (m, w))) = m) \<Longrightarrow> cfm_io f"
  unfolding cfm_io_def by (metis fold_simps(1))

lemma cfm_io_return: "cfm_io (io_return x)"
  by (rule cfm_ioI_same) simp

lemma cfm_io_lift: "cfm_io (io_lift r)"
  by (rule cfm_ioI_same) simp

lemma cfm_io_bind:
  assumes "cfm_io f" and "\<And>x. cfm_io (g x)"
  shows "cfm_io (io_bind f g)"
  unfolding cfm_io_def
proof (intro allI)
  fix m w
  obtain r m1 w1 where f: "f (m, w) = (r, (m1, w1))" by (metis prod_cases3)
  with assms(1) obtain cs where cs: "m1 = fold (\<lambda>(i, p). on_cfm i p) cs m"
    unfolding cfm_io_def by (metis fst_conv snd_conv)
  show "\<exists>cs. fst (snd (io_bind f g (m, w))) = fold (\<lambda>(i, p). on_cfm i p) cs m"
  proof (cases r)
    case (Inl e)
    with f cs show ?thesis by (auto simp: io_bind_def)
  next
    case (Inr x)
    from assms(2) [of x] obtain ds where "fst (snd (g x (m1, w1))) = fold (\<lambda>(i, p). on_cfm i p) ds m1"
      unfolding cfm_io_def by blast
    with Inr f cs show ?thesis by (auto simp: io_bind_def intro!: exI [of _ "cs @ ds"])
  qed
qed

lemma cfm_io_deliver: "cfm_io (deliver_cfm cbs buf id_at start len)"
proof -
  have "cfm_io (\<lambda>(m, w). (ok len, (on_cfm i p m, f w)))" for i p f
    unfolding cfm_io_def by (auto intro!: exI [of _ "[(i, p)]"])
  then show ?thesis unfolding deliver_cfm_def by (intro cfm_io_bind cfm_io_lift)
qed

lemma cfm_io_parse: "cfm_io (parse_one_cfm_at cbs buf n off)"
  unfolding parse_one_cfm_at_def
  by (auto intro!: cfm_io_bind cfm_io_lift cfm_io_return cfm_io_deliver)

lemma cfm_io_rx_loop: "cfm_io (rx_loop cbs buf n off)"
proof -
  have "\<exists>cs. fst (snd (rx_loop cbs buf n off (m, w))) = fold (\<lambda>(i, p). on_cfm i p) cs m" for m w
  proof (induction cbs buf n off "(m, w)" arbitrary: m w rule: rx_loop.induct)
    case (1 cbs buf n off m w)
    consider "\<not> off < n \<or> (\<exists>e. data_frame_at buf n off = Inl e)"
      | f k where "off < n" "data_frame_at buf n off = ok (Some (f, k))"
      | "off < n" "data_frame_at buf n off = ok None"
      by (cases "data_frame_at buf n off") (metis option.exhaust prod.exhaust)+
    then show ?case
    proof cases
      case 1
      then show ?thesis by (subst rx_loop.simps) (auto intro: exI [of _ "[]"])
    next
      case (2 f k)
      with "1.hyps"(2) [OF 2(1,2) refl refl] show ?thesis by (subst rx_loop.simps) simp
    next
      case 3
      obtain r m1 w1 where p: "parse_one_cfm_at cbs buf n off (m, w) = (r, (m1, w1))" by (metis prod_cases3)
      with cfm_io_parse [of cbs buf n off] obtain cs where cs: "m1 = fold (\<lambda>(i, p). on_cfm i p) cs m"
        unfolding cfm_io_def by (metis fst_conv snd_conv)
      show ?thesis
      proof (cases "\<exists>c. r = ok c \<and> c \<noteq> 0")
        case True
        then obtain c where c: "r = ok c" "c \<noteq> 0" by blast
        with "1.hyps"(1) [OF 3 refl p [symmetric] c(1,2)] obtain ds where
          "fst (snd (rx_loop cbs buf n (off + c) (m1, w1))) = fold (\<lambda>(i, p). on_cfm i p) ds m1" by blast
        with 3 p c cs show ?thesis by (subst rx_loop.simps) (auto intro!: exI [of _ "cs @ ds"])
      next
        case False
        with 3 p cs show ?thesis by (subst rx_loop.simps) (cases r, auto)
      qed
    qed
  qed
  then show ?thesis by (simp add: cfm_io_def)
qed

lemma cfm_io_poll: "cfm_io (poll_rx_one h d cbs)"
proof -
  have "\<exists>cs. fst (snd (rx_loop cbs buf n off (m, w))) = fold (\<lambda>(i, p). on_cfm i p) cs m" for buf n off m w
    using cfm_io_rx_loop [of cbs buf n off] by (simp add: cfm_io_def)
  moreover have "\<exists>cs. m = fold (\<lambda>(i, p). on_cfm i p) cs m" for m by (rule exI [of _ "[]"]) simp
  ultimately show ?thesis
    unfolding cfm_io_def poll_rx_one_def by (auto simp: Let_def split: sum.splits prod.splits)
qed

text \<open>
  The interface between the main thread and the others: while the main thread waits, the chip
  in use stays the same and the manager changes by confirmations only.
\<close>

definition others_step :: "'w bsp \<Rightarrow> 'w bsp \<Rightarrow> bool" where
  "others_step s s' \<longleftrightarrow>
     current_product_id s' = current_product_id s \<and> sdio_device s' = sdio_device s \<and>
     (\<exists>cs. cmd_mgr_cell s' = map_option (fold (\<lambda>(i, p). on_cfm i p) cs) (cmd_mgr_cell s))"

lemma others_step_same:
  "current_product_id s' = current_product_id s \<Longrightarrow> sdio_device s' = sdio_device s \<Longrightarrow>
   cmd_mgr_cell s' = cmd_mgr_cell s \<Longrightarrow> others_step s s'"
  unfolding others_step_def by (auto intro!: exI [of _ "[]"] simp: option.map_id)

lemma others_step_refl [simp]: "others_step s s"
  by (rule others_step_same) auto

lemma others_step_trans [trans]:
  assumes "others_step s s1" and "others_step s1 s2"
  shows "others_step s s2"
proof -
  from assms obtain cs ds where
    "cmd_mgr_cell s1 = map_option (fold (\<lambda>(i, p). on_cfm i p) cs) (cmd_mgr_cell s)"
    "cmd_mgr_cell s2 = map_option (fold (\<lambda>(i, p). on_cfm i p) ds) (cmd_mgr_cell s1)"
    unfolding others_step_def by blast
  then have "cmd_mgr_cell s2 = map_option (fold (\<lambda>(i, p). on_cfm i p) (cs @ ds)) (cmd_mgr_cell s)"
    by (simp add: option.map_comp comp_def)
  with assms show ?thesis unfolding others_step_def by metis
qed

definition keeps :: "('w bsp, 'a) io \<Rightarrow> bool" where
  "keeps f \<longleftrightarrow> (\<forall>s. others_step s (snd (f s)))"

named_theorems keeps_intros "computations that behave like the other threads"

lemma keeps_return [keeps_intros]: "keeps (io_return x)"
  by (simp add: keeps_def)

lemma keeps_fail [keeps_intros]: "keeps (io_fail e)"
  by (simp add: keeps_def)

lemma keeps_lift [keeps_intros]: "keeps (io_lift r)"
  by (simp add: keeps_def)

lemma keeps_bind [keeps_intros]: "keeps f \<Longrightarrow> (\<And>x. keeps (g x)) \<Longrightarrow> keeps (io_bind f g)"
  unfolding keeps_def io_bind_def
  by (metis (mono_tags, lifting) case_prod_conv others_step_trans prod.collapse snd_conv sum.case_eq_if)

lemma keeps_map_err [keeps_intros]: "keeps f \<Longrightarrow> keeps (io_map_err f e)"
  unfolding keeps_def io_map_err_def
  by (auto split: prod.splits sum.splits rust_error.splits) (metis snd_conv)+

lemma keeps_do [keeps_intros]: "(\<And>s. others_step s (f s)) \<Longrightarrow> keeps (io_do f)"
  by (simp add: keeps_def)

lemma with_sdio_others: "others_step s (snd (with_sdio f s))"
  by (auto simp: with_sdio_def intro: others_step_same split: option.splits prod.splits)

lemma sdio_send_others: "others_step s (snd (sdio_send env buf n s))"
  unfolding sdio_send_def by (rule with_sdio_others)

lemma send_direct_keeps [keeps_intros]: "keeps (send_direct env pid msg)"
proof -
  have "keeps (\<lambda>s. case sdio_send env buf n s of
                (None, s') \<Rightarrow> (err (-5), s')
              | (Some (Inr _), s') \<Rightarrow> (ok (), s')
              | (Some (Inl e), s') \<Rightarrow> (Inl e, s'))" for buf n
    unfolding keeps_def using sdio_send_others [of _ env buf n]
    by (auto split: prod.splits option.splits sum.splits) (metis snd_conv)+
  then show ?thesis
    unfolding send_direct_def Let_def by (auto intro!: keeps_intros split: prod.splits)
qed

lemma run_poll_rx_one_others:
  assumes "\<And>s. others_step s (env_wait_irq_work env s)"
  shows "others_step s (snd (run_poll_rx_one env s))"
proof (cases "cmd_mgr_cell s = None \<or> sdio_device s = None")
  case True
  then show ?thesis by (auto simp: run_poll_rx_one_def split: option.splits)
next
  case False
  then obtain m d where md: "cmd_mgr_cell s = Some m" "sdio_device s = Some d" by auto
  obtain r m' w' where p: "poll_rx_one (env_host env) d (rx_cbs_of s) (m, world s) = (r, (m', w'))"
    by (metis prod_cases3)
  with cfm_io_poll [of "env_host env" d "rx_cbs_of s"] obtain cs where
    "m' = fold (\<lambda>(i, p). on_cfm i p) cs m" unfolding cfm_io_def by (metis fst_conv snd_conv)
  then have "others_step s (s\<lparr>cmd_mgr_cell := Some m', world := w'\<rparr>)"
    using md by (auto simp: others_step_def)
  with assms md p show ?thesis
    by (auto simp: run_poll_rx_one_def Let_def intro: others_step_trans split: sum.splits rust_error.splits)
qed

lemma bustx_send_others:
  assumes "\<And>s. others_step s (env_wait_irq_work env s)"
  shows "others_step s (snd (bustx_send env fuel buf n s))"
proof (induction fuel arbitrary: s)
  case (Suc fuel)
  obtain r s1 where r: "send_result env buf n s = (r, s1)" by fastforce
  have "others_step s s1"
    using sdio_send_others [of s env buf n] r
    by (auto simp: send_result_def split: prod.splits option.splits sum.splits rust_error.splits)
  moreover have "others_step s1 (s1\<lparr>tx_result := x\<rparr>)" for x by (rule others_step_same) auto
  ultimately show ?case using Suc [of "env_wait_irq_work env s1"] assms [of s1] r
    by (auto split: sum.splits intro: others_step_trans)
qed simp

lemma bustx_round_others:
  assumes "\<And>s. others_step s (env_wait_irq_work env s)"
  shows "others_step s (snd (bustx_round env fuel s))"
proof -
  have "others_step s (s\<lparr>pending_cmd_tx := None\<rparr>)" by (rule others_step_same) auto
  then have "others_step s (snd (bustx_send env fuel buf n (s\<lparr>pending_cmd_tx := None\<rparr>)))" for buf n
    using bustx_send_others [OF assms] by (rule others_step_trans)
  then show ?thesis by (simp add: bustx_round_def split: option.splits prod.splits)
qed

text \<open>A live manager: the cell is set and its manager is well-formed.\<close>

definition live :: "'w bsp \<Rightarrow> bool" where
  "live s \<longleftrightarrow> (\<exists>m. cmd_mgr_cell s = Some m \<and> mgr_wf m)"

lemma others_step_frame:
  assumes "others_step s s'" and "cmd_mgr_cell s = Some m" and "mgr_wf m"
  shows "\<exists>m'. cmd_mgr_cell s' = Some m' \<and> mgr_frame m m'"
  using assms cfms_frame [OF assms(3)] by (auto simp: others_step_def)

lemma others_step_live: "others_step s s' \<Longrightarrow> live s \<Longrightarrow> live s'"
  using others_step_frame by (auto simp: live_def mgr_frame_def) blast

definition stays_live :: "('w bsp, 'a) io \<Rightarrow> bool" where
  "stays_live f \<longleftrightarrow> (\<forall>s. live s \<longrightarrow> live (snd (f s)))"

named_theorems live_intros "computations that keep the manager live"

lemma stays_live_keeps: "keeps f \<Longrightarrow> stays_live f"
  unfolding keeps_def stays_live_def using others_step_live by blast

lemma stays_live_bind [live_intros]:
  assumes "stays_live f" and "\<And>x. stays_live (g x)"
  shows "stays_live (io_bind f g)"
  unfolding stays_live_def
proof (intro allI impI)
  fix s :: "'a bsp"
  assume "live s"
  moreover obtain r s1 where f: "f s = (r, s1)" by fastforce
  ultimately have "live s1" using assms(1) unfolding stays_live_def by (metis snd_conv)
  then show "live (snd (io_bind f g s))"
    using assms(2) f unfolding stays_live_def by (cases r) (simp_all add: io_bind_def)
qed

lemma stays_live_map_err [live_intros]: "stays_live f \<Longrightarrow> stays_live (io_map_err f e)"
  unfolding stays_live_def
proof (intro allI impI)
  fix s :: "'a bsp"
  assume "\<forall>s. live s \<longrightarrow> live (snd (f s))" and "live s"
  then have "live (snd (f s))" by blast
  then show "live (snd (io_map_err f e s))"
    by (cases "f s") (auto simp: io_map_err_def split: sum.splits rust_error.splits)
qed

lemma stays_live_for [live_intros]: "(\<And>x. stays_live (f x)) \<Longrightarrow> stays_live (io_for f xs)"
  by (induction xs) (auto intro: live_intros stays_live_keeps keeps_return)

lemma push_token_live [live_intros]: "stays_live (push_token cfm_id)"
  unfolding stays_live_def
proof (intro allI impI)
  fix s :: "'a bsp"
  assume "live s"
  then obtain m where m: "cmd_mgr_cell s = Some m" "mgr_wf m" by (auto simp: live_def)
  with mgr_push_wf [of m cfm_id] show "live (snd (push_token cfm_id s))"
    by (cases "mgr_push cfm_id m") (simp add: push_token_def with_cmd_mgr_def live_def)
qed

text \<open>Taking the confirmation of a finished command, right after the wait that saw it finish.\<close>

lemma take_token_live:
  assumes "live s" and "token_done token s = (True, s1)"
  shows "live (snd (take_token token out s1))"
proof -
  from assms obtain m where m: "cmd_mgr_cell s = Some m" "mgr_wf m" "is_done token m" "s1 = s"
    by (auto simp: live_def token_done_def with_cmd_mgr_def)
  with take_cfm_wf [of m token out] show ?thesis
    by (auto simp: live_def take_token_def with_cmd_mgr_def split: prod.splits)
qed

lemma wait_until_okD:
  "wait_done_until_loop timeout_ms condition tick poll log_every idle waited w = (ok (), w') \<Longrightarrow>
   \<exists>w0. condition w0 = (True, w')"
proof (induction timeout_ms condition tick poll log_every idle waited w rule: wait_done_until_loop.induct)
  case (1 timeout_ms condition tick poll log_every idle waited w)
  obtain c w2 where c: "condition (case poll of None \<Rightarrow> w | Some pf \<Rightarrow> pf w) = (c, w2)" by fastforce
  show ?case
  proof (cases "waited < timeout_ms \<and> \<not> c")
    case False
    with "1.prems" c have "w' = w2 \<and> c"
      by (subst (asm) wait_done_until_loop.simps) (auto simp: Let_def split: if_splits)
    with c show ?thesis by metis
  next
    case True
    with "1.IH" [OF _ refl c [symmetric] refl _ refl] "1.prems" c show ?thesis
      by (subst (asm) (2) wait_done_until_loop.simps) (auto simp: Let_def)
  qed
qed

lemma wait_token_okD:
  assumes "wait_token env timeout_ms tick poll log_every token s = (ok (), s')"
  shows "token_done token s' = (True, s')"
proof -
  from assms obtain s0 where "token_done token s0 = (True, s')"
    using wait_until_okD unfolding wait_token_def wait_done_until_def io_map_err_Inr_iff by metis
  then show ?thesis by (auto simp: token_done_def with_cmd_mgr_def split: option.splits)
qed

text \<open>The free slots the main thread sees; a push takes one or fails with -12.\<close>

lemma push_token_slots:
  assumes "cmd_mgr_cell s = Some m" and "mgr_wf m"
  shows "if mgr_state m = Crashed \<or> occupied m = 8 then push_token cfm_id s = (err (-12), s)
    else \<exists>t m'. push_token cfm_id s = (ok t, s\<lparr>cmd_mgr_cell := Some m'\<rparr>) \<and> mgr_wf m' \<and>
           occupied m' = Suc (occupied m) \<and> mgr_state m' = mgr_state m"
proof (cases "mgr_state m = Crashed \<or> occupied m = 8")
  case True
  then show ?thesis using mgr_push_full [OF assms(2) True, of cfm_id] assms(1)
    by (simp add: push_token_def with_cmd_mgr_def)
next
  case False
  then obtain t m1 where p: "mgr_push cfm_id m = (Some t, m1)"
    using mgr_push_None_iff [OF assms(2), of cfm_id] occupied_full [OF assms(2)]
    by (cases "mgr_push cfm_id m") auto
  from mgr_push_occupied [OF assms(2) this] False p assms(1) show ?thesis
    by (auto simp: push_token_def with_cmd_mgr_def)
qed

text \<open>
  The contract of the waits, and the main thread's exchanges proved from it.
\<close>

locale driver_threads =
  fixes env :: "'w bsp_env"
  assumes sleep_others: "others_step s (env_sleep env n s)"
    and idle_others: "others_step s (env_idle env s)"
    and wait_tx_others: "others_step s (snd (env_wait_tx_done env s))"
    and irq_work_others: "others_step s (env_wait_irq_work env s)"
begin

lemma poll_others: "others_step s (snd (run_poll_rx_one env s))"
  using irq_work_others by (rule run_poll_rx_one_others)

lemma log_f1_others: "others_step s (log_f1_block_cnt_flow_ctrl env n s)"
  unfolding log_f1_block_cnt_flow_ctrl_def by (rule with_sdio_others)

lemma tx_done_loop_keeps: "keeps (tx_done_loop env fuel elapsed)"
proof -
  have "others_step s (snd (tx_done_loop env fuel elapsed s))" for s
  proof (induction fuel arbitrary: elapsed s)
    case (Suc fuel)
    obtain b s1 where w: "env_wait_tx_done env s = (b, s1)" by fastforce
    then have s1: "others_step s s1" using wait_tx_others [of s] by simp
    moreover have "others_step s1 (s1\<lparr>tx_result := None\<rparr>)" by (rule others_step_same) auto
    ultimately show ?case using Suc w by (auto split: option.splits intro: others_step_trans)
  qed simp
  then show ?thesis by (simp add: keeps_def)
qed

lemma submit_keeps: "keeps (submit_cmd_tx_and_wait_tx_done env fuel buf len)"
proof -
  have "others_step s (s\<lparr>tx_result := None, pending_cmd_tx := x\<rparr>)"
    "others_step s (s\<lparr>tx_result := None\<rparr>)" for s :: "'w bsp" and x
    by (rule others_step_same; simp)+
  then show ?thesis
    using tx_done_loop_keeps [of fuel 0] others_step_trans
    unfolding keeps_def submit_cmd_tx_and_wait_tx_done_def
    by (auto split: sum.splits) blast+
qed

lemma wait_until_keeps:
  assumes tick: "\<And>f n s. tick = Some f \<Longrightarrow> others_step s (f n s)"
    and poll: "\<And>f s. poll = Some f \<Longrightarrow> others_step s (f s)"
    and cond: "\<And>s. others_step s (snd (condition s))"
  shows "others_step s (snd (wait_done_until_loop timeout_ms condition tick poll log_every (env_idle env) waited s))"
  using assms
proof (induction timeout_ms condition tick poll log_every "env_idle env" waited s rule: wait_done_until_loop.induct)
  case (1 timeout_ms condition tick poll log_every waited w)
  define w1 where "w1 = (case poll of None \<Rightarrow> w | Some pf \<Rightarrow> pf w)"
  obtain c w2 where c: "condition w1 = (c, w2)" by fastforce
  define w3 where "w3 = (if 0 < waited \<and> 0 < log_every \<and> waited mod log_every = 0
                          then (case tick of None \<Rightarrow> w2 | Some t \<Rightarrow> t waited w2) else w2)"
  have s1: "others_step w w1" using "1.prems"(2) by (auto simp: w1_def split: option.splits)
  have s2: "others_step w1 w2" using "1.prems"(3) [of w1] c by simp
  have s3: "others_step w2 w3" using "1.prems"(1) by (auto simp: w3_def split: option.splits)
  have 12: "others_step w w2" using s1 s2 by (rule others_step_trans)
  show ?case
  proof (cases "waited < timeout_ms \<and> \<not> c")
    case False
    with 12 c show ?thesis by (subst wait_done_until_loop.simps) (auto simp: Let_def w1_def)
  next
    case True
    then have "wait_done_until_loop timeout_ms condition tick poll log_every (env_idle env) waited w =
        wait_done_until_loop timeout_ms condition tick poll log_every (env_idle env) (waited + 1) (env_idle env w3)"
      using c by (subst wait_done_until_loop.simps) (simp add: Let_def w1_def [symmetric] w3_def)
    moreover have "others_step (env_idle env w3) (snd (wait_done_until_loop timeout_ms condition tick poll
        log_every (env_idle env) (waited + 1) (env_idle env w3)))"
      using "1.hyps" [OF _ w1_def c [symmetric] refl _ w3_def] True "1.prems" by blast
    ultimately show ?thesis
      using 12 s3 idle_others [of w3] by (metis others_step_trans)
  qed
qed

lemma wait_token_keeps:
  assumes "\<And>f n s. tick = Some f \<Longrightarrow> others_step s (f n s)"
    and "\<And>f s. poll = Some f \<Longrightarrow> others_step s (f s)"
  shows "keeps (wait_token env timeout_ms tick poll log_every token)"
proof -
  have "others_step s (snd (token_done token s))" for s :: "'w bsp"
    by (auto simp: token_done_def with_cmd_mgr_def intro: others_step_same split: option.splits)
  then have "keeps (wait_done_until timeout_ms (token_done token) tick poll log_every (env_idle env))"
    unfolding keeps_def wait_done_until_def using assms by (intro allI wait_until_keeps) auto
  then show ?thesis unfolding wait_token_def by (rule keeps_map_err)
qed

lemma wait_then_take_live:
  assumes w: "keeps (wait_token env timeout_ms tick poll log_every token)"
    and f: "\<And>s. live (snd (take_token token out s)) \<Longrightarrow> live (snd (f s))"
  shows "stays_live (io_bind (wait_token env timeout_ms tick poll log_every token) (\<lambda>_. f))"
  unfolding stays_live_def
proof (intro allI impI)
  fix s :: "'w bsp"
  assume s: "live s"
  obtain r s1 where r: "wait_token env timeout_ms tick poll log_every token s = (r, s1)" by fastforce
  have l1: "live s1" using stays_live_keeps [OF w] s r unfolding stays_live_def by (metis snd_conv)
  show "live (snd (io_bind (wait_token env timeout_ms tick poll log_every token) (\<lambda>_. f) s))"
  proof (cases r)
    case (Inl e)
    with r l1 show ?thesis by (simp add: io_bind_def)
  next
    case (Inr u)
    with r have "token_done token s1 = (True, s1)" using wait_token_okD by (metis old.unit.exhaust)
    from f [OF take_token_live [OF l1 this]] r Inr show ?thesis by (simp add: io_bind_def)
  qed
qed

lemma wait_take_read_live:
  "stays_live (io_bind (wait_token env timeout_ms None None None token) (\<lambda>_. take_mem_read token a))"
proof (rule wait_then_take_live)
  show "keeps (wait_token env timeout_ms None None None token)" by (rule wait_token_keeps) auto
  show "live (snd (take_mem_read token a s))" if "live (snd (take_token token (replicate 16 0) s))" for s :: "'w bsp"
    using that by (cases "take_token token (replicate 16 0) s") (simp add: take_mem_read_def)
qed

lemma mem_read_direct_live: "stays_live (send_dbg_mem_read_direct env a timeout_ms pid)"
  unfolding send_dbg_mem_read_direct_def
  by (intro stays_live_bind push_token_live wait_take_read_live stays_live_keeps [OF send_direct_keeps]
      stays_live_keeps [OF keeps_do] sleep_others)

lemma mem_read_busrx_live:
  assumes "\<And>f s. after_delay = Some f \<Longrightarrow> others_step s (f s)"
  shows "stays_live (send_dbg_mem_read_busrx env fuel a timeout_ms after_delay)"
proof -
  have "stays_live (\<lambda>s. (ok_or (aicbsp_current_product_id s) (-22), s :: 'w bsp))"
    by (simp add: stays_live_def)
  moreover have "stays_live (io_do (case after_delay of None \<Rightarrow> \<lambda>s. s | Some f \<Rightarrow> f))"
    by (rule stays_live_keeps, rule keeps_do) (auto split: option.splits intro: assms)
  ultimately show ?thesis
    unfolding send_dbg_mem_read_busrx_def
    by (auto intro!: stays_live_bind push_token_live wait_take_read_live stays_live_keeps [OF submit_keeps]
        stays_live_keeps [OF keeps_lift] stays_live_keeps [OF keeps_do] sleep_others)
qed

lemma mem_write_direct_slots:
  assumes c: "cmd_mgr_cell s = Some m" and wf: "mgr_wf m"
  shows "if mgr_state m = Crashed \<or> occupied m = 8
     then send_dbg_mem_write_direct env a d timeout_ms pid s = (err (-12), s)
     else \<exists>m'. cmd_mgr_cell (snd (send_dbg_mem_write_direct env a d timeout_ms pid s)) = Some m' \<and>
            mgr_wf m' \<and> occupied m' = Suc (occupied m) \<and> mgr_state m' = mgr_state m"
proof (cases "mgr_state m = Crashed \<or> occupied m = 8")
  case True
  then show ?thesis using push_token_slots [OF c wf, of DBG_MEM_WRITE_CFM]
    by (simp add: send_dbg_mem_write_direct_def io_bind_def)
next
  case False
  with push_token_slots [OF c wf, of DBG_MEM_WRITE_CFM] obtain t m1 where
    p: "push_token DBG_MEM_WRITE_CFM s = (ok t, s\<lparr>cmd_mgr_cell := Some m1\<rparr>)" and m1: "mgr_wf m1"
      "occupied m1 = Suc (occupied m)" "mgr_state m1 = mgr_state m" by auto
  define rest where "rest = io_bind (send_direct env pid (build_dbg_mem_write_req a d))
      (\<lambda>_. wait_token env timeout_ms None None None t)"
  have "keeps rest" unfolding rest_def by (intro keeps_intros wait_token_keeps) auto
  then have "others_step (s\<lparr>cmd_mgr_cell := Some m1\<rparr>) (snd (rest (s\<lparr>cmd_mgr_cell := Some m1\<rparr>)))"
    by (simp add: keeps_def)
  from others_step_frame [OF this _ m1(1)] obtain m' where
    "cmd_mgr_cell (snd (rest (s\<lparr>cmd_mgr_cell := Some m1\<rparr>))) = Some m'" "mgr_frame m1 m'" by auto
  moreover have "send_dbg_mem_write_direct env a d timeout_ms pid s = rest (s\<lparr>cmd_mgr_cell := Some m1\<rparr>)"
    using p by (simp add: send_dbg_mem_write_direct_def rest_def io_bind_def)
  ultimately show ?thesis using False m1 by (auto simp: mgr_frame_def)
qed

end

text \<open>
  The driver's own threads as the environment: during a wait the receive thread or the
  transmit thread runs one round. A transmit wait times out when no result has arrived.
\<close>

definition thread_env :: "'w sdio_host \<Rightarrow> nat \<Rightarrow> (string \<Rightarrow> byte list option) \<Rightarrow> 'w bsp_env" where
  "thread_env h fuel embedded =
     (let e0 = \<lparr>env_host = h, env_sleep = (\<lambda>_ s. s), env_idle = (\<lambda>s. s), env_wait_tx_done = (\<lambda>s. (True, s)),
                env_wait_irq_work = (\<lambda>s. s), env_embedded = embedded\<rparr>
      in e0\<lparr>env_sleep := \<lambda>_ s. snd (busrx_round e0 s), env_idle := \<lambda>s. snd (busrx_round e0 s),
            env_wait_tx_done := \<lambda>s. let s' = snd (bustx_round e0 fuel s) in (tx_result s' = None, s')\<rparr>)"

interpretation threads: driver_threads "thread_env h fuel embedded" for h fuel embedded
proof unfold_locales
  define e0 :: "'a bsp_env" where "e0 =
    \<lparr>env_host = h, env_sleep = (\<lambda>_ s. s), env_idle = (\<lambda>s. s), env_wait_tx_done = (\<lambda>s. (True, s)),
     env_wait_irq_work = (\<lambda>s. s), env_embedded = embedded\<rparr>"
  have e: "thread_env h fuel embedded = e0\<lparr>env_sleep := \<lambda>_ s. snd (busrx_round e0 s),
      env_idle := \<lambda>s. snd (busrx_round e0 s),
      env_wait_tx_done := \<lambda>s. let s' = snd (bustx_round e0 fuel s) in (tx_result s' = None, s')\<rparr>"
    by (simp add: thread_env_def e0_def Let_def)
  have irq: "others_step s (env_wait_irq_work e0 s)" for s by (simp add: e0_def)
  have rx: "others_step s (snd (busrx_round e0 s))" for s
    using run_poll_rx_one_others [OF irq] by (simp add: busrx_round_def)
  have tx: "others_step s (snd (bustx_round e0 fuel s))" for s
    using bustx_round_others [OF irq] by simp
  fix s :: "'a bsp" and n :: nat
  show "others_step s (env_sleep (thread_env h fuel embedded) n s)" using rx by (simp add: e)
  show "others_step s (env_idle (thread_env h fuel embedded) s)" using rx by (simp add: e)
  show "others_step s (snd (env_wait_tx_done (thread_env h fuel embedded) s))" using tx by (simp add: e Let_def)
  show "others_step s (env_wait_irq_work (thread_env h fuel embedded) s)" by (simp add: e e0_def)
qed

section \<open>Submitting a command\<close>

lemma fill0_zeros:
  assumes "length buf \<le> a" and "a \<le> b"
  shows "fill0 a b (buf @ replicate k 0) = buf @ replicate k 0"
proof (cases "b \<le> length (buf @ replicate k (0::byte))")
  case True
  then have "take a (buf @ replicate k 0) @ replicate (b - a) 0 @ drop b (buf @ replicate k 0) =
      buf @ replicate (a - length buf) (0::byte) @ replicate (b - a) 0 @ replicate (k - (b - length buf)) 0"
    using assms by (auto simp: min_def)
  also have "\<dots> = buf @ replicate k 0"
    using assms True by (simp add: replicate_add [symmetric])
  finally show ?thesis using True by (simp add: fill0_def)
qed (simp add: fill0_def)

lemma pad_zeros:
  "snd (aicwf_sdio_tx_msg_pad (buf @ replicate k 0) (length buf)) = buf @ replicate k 0"
proof -
  have "length buf \<le> (length buf + 3) div 4 * 4" by presburger
  then show ?thesis
    by (auto simp: aicwf_sdio_tx_msg_pad_def Let_def tx_len_defs fill0_zeros add.commute)
qed

lemma pad_len_le: "n \<le> 1528 \<Longrightarrow> fst (aicwf_sdio_tx_msg_pad buf n) \<le> 1536 \<and> n \<le> fst (aicwf_sdio_tx_msg_pad buf n)"
proof -
  assume "n \<le> 1528"
  then have "align4 n \<le> 1528" "n \<le> align4 n" unfolding align4_def by presburger+
  moreover from this have "(align4 n + 4) div 512 \<le> 2" by linarith
  moreover have "align4 n + 4 < ((align4 n + 4) div 512 + 1) * 512"
    by (metis add.commute add_mult_distrib dividend_less_div_times mult_1 zero_less_numeral)
  ultimately show ?thesis unfolding pad_len by auto
qed


definition sample_bsp :: "unit bsp" where
  "sample_bsp =
     \<lparr>current_product_id = 1, sdio_device = Some (Aic8800Sdio_new Aic8800Dc), cmd_mgr_cell = None,
      busrx_running = True, bustx_running = True, busrx_started = True, bustx_started = True,
      pending_cmd_tx = None, tx_result = None, e2a_indication_cb = None, rx_data_indication_cb = None,
      probe_done = True, wifi_firmware_store = [], world = ()\<rparr>"


lemma tx_done_loop_ends:
  assumes ns: "\<forall>s. fst (env_wait_tx_done env s) \<or> tx_result (snd (env_wait_tx_done env s)) \<noteq> None"
    and fuel: "j < 100" "100 - j \<le> fuel"
  shows "fst (tx_done_loop env fuel (50 * j) s) \<noteq> Inl Hang"
  using fuel
proof (induction fuel arbitrary: j s)
  case (Suc fuel)
  obtain b s1 where w: "env_wait_tx_done env s = (b, s1)" by fastforce
  show ?case
  proof (cases "tx_result s1")
    case None
    with ns [rule_format, of s] w have b: "b" by auto
    show ?thesis
    proof (cases "50 * j + 50 \<ge> 5000")
      case True
      with None w b show ?thesis by (simp add: TX_DONE_CHUNK_MS_def TX_DONE_TIMEOUT_MS_def)
    next
      case False
      with Suc.prems have "fst (tx_done_loop env fuel (50 * Suc j) s1) \<noteq> Inl Hang" by (intro Suc.IH) auto
      with False None w b show ?thesis
        by (simp add: TX_DONE_CHUNK_MS_def TX_DONE_TIMEOUT_MS_def add.commute)
    qed
  qed (use w in simp)
qed simp

lemma tx_done_loop_timeout:
  assumes "env_wait_tx_done env s = (True, s)" and "tx_result s = None" and "j < 100" and "100 - j \<le> fuel"
  shows "tx_done_loop env fuel (50 * j) s = (err (-110), s)"
  using assms(3,4)
proof (induction fuel arbitrary: j)
  case (Suc fuel)
  then show ?case using assms(1,2) Suc.IH [of "Suc j"]
    by (auto simp: TX_DONE_CHUNK_MS_def TX_DONE_TIMEOUT_MS_def add.commute)
qed simp

text \<open>
  (C39) The wait for the transmit result ends: when no wake-up is spurious, a hundred rounds are
  enough, whatever the transmit thread does. If the thread never answers, the caller gets -110 and
  the message stays in the shared cell.
\<close>

theorem submit_terminates:
  assumes "\<forall>s. fst (env_wait_tx_done env s) \<or> tx_result (snd (env_wait_tx_done env s)) \<noteq> None"
    and "100 \<le> fuel" and "length buf \<le> 1536"
  shows "fst (submit_cmd_tx_and_wait_tx_done env fuel buf (length buf) s) \<noteq> Inl Hang \<and>
    ((\<forall>s. env_wait_tx_done env s = (True, s)) \<longrightarrow>
       submit_cmd_tx_and_wait_tx_done env fuel buf (length buf) s =
         (err (-110), s\<lparr>tx_result := None,
                        pending_cmd_tx := Some (buf @ replicate (1536 - length buf) 0, length buf)\<rparr>))"
proof -
  have ss: "slice_set 0 (length buf) buf (replicate 1536 0) = ok (buf @ replicate (1536 - length buf) 0)"
    using assms(3) by (simp add: slice_set_def)
  then show ?thesis
    using tx_done_loop_ends [OF assms(1), of 0 fuel] tx_done_loop_timeout [of env _ 0 fuel] assms(2,3)
    by (auto simp: submit_cmd_tx_and_wait_tx_done_def PENDING_CMD_TX_CAP_def)
qed

theorem submit_terminates_witness:
  "fst (submit_cmd_tx_and_wait_tx_done ((thread_env noise_host 1 (\<lambda>_. None))\<lparr>env_wait_tx_done := \<lambda>s. (True, s)\<rparr>)
      100 [1, 2, 3] 3 sample_bsp) = err (-110)"
  using submit_terminates [of "(thread_env noise_host 1 (\<lambda>_. None))\<lparr>env_wait_tx_done := \<lambda>s. (True, s)\<rparr>"
      100 "[1, 2, 3]" sample_bsp]
  by (simp add: numeral_3_eq_3)

end
