(* ===== verification/Sd1_Power.thy ===== *)
theory Sd1_Power
  imports Backend
begin

text \<open>
  Power and reset of the module and the set-up of the SD1 controller: the GPIO driver
  (\<open>driver/bsp/src/gpio.rs\<close>) and the pin, clock and controller initialisation of
  \<open>driver/bsp/src/sdio/backend.rs\<close>. Registers are addressed physically (\<open>phys\<close>);
  \<open>phys_to_virt\<close> is the platform's and does not appear. Read-backs that only feed a log line
  stay, because a read of a device register is an access.
\<close>

section \<open>GPIO controller\<close>

definition GPIO0_BASE :: nat where "GPIO0_BASE = 0x03020000"
definition GPIO1_BASE :: nat where "GPIO1_BASE = 0x03021000"
definition GPIO2_BASE :: nat where "GPIO2_BASE = 0x03022000"
definition GPIO3_BASE :: nat where "GPIO3_BASE = 0x03023000"
definition SWPORTA_DR :: nat where "SWPORTA_DR = 0x00"
definition SWPORTA_DDR :: nat where "SWPORTA_DDR = 0x04"

record gpio_pin =
  gp_controller :: u8
  gp_pin :: u8

definition WIFI_POWER_EN :: gpio_pin where "WIFI_POWER_EN = \<lparr>gp_controller = 0, gp_pin = 26\<rparr>"

text \<open>A controller is its base address.\<close>

definition GpioController_new :: "u8 \<Rightarrow> nat result" where
  "GpioController_new controller =
     (if controller = 0 then ok GPIO0_BASE else if controller = 1 then ok GPIO1_BASE
      else if controller = 2 then ok GPIO2_BASE else if controller = 3 then ok GPIO3_BASE
      else Inl (Ax InvalidInput))"

definition gpio_set_output :: "'w mmio \<Rightarrow> nat \<Rightarrow> u8 \<Rightarrow> ('w, unit) io" where
  "gpio_set_output phys base pin =
     (if 32 \<le> pin then io_fail (Ax InvalidInput)
      else io_bind (read_reg phys (base + SWPORTA_DDR)) (\<lambda>ddr.
             write_reg phys (base + SWPORTA_DDR) (ddr OR push_bit (unat pin) 1)))"

definition gpio_set_input :: "'w mmio \<Rightarrow> nat \<Rightarrow> u8 \<Rightarrow> ('w, unit) io" where
  "gpio_set_input phys base pin =
     (if 32 \<le> pin then io_fail (Ax InvalidInput)
      else io_bind (read_reg phys (base + SWPORTA_DDR)) (\<lambda>ddr.
             write_reg phys (base + SWPORTA_DDR) (ddr AND NOT (push_bit (unat pin) 1))))"

definition gpio_set_pin :: "'w mmio \<Rightarrow> nat \<Rightarrow> u8 \<Rightarrow> bool \<Rightarrow> ('w, unit) io" where
  "gpio_set_pin phys base pin high =
     (if 32 \<le> pin then io_fail (Ax InvalidInput)
      else io_bind (read_reg phys (base + SWPORTA_DR)) (\<lambda>dr.
             write_reg phys (base + SWPORTA_DR)
               (if high then dr OR push_bit (unat pin) 1 else dr AND NOT (push_bit (unat pin) 1))))"

definition gpio_get_pin :: "'w mmio \<Rightarrow> nat \<Rightarrow> u8 \<Rightarrow> ('w, bool) io" where
  "gpio_get_pin phys base pin =
     (if 32 \<le> pin then io_fail (Ax InvalidInput)
      else io_bind (read_reg phys (base + SWPORTA_DR)) (\<lambda>dr.
             io_return (dr AND push_bit (unat pin) 1 \<noteq> 0)))"

section \<open>The WiFi power pin\<close>

record wifi_gpio =
  wg_gpio :: nat
  wg_pin :: gpio_pin

definition WifiGpioControl_new :: "wifi_gpio result" where
  "WifiGpioControl_new =
     bind_res (GpioController_new (gp_controller WIFI_POWER_EN)) (\<lambda>gpio.
       ok \<lparr>wg_gpio = gpio, wg_pin = WIFI_POWER_EN\<rparr>)"

definition wifi_gpio_init :: "'w mmio \<Rightarrow> wifi_gpio \<Rightarrow> ('w, unit) io" where
  "wifi_gpio_init phys g = gpio_set_output phys (wg_gpio g) (gp_pin (wg_pin g))"

definition wifi_power_on :: "'w mmio \<Rightarrow> wifi_gpio \<Rightarrow> ('w, unit) io" where
  "wifi_power_on phys g =
     io_bind (gpio_set_pin phys (wg_gpio g) (gp_pin (wg_pin g)) False) (\<lambda>_.
     io_bind (io_do (mmio_sleep_ms phys 50)) (\<lambda>_.
     io_bind (gpio_set_pin phys (wg_gpio g) (gp_pin (wg_pin g)) True) (\<lambda>_.
       io_do (mmio_sleep_ms phys 50))))"

definition wifi_reset :: "'w mmio \<Rightarrow> wifi_gpio \<Rightarrow> ('w, unit) io" where
  "wifi_reset phys g = wifi_power_on phys g"

definition power_on_and_reset :: "'w mmio \<Rightarrow> wifi_gpio \<Rightarrow> ('w, unit) io" where
  "power_on_and_reset phys g = wifi_power_on phys g"

definition readback_state :: "'w mmio \<Rightarrow> wifi_gpio \<Rightarrow> ('w, bool \<times> bool) io" where
  "readback_state phys g =
     io_bind (gpio_get_pin phys (wg_gpio g) (gp_pin (wg_pin g))) (\<lambda>high. io_return (high, high))"

definition verify_after_power_on :: "'w mmio \<Rightarrow> wifi_gpio \<Rightarrow> ('w, bool) io" where
  "verify_after_power_on phys g = gpio_get_pin phys (wg_gpio g) (gp_pin (wg_pin g))"

definition wifi_power_off :: "'w mmio \<Rightarrow> wifi_gpio \<Rightarrow> ('w, unit) io" where
  "wifi_power_off phys g =
     io_bind (gpio_set_pin phys (wg_gpio g) (gp_pin (wg_pin g)) False) (\<lambda>_.
       io_do (mmio_sleep_ms phys 100))"

section \<open>Pins, reset and clock of SD1\<close>

definition SD1_PHYS_BASE :: nat where "SD1_PHYS_BASE = 0x04320000"
definition RSTGEN_SOFT_RSTN_0_ADDR :: nat where "RSTGEN_SOFT_RSTN_0_ADDR = 0x03003000"
definition RSTGEN_SD1_BIT :: u32 where "RSTGEN_SD1_BIT = push_bit 17 1"
definition CLKGEN_CLK_EN_0_ADDR :: nat where "CLKGEN_CLK_EN_0_ADDR = 0x03002000"
definition CLKGEN_SD1_BITS :: u32 where "CLKGEN_SD1_BITS = push_bit 21 1 OR push_bit 22 1 OR push_bit 23 1"
definition PINMUX_BASE :: nat where "PINMUX_BASE = 0x03001000"
definition PINMUX_WIFI_PWR :: nat where "PINMUX_WIFI_PWR = 0x04C"

text \<open>D3, D2, D1, D0, CMD, CLK\<close>

definition SD1_PINMUX :: "nat list" where "SD1_PINMUX = [0x0D0, 0x0D4, 0x0D8, 0x0DC, 0x0E0, 0x0E4]"

definition set_wifi_power_pinmux_to_gpio :: "'w mmio \<Rightarrow> ('w, unit) io" where
  "set_wifi_power_pinmux_to_gpio phys = write_reg phys (PINMUX_BASE + PINMUX_WIFI_PWR) 0x3"

definition set_sd1_sdio_pinmux_after_power :: "'w mmio \<Rightarrow> ('w, unit) io" where
  "set_sd1_sdio_pinmux_after_power phys = io_for (\<lambda>off. write_reg phys (PINMUX_BASE + off) 0) SD1_PINMUX"

definition sd1_host_init :: "'w mmio \<Rightarrow> ('w, unit) io" where
  "sd1_host_init phys =
     io_bind (read_reg phys RSTGEN_SOFT_RSTN_0_ADDR) (\<lambda>v.
     io_bind (write_reg phys RSTGEN_SOFT_RSTN_0_ADDR (v OR RSTGEN_SD1_BIT)) (\<lambda>_.
     io_bind (read_reg phys RSTGEN_SOFT_RSTN_0_ADDR) (\<lambda>_.
     io_bind (read_reg phys CLKGEN_CLK_EN_0_ADDR) (\<lambda>v.
     io_bind (write_reg phys CLKGEN_CLK_EN_0_ADDR (v OR CLKGEN_SD1_BITS)) (\<lambda>_.
     io_bind (read_reg phys CLKGEN_CLK_EN_0_ADDR) (\<lambda>_.
     io_bind (write_reg phys (PINMUX_BASE + PINMUX_WIFI_PWR) 0x3) (\<lambda>_.
       io_for (\<lambda>off. write_reg phys (PINMUX_BASE + off) 0) SD1_PINMUX)))))))"

section \<open>Controller set-up\<close>

definition R_INT_STS_EN :: nat where "R_INT_STS_EN = 0x034"
definition R_INT_SIG_EN :: nat where "R_INT_SIG_EN = 0x038"
definition R_POWER_CONTROL :: nat where "R_POWER_CONTROL = 0x029"
definition R_BLOCK_GAP_CONTROL :: nat where "R_BLOCK_GAP_CONTROL = 0x02A"
definition R_WAKE_UP_CONTROL :: nat where "R_WAKE_UP_CONTROL = 0x02B"
definition R_TIMEOUT_CONTROL :: nat where "R_TIMEOUT_CONTROL = 0x02E"
definition R_P_VENDOR_SPECIFIC_AREA :: nat where "R_P_VENDOR_SPECIFIC_AREA = 0x0E8"
definition VENDOR_PHY_TX_RX_DLY_OFF :: nat where "VENDOR_PHY_TX_RX_DLY_OFF = 0x40"
definition VENDOR_PHY_CONFIG_OFF :: nat where "VENDOR_PHY_CONFIG_OFF = 0x4C"

definition DEFAULT_IER :: u32 where
  "DEFAULT_IER = 0x00800000 OR 0x00400000 OR 0x00200000 OR 0x00100000 OR 0x00080000 OR 0x00040000
     OR 0x00020000 OR 0x00010000 OR 0x00000002 OR 0x00000001 OR 0x00001000"

text \<open>The SD1 controller inside the physical address space.\<close>

definition sd1_mmio :: "'w mmio \<Rightarrow> 'w mmio" where
  "sd1_mmio phys =
     \<lparr>mmio_read = (\<lambda>off. mmio_read phys (SD1_PHYS_BASE + off)),
      mmio_write = (\<lambda>off. mmio_write phys (SD1_PHYS_BASE + off)),
      mmio_sleep_ms = mmio_sleep_ms phys\<rparr>"

fun reset_all_poll :: "'w mmio \<Rightarrow> nat \<Rightarrow> ('w, unit) io" where
  "reset_all_poll m 0 = io_return ()"
| "reset_all_poll m (Suc k) =
     io_bind (read_reg m R_CLK_CTL_SWRST) (\<lambda>v.
       if v AND push_bit 24 1 = 0
       then io_bind (write_reg m R_INT_STS_EN DEFAULT_IER) (\<lambda>_. write_reg m R_INT_SIG_EN DEFAULT_IER)
       else reset_all_poll m k)"

definition reset_all :: "'w mmio \<Rightarrow> ('w, unit) io" where
  "reset_all m =
     io_bind (write_reg m R_INT_STS_EN 0) (\<lambda>_.
     io_bind (write_reg m R_INT_SIG_EN 0) (\<lambda>_.
     io_bind (write_reg m R_CLK_CTL_SWRST (push_bit 24 1)) (\<lambda>_. reset_all_poll m 100000)))"

text \<open>\<open>write8\<close> is the 8-bit register write of the controller.\<close>

definition enable_sd_interface_clock :: "'w mmio \<Rightarrow> (nat \<Rightarrow> u8 \<Rightarrow> 'w \<Rightarrow> 'w) \<Rightarrow> ('w, unit) io" where
  "enable_sd_interface_clock m write8 =
     io_bind (reset_all m) (\<lambda>_.
     io_bind (io_do (write8 R_POWER_CONTROL (0x01 OR 0x0E))) (\<lambda>_.
     io_bind (io_do (write8 R_BLOCK_GAP_CONTROL 0)) (\<lambda>_.
     io_bind (io_do (write8 R_WAKE_UP_CONTROL 0)) (\<lambda>_.
     io_bind (io_do (write8 R_TIMEOUT_CONTROL 0x0E)) (\<lambda>_.
     io_bind (read_reg m R_HOST_CTRL1) (\<lambda>host_ctrl.
     io_bind (write_reg m R_HOST_CTRL1 (host_ctrl OR push_bit 6 1 OR push_bit 7 1)) (\<lambda>_.
     io_bind (read_reg m R_P_VENDOR_SPECIFIC_AREA) (\<lambda>vendor_area.
       let vendor_base = unat (vendor_area AND 0xFFF) in
     io_bind (read_reg m vendor_base) (\<lambda>ctrl.
     io_bind (write_reg m vendor_base (ctrl OR push_bit 0 1 OR push_bit 1 1 OR push_bit 16 1)) (\<lambda>_.
     io_bind (write_reg m (vendor_base + VENDOR_PHY_TX_RX_DLY_OFF) 0x1000100) (\<lambda>_.
     io_bind (read_reg m (vendor_base + VENDOR_PHY_CONFIG_OFF)) (\<lambda>cfg.
     io_bind (write_reg m (vendor_base + VENDOR_PHY_CONFIG_OFF) (cfg OR 1)) (\<lambda>_.
     io_bind (write_reg m R_INT_STS_EN DEFAULT_IER) (\<lambda>_.
     io_bind (write_reg m R_INT_SIG_EN DEFAULT_IER) (\<lambda>_.
       set_clock m 400000)))))))))))))))"

definition new_sd1_with_card_init :: "'w mmio \<Rightarrow> (nat \<Rightarrow> u8 \<Rightarrow> 'w \<Rightarrow> 'w) \<Rightarrow> ('w, u16) io" where
  "new_sd1_with_card_init phys write8 =
     io_bind (sd1_host_init phys) (\<lambda>_.
     io_bind (enable_sd_interface_clock (sd1_mmio phys) write8) (\<lambda>_.
       sdio_card_init (sd1_mmio phys)))"

definition aicbsp_power_on_with_stable_ms :: "'w mmio \<Rightarrow> nat \<Rightarrow> ('w, unit) io" where
  "aicbsp_power_on_with_stable_ms phys stable_ms =
     io_bind (set_wifi_power_pinmux_to_gpio phys) (\<lambda>_.
     io_bind (io_lift WifiGpioControl_new) (\<lambda>g.
     io_bind (wifi_gpio_init phys g) (\<lambda>_.
     io_bind (power_on_and_reset phys g) (\<lambda>_.
     io_bind (io_unwrap_or (verify_after_power_on phys g) False) (\<lambda>_.
     io_bind (io_do (mmio_sleep_ms phys 50)) (\<lambda>_.
     io_bind (set_sd1_sdio_pinmux_after_power phys) (\<lambda>_.
       io_do (mmio_sleep_ms phys stable_ms))))))))"

definition POST_POWER_STABLE_MS :: nat where "POST_POWER_STABLE_MS = 1000"

definition aicbsp_power_on :: "'w mmio \<Rightarrow> ('w, unit) io" where
  "aicbsp_power_on phys = aicbsp_power_on_with_stable_ms phys POST_POWER_STABLE_MS"

section \<open>Properties\<close>

text \<open>
  A register bank: the registers at the given addresses keep what is written, and time leaves
  them alone. \<open>reg\<close> reads the bank from the world.
\<close>

definition reg_bank :: "'w mmio \<Rightarrow> ('w \<Rightarrow> nat \<Rightarrow> u32) \<Rightarrow> bool" where
  "reg_bank phys reg \<longleftrightarrow>
     (\<forall>a w. fst (mmio_read phys a w) = reg w a \<and> reg (snd (mmio_read phys a w)) = reg w) \<and>
     (\<forall>a v w. reg (mmio_write phys a v w) = (reg w)(a := v)) \<and>
     (\<forall>n w. reg (mmio_sleep_ms phys n w) = reg w)"

lemma bank_read:
  assumes "reg_bank phys reg"
  obtains w' where "read_reg phys a w = (ok (reg w a), w')" and "reg w' = reg w"
proof -
  have "fst (mmio_read phys a w) = reg w a" "reg (snd (mmio_read phys a w)) = reg w"
    using assms by (simp_all add: reg_bank_def)
  then show ?thesis using that by (cases "mmio_read phys a w") (simp add: read_reg_def)
qed

lemma bank_write: "reg_bank phys reg \<Longrightarrow>
   \<exists>w'. write_reg phys a v w = (ok (), w') \<and> reg w' = (reg w)(a := v)"
  by (simp add: reg_bank_def write_reg_def)

lemma bank_sleep: "reg_bank phys reg \<Longrightarrow> \<exists>w'. io_do (mmio_sleep_ms phys n) w = (ok (), w') \<and> reg w' = reg w"
  by (simp add: reg_bank_def)

lemma bank_pinmux:
  assumes "reg_bank phys reg"
  shows "\<exists>w'. io_for (\<lambda>off. write_reg phys (PINMUX_BASE + off) 0) offs w = (ok (), w') \<and>
     reg w' = (\<lambda>a. if a \<in> (+) PINMUX_BASE ` set offs then 0 else reg w a)"
proof (induction offs arbitrary: w)
  case (Cons off offs)
  obtain w1 where w1: "write_reg phys (PINMUX_BASE + off) 0 w = (ok (), w1)"
    "reg w1 = (reg w)(PINMUX_BASE + off := 0)" using bank_write [OF assms] by blast
  obtain w2 where "io_for (\<lambda>off. write_reg phys (PINMUX_BASE + off) 0) offs w1 = (ok (), w2)"
    "reg w2 = (\<lambda>a. if a \<in> (+) PINMUX_BASE ` set offs then 0 else reg w1 a)" using Cons.IH by blast
  with w1 show ?case by (auto simp: io_bind_def fun_eq_iff)
qed simp

lemma set_pin_bank:
  assumes "reg_bank phys reg" and "pin < 32"
  shows "\<exists>w'. gpio_set_pin phys base pin high w = (ok (), w') \<and>
     reg w' = (reg w)(base := (if high then reg w base OR push_bit (unat pin) 1
                               else reg w base AND NOT (push_bit (unat pin) 1)))"
proof -
  obtain w1 where w1: "read_reg phys (base + SWPORTA_DR) w = (ok (reg w base), w1)" "reg w1 = reg w"
    using bank_read [OF assms(1), of "base + SWPORTA_DR" w] by (auto simp: SWPORTA_DR_def)
  with bank_write [OF assms(1), of "base + SWPORTA_DR" _ w1] assms(2) show ?thesis
    by (auto simp: gpio_set_pin_def io_bind_def SWPORTA_DR_def)
qed

lemma pin_bits:
  fixes x :: u32
  shows "x AND NOT (push_bit k 1) OR push_bit k 1 = set_bit k x" and "x OR push_bit k 1 = set_bit k x"
  by (rule bit_word_eqI; auto simp: bit_simps)+

text \<open>
  (C36) Power-up: on a bank of registers that hold what is written, the sequence succeeds; the
  power pin is an output at high level, all other GPIO lines and directions keep their values,
  and the pins are routed to GPIO (the power pin) and to SD1 (the six bus pins).
\<close>

theorem power_on_sequence:
  assumes "reg_bank phys reg"
  shows "\<exists>w'. aicbsp_power_on phys w = (ok (), w') \<and>
     reg w' = (\<lambda>a. if a = 0x0300104C then 3
                   else if a \<in> {0x030010D0, 0x030010D4, 0x030010D8, 0x030010DC, 0x030010E0, 0x030010E4} then 0
                   else if a = 0x03020000 then set_bit 26 (reg w a)
                   else if a = 0x03020004 then set_bit 26 (reg w a)
                   else reg w a)"
proof -
  let ?g = "\<lparr>wg_gpio = GPIO0_BASE, wg_pin = WIFI_POWER_EN\<rparr>"
  have g: "WifiGpioControl_new = ok ?g"
    by (simp add: WifiGpioControl_new_def GpioController_new_def WIFI_POWER_EN_def)
  obtain w1 where w1: "set_wifi_power_pinmux_to_gpio phys w = (ok (), w1)" "reg w1 = (reg w)(0x0300104C := 3)"
    using bank_write [OF assms, of "PINMUX_BASE + PINMUX_WIFI_PWR" 3 w]
    by (auto simp: set_wifi_power_pinmux_to_gpio_def PINMUX_BASE_def PINMUX_WIFI_PWR_def)
  obtain w2 where r2: "read_reg phys 0x03020004 w1 = (ok (reg w1 0x03020004), w2)" "reg w2 = reg w1"
    by (rule bank_read [OF assms])
  obtain w3 where w3: "write_reg phys 0x03020004 (reg w1 0x03020004 OR push_bit 26 1) w2 = (ok (), w3)"
    "reg w3 = (reg w2)(0x03020004 := reg w1 0x03020004 OR push_bit 26 1)" using bank_write [OF assms] by blast
  have i: "wifi_gpio_init phys ?g w1 = (ok (), w3)"
    using r2 w3 by (simp add: wifi_gpio_init_def gpio_set_output_def WIFI_POWER_EN_def io_bind_def
        GPIO0_BASE_def SWPORTA_DDR_def)
  obtain w4 where w4: "gpio_set_pin phys GPIO0_BASE 26 False w3 = (ok (), w4)"
    "reg w4 = (reg w3)(GPIO0_BASE := reg w3 GPIO0_BASE AND NOT (push_bit 26 1))"
    using set_pin_bank [OF assms, of 26 GPIO0_BASE False w3] by auto
  obtain w5 where w5: "io_do (mmio_sleep_ms phys 50) w4 = (ok (), w5)" "reg w5 = reg w4"
    using bank_sleep [OF assms] by blast
  obtain w6 where w6: "gpio_set_pin phys GPIO0_BASE 26 True w5 = (ok (), w6)"
    "reg w6 = (reg w5)(GPIO0_BASE := reg w5 GPIO0_BASE OR push_bit 26 1)"
    using set_pin_bank [OF assms, of 26 GPIO0_BASE True w5] by auto
  obtain w7 where w7: "io_do (mmio_sleep_ms phys 50) w6 = (ok (), w7)" "reg w7 = reg w6"
    using bank_sleep [OF assms] by blast
  have p: "power_on_and_reset phys ?g w3 = (ok (), w7)"
    using w4 w5 w6 w7 by (simp add: power_on_and_reset_def wifi_power_on_def WIFI_POWER_EN_def io_bind_def)
  obtain w8 where "read_reg phys (GPIO0_BASE + SWPORTA_DR) w7 = (ok (reg w7 (GPIO0_BASE + SWPORTA_DR)), w8)"
    and w8: "reg w8 = reg w7" by (rule bank_read [OF assms])
  then obtain b where v: "io_unwrap_or (verify_after_power_on phys ?g) False w7 = (ok b, w8)"
    by (simp add: verify_after_power_on_def gpio_get_pin_def WIFI_POWER_EN_def io_bind_def io_unwrap_or_def)
  obtain w9 where w9: "io_do (mmio_sleep_ms phys 50) w8 = (ok (), w9)" "reg w9 = reg w8"
    using bank_sleep [OF assms] by blast
  obtain wa where wa: "set_sd1_sdio_pinmux_after_power phys w9 = (ok (), wa)"
    "reg wa = (\<lambda>a. if a \<in> (+) PINMUX_BASE ` set SD1_PINMUX then 0 else reg w9 a)"
    using bank_pinmux [OF assms] by (auto simp: set_sd1_sdio_pinmux_after_power_def)
  obtain wb where wb: "io_do (mmio_sleep_ms phys POST_POWER_STABLE_MS) wa = (ok (), wb)" "reg wb = reg wa"
    using bank_sleep [OF assms] by blast
  have "aicbsp_power_on phys w = (ok (), wb)"
    by (simp only: aicbsp_power_on_def aicbsp_power_on_with_stable_ms_def io_bind_def io_lift_app prod.case
        sum.case w1(1) g i p v w9(1) wa(1) wb(1))
  moreover note pin_bits [of _ 26]
  ultimately show ?thesis
    using w1 r2 w3 w4 w5 w6 w7 w8 w9 wa wb
    by (intro exI [of _ wb]) (simp add: fun_eq_iff PINMUX_BASE_def SD1_PINMUX_def GPIO0_BASE_def)
qed

theorem power_on_sequence_witness:
  "\<exists>w'. aicbsp_power_on \<lparr>mmio_read = (\<lambda>a w. (w a, w)), mmio_write = (\<lambda>a v w. w(a := v)),
      mmio_sleep_ms = (\<lambda>n w. w)\<rparr> (\<lambda>_. 0) = (ok (), w') \<and> w' 0x03020000 = 0x04000000 \<and> w' 0x0300104C = 3"
proof -
  have "reg_bank \<lparr>mmio_read = (\<lambda>a w. (w a, w)), mmio_write = (\<lambda>a v w. w(a := v)),
      mmio_sleep_ms = (\<lambda>n w. w)\<rparr> (\<lambda>w. w)" by (simp add: reg_bank_def)
  from power_on_sequence [OF this, of "\<lambda>_. 0"] show ?thesis by (auto simp: set_bit_eq_or push_bit_eq_mult)
qed

end
