(* ===== verification/Irq.thy ===== *)
theory Irq
  imports Prelude
begin

text \<open>
  Waiting and waking (\<open>driver/bsp/src/sdio/irq.rs\<close>, re-exported by \<open>sdio_irq.rs\<close>): the wait
  queues by which the interrupt handler, the receive, transmit and card-interrupt threads and the
  callers wake each other, and the registration of the handler. The queues are those of the
  operating system (\<open>axtask::WaitQueue\<close>), a parameter of the model: \<open>notify_one\<close> and
  \<open>wait_timeout\<close>, the second of which returns whether it timed out. Other threads and the
  handler may run during a wait. Times are in milliseconds.
\<close>

datatype wq =
    SDIO_WAIT_QUEUE | CMD_DONE_WAIT_QUEUE | BUSTX_WAIT_QUEUE | TX_DONE_WAIT_QUEUE
  | SDIO_IRQ_WORK_QUEUE | SDIO_IRQ_WORK_DONE_QUEUE | HOST_CMD_DONE_QUEUE | HOST_DMA_DONE_QUEUE

record 's wait_queues =
  notify_one :: "wq \<Rightarrow> bool \<Rightarrow> 's \<Rightarrow> 's"
  wait_timeout :: "wq \<Rightarrow> nat \<Rightarrow> 's \<Rightarrow> bool \<times> 's"

record irq_statics =
  USE_SOFT_IRQ_WAKE :: bool
  SDIO_IRQ_REGISTER_ONCE :: bool

definition SD1_PLIC_IRQ :: nat where "SD1_PLIC_IRQ = 38"
definition SDIO_TIMER_POLL_INTERVAL_MS :: nat where "SDIO_TIMER_POLL_INTERVAL_MS = 1"

definition sdmmc_irq :: nat where
  "sdmmc_irq = SD1_PLIC_IRQ"

definition sdio_tick :: "'s wait_queues \<Rightarrow> 's \<Rightarrow> 's" where
  "sdio_tick q = notify_one q SDIO_WAIT_QUEUE False"

definition set_use_soft_irq_wake :: "bool \<Rightarrow> 'z irq_statics_scheme \<Rightarrow> 'z irq_statics_scheme" where
  "set_use_soft_irq_wake enabled s = s\<lparr>USE_SOFT_IRQ_WAKE := enabled\<rparr>"

text \<open>
  \<open>register\<close> is \<open>axhal::irq::register\<close>; a failure is only logged. The \<open>Once\<close> cell is marked when
  the closure has run.
\<close>

definition ensure_sdio_irq_registered ::
  "(nat \<Rightarrow> 'h \<Rightarrow> 'z irq_statics_scheme \<Rightarrow> bool \<times> 'z irq_statics_scheme) \<Rightarrow> 'h
   \<Rightarrow> 'z irq_statics_scheme \<Rightarrow> 'z irq_statics_scheme" where
  "ensure_sdio_irq_registered register handler s =
     (if sdmmc_irq = 0 then s
      else if SDIO_IRQ_REGISTER_ONCE s then s
      else (snd (register SD1_PLIC_IRQ handler s))\<lparr>SDIO_IRQ_REGISTER_ONCE := True\<rparr>)"

definition use_sdio_irq :: "'z irq_statics_scheme \<Rightarrow> bool" where
  "use_sdio_irq s \<longleftrightarrow> sdmmc_irq \<noteq> 0 \<or> USE_SOFT_IRQ_WAKE s"

definition wait_sdio_or_timeout ::
  "'z irq_statics_scheme wait_queues \<Rightarrow> nat \<Rightarrow> 'z irq_statics_scheme \<Rightarrow> 'z irq_statics_scheme" where
  "wait_sdio_or_timeout q dur s =
     (if \<not> use_sdio_irq s then s else snd (wait_timeout q SDIO_WAIT_QUEUE dur s))"

definition notify_wait_done :: "'s wait_queues \<Rightarrow> 's \<Rightarrow> 's" where
  "notify_wait_done q = notify_one q SDIO_WAIT_QUEUE False"

definition notify_cmd_done :: "'s wait_queues \<Rightarrow> 's \<Rightarrow> 's" where
  "notify_cmd_done q = notify_one q CMD_DONE_WAIT_QUEUE True"

definition wait_cmd_done_timeout :: "'s wait_queues \<Rightarrow> nat \<Rightarrow> 's \<Rightarrow> bool \<times> 's" where
  "wait_cmd_done_timeout q = wait_timeout q CMD_DONE_WAIT_QUEUE"

definition notify_bustx :: "'s wait_queues \<Rightarrow> 's \<Rightarrow> 's" where
  "notify_bustx q = notify_one q BUSTX_WAIT_QUEUE False"

definition wait_bustx_or_timeout :: "'s wait_queues \<Rightarrow> nat \<Rightarrow> 's \<Rightarrow> bool \<times> 's" where
  "wait_bustx_or_timeout q = wait_timeout q BUSTX_WAIT_QUEUE"

definition notify_tx_done :: "'s wait_queues \<Rightarrow> 's \<Rightarrow> 's" where
  "notify_tx_done q = notify_one q TX_DONE_WAIT_QUEUE True"

definition wait_tx_done_timeout :: "'s wait_queues \<Rightarrow> nat \<Rightarrow> 's \<Rightarrow> bool \<times> 's" where
  "wait_tx_done_timeout q = wait_timeout q TX_DONE_WAIT_QUEUE"

definition notify_sdio_irq_work :: "'s wait_queues \<Rightarrow> 's \<Rightarrow> 's" where
  "notify_sdio_irq_work q = notify_one q SDIO_IRQ_WORK_QUEUE False"

definition wait_sdio_irq_work_or_timeout :: "'s wait_queues \<Rightarrow> nat \<Rightarrow> 's \<Rightarrow> bool \<times> 's" where
  "wait_sdio_irq_work_or_timeout q = wait_timeout q SDIO_IRQ_WORK_QUEUE"

definition notify_sdio_irq_work_done :: "'s wait_queues \<Rightarrow> 's \<Rightarrow> 's" where
  "notify_sdio_irq_work_done q = notify_one q SDIO_IRQ_WORK_DONE_QUEUE True"

definition wait_sdio_irq_work_done_timeout :: "'s wait_queues \<Rightarrow> nat \<Rightarrow> 's \<Rightarrow> bool \<times> 's" where
  "wait_sdio_irq_work_done_timeout q = wait_timeout q SDIO_IRQ_WORK_DONE_QUEUE"

lemmas wait_queue_defs = sdio_tick_def notify_wait_done_def notify_cmd_done_def wait_cmd_done_timeout_def
  notify_bustx_def wait_bustx_or_timeout_def notify_tx_done_def wait_tx_done_timeout_def
  notify_sdio_irq_work_def wait_sdio_irq_work_or_timeout_def notify_sdio_irq_work_done_def
  wait_sdio_irq_work_done_timeout_def

section \<open>Registration\<close>

text \<open>
  The handler is registered at most once, whatever the number of calls and the answers of the
  interrupt controller: after the first call the others do nothing.
\<close>

theorem irq_registered_once:
  fixes register :: "nat \<Rightarrow> 'h \<Rightarrow> 'z irq_statics_scheme \<Rightarrow> bool \<times> 'z irq_statics_scheme"
  shows "(ensure_sdio_irq_registered register h ^^ Suc n) s = ensure_sdio_irq_registered register h s"
proof (induction n)
  case (Suc n)
  have "ensure_sdio_irq_registered register h (ensure_sdio_irq_registered register h s) =
      ensure_sdio_irq_registered register h s"
    by (simp add: ensure_sdio_irq_registered_def)
  with Suc show ?case by simp
qed simp

end
