(* ===== verification/Host_Irq.thy ===== *)
theory Host_Irq
  imports Irq Sd1_Power
begin

text \<open>
  The interrupt side of the SD1 host controller (\<open>driver/bsp/src/sdio/backend.rs\<close> and the handler
  of \<open>irq.rs\<close>): the statics shared between the handler and the threads, \<open>handle_sdhci_host_irq\<close>
  with its four phases (command, data, card interrupt, late acknowledgement), the waits of an
  interrupt-driven transfer, and the card-interrupt path (\<open>process_sdio_pending_irqs\<close>,
  \<open>sdio_run_irqs\<close>, the worker thread). The state extends the statics by anything the registers
  need; what runs between two register accesses (another thread, the handler) is part of the
  register parameter.
\<close>

section \<open>Interrupt bits and statics\<close>

definition INT_RESPONSE :: u32 where "INT_RESPONSE = 0x00000001"
definition INT_DATA_END :: u32 where "INT_DATA_END = 0x00000002"
definition INT_BLK_GAP :: u32 where "INT_BLK_GAP = 0x00000004"
definition INT_DMA_END :: u32 where "INT_DMA_END = 0x00000008"
definition INT_SPACE_AVAIL :: u32 where "INT_SPACE_AVAIL = 0x00000010"
definition INT_DATA_AVAIL :: u32 where "INT_DATA_AVAIL = 0x00000020"
definition INT_RETUNE :: u32 where "INT_RETUNE = 0x00001000"
definition INT_TIMEOUT :: u32 where "INT_TIMEOUT = 0x00010000"
definition INT_CRC :: u32 where "INT_CRC = 0x00020000"
definition INT_END_BIT :: u32 where "INT_END_BIT = 0x00040000"
definition INT_INDEX :: u32 where "INT_INDEX = 0x00080000"
definition INT_DATA_TIMEOUT :: u32 where "INT_DATA_TIMEOUT = 0x00100000"
definition INT_DATA_CRC :: u32 where "INT_DATA_CRC = 0x00200000"
definition INT_DATA_END_BIT :: u32 where "INT_DATA_END_BIT = 0x00400000"
definition INT_BUS_POWER :: u32 where "INT_BUS_POWER = 0x00800000"
definition INT_AUTO_CMD_ERR :: u32 where "INT_AUTO_CMD_ERR = 0x01000000"
definition INT_ADMA_ERROR :: u32 where "INT_ADMA_ERROR = 0x02000000"

definition INT_CMD_MASK :: u32 where
  "INT_CMD_MASK = INT_RESPONSE OR INT_TIMEOUT OR INT_CRC OR INT_END_BIT OR INT_INDEX OR INT_AUTO_CMD_ERR"

definition INT_DATA_MASK :: u32 where
  "INT_DATA_MASK = INT_DATA_END OR INT_DMA_END OR INT_DATA_AVAIL OR INT_SPACE_AVAIL
     OR INT_DATA_TIMEOUT OR INT_DATA_CRC OR INT_DATA_END_BIT OR INT_ADMA_ERROR OR INT_BLK_GAP"

definition CARD_INT :: u32 where "CARD_INT = 0x100"

lemmas int_bit_defs = INT_RESPONSE_def INT_DATA_END_def INT_BLK_GAP_def INT_DMA_END_def
  INT_SPACE_AVAIL_def INT_DATA_AVAIL_def INT_RETUNE_def INT_TIMEOUT_def INT_CRC_def INT_END_BIT_def
  INT_INDEX_def INT_DATA_TIMEOUT_def INT_DATA_CRC_def INT_DATA_END_BIT_def INT_BUS_POWER_def
  INT_AUTO_CMD_ERR_def INT_ADMA_ERROR_def CARD_INT_def INT_CMD_MASK_def INT_DATA_MASK_def

definition SDHCI_DEFAULT_BOUNDARY_SIZE :: nat where "SDHCI_DEFAULT_BOUNDARY_SIZE = 512 * 1024"
definition WAIT_CMD_DMA_IRQ_TIMEOUT_MS :: nat where "WAIT_CMD_DMA_IRQ_TIMEOUT_MS = 1000"
definition SDIO_CCCR_INTX :: u32 where "SDIO_CCCR_INTX = 0x05"
definition R_SDMA_SADDR :: nat where "R_SDMA_SADDR = 0x000"
definition R_BUF_DATA :: nat where "R_BUF_DATA = 0x020"
definition MAX_IRQ_LOOPS :: nat where "MAX_IRQ_LOOPS = 16"

text \<open>\<open>DMA_POOL\<close> is the in-use mark of the DMA buffer (\<open>kernel/sdhci/src/lib.rs\<close>).\<close>

record host_irq = irq_statics +
  SDIO_IRQ_PENDING :: bool
  HOST_TRANSFER_CMD_PENDING :: bool
  HOST_TRANSFER_DMA_PENDING :: bool
  HOST_DMA_BASE_PHYS :: u32
  HOST_DMA_TOTAL :: nat
  HOST_DMA_BYTES_XFERRED :: nat
  HOST_CMD_RESULT :: int
  HOST_DMA_RESULT :: int
  DMA_POOL :: "unit option"

text \<open>The controller with its wait queues.\<close>

record 's sd1 =
  sd_regs :: "'s mmio"
  sd_wq :: "'s wait_queues"

section \<open>The handler\<close>

definition cmd_irq_result :: "u32 \<Rightarrow> int" where
  "cmd_irq_result sts =
     (if sts AND INT_TIMEOUT \<noteq> 0 then -110
      else if sts AND INT_CRC \<noteq> 0 then -84
      else if sts AND INT_END_BIT \<noteq> 0 then -74
      else if sts AND INT_RESPONSE \<noteq> 0 then 0
      else -5)"

text \<open>With a command timeout the handler also reads the response, for its log.\<close>

definition irq_cmd :: "'z host_irq_scheme sd1 \<Rightarrow> u32 \<Rightarrow> ('z host_irq_scheme, unit) io" where
  "irq_cmd e sts = (\<lambda>s.
     if sts AND INT_CMD_MASK \<noteq> 0 \<and> HOST_TRANSFER_CMD_PENDING s then
       io_bind (if sts AND INT_TIMEOUT \<noteq> 0 then read_reg (sd_regs e) R_RESP31_0 else io_return 0) (\<lambda>_.
       io_bind (io_do (\<lambda>s. s\<lparr>HOST_CMD_RESULT := cmd_irq_result sts\<rparr>)) (\<lambda>_.
       io_bind (io_do (\<lambda>s. s\<lparr>HOST_TRANSFER_CMD_PENDING := False\<rparr>)) (\<lambda>_.
         io_do (notify_one (sd_wq e) HOST_CMD_DONE_QUEUE True)))) s
     else (ok (), s))"

definition data_done :: "'z host_irq_scheme sd1 \<Rightarrow> u32 \<Rightarrow> int \<Rightarrow> ('z host_irq_scheme, unit) io" where
  "data_done e sts result =
     io_bind (io_do (\<lambda>s. s\<lparr>HOST_DMA_RESULT := result\<rparr>)) (\<lambda>_.
     io_bind (io_do (\<lambda>s. s\<lparr>HOST_TRANSFER_DMA_PENDING := False\<rparr>)) (\<lambda>_.
     io_bind (write_reg (sd_regs e) R_INT_STS (sts AND INT_DATA_MASK)) (\<lambda>_.
       io_do (notify_one (sd_wq e) HOST_DMA_DONE_QUEUE True))))"

text \<open>
  The result of the data phase: \<open>None\<close> when only \<open>INT_DMA_END\<close> is set, which continues the
  transfer at the next boundary.
\<close>

definition data_irq_result :: "u32 \<Rightarrow> int option" where
  "data_irq_result sts =
     (if sts AND INT_DATA_END \<noteq> 0 then Some 0
      else if sts AND INT_DATA_TIMEOUT \<noteq> 0 then Some (-110)
      else if sts AND INT_DATA_END_BIT \<noteq> 0 then Some (-84)
      else if sts AND INT_DATA_CRC \<noteq> 0 then Some (-84)
      else if sts AND INT_ADMA_ERROR \<noteq> 0 then Some (-5)
      else if sts AND INT_DMA_END \<noteq> 0 then None
      else Some (-5))"

definition next_boundary :: "u32 \<Rightarrow> nat \<Rightarrow> u32" where
  "next_boundary base_phys bytes_so_far =
     (let SIZE = word_of_nat SDHCI_DEFAULT_BOUNDARY_SIZE;
          dmanow = base_phys + word_of_nat bytes_so_far
      in (dmanow AND NOT (SIZE - 1)) + SIZE)"

definition dma_boundary :: "'z host_irq_scheme sd1 \<Rightarrow> nat \<Rightarrow> u32 \<Rightarrow> ('z host_irq_scheme, unit) io" where
  "dma_boundary e dma_total base_phys = (\<lambda>s.
     let nxt = next_boundary base_phys (HOST_DMA_BYTES_XFERRED s);
         new_bytes = unat (nxt - base_phys)
     in io_bind (io_do (\<lambda>s. s\<lparr>HOST_DMA_BYTES_XFERRED := new_bytes\<rparr>)) (\<lambda>_.
        io_bind (if new_bytes < dma_total then write_reg (sd_regs e) R_SDMA_SADDR nxt else io_return ()) (\<lambda>_.
          write_reg (sd_regs e) R_INT_STS INT_DMA_END)) s)"

definition irq_data :: "'z host_irq_scheme sd1 \<Rightarrow> u32 \<Rightarrow> ('z host_irq_scheme, unit) io" where
  "irq_data e sts = (\<lambda>s.
     if sts AND INT_DATA_MASK \<noteq> 0 \<and> HOST_TRANSFER_DMA_PENDING s then
       (case data_irq_result sts of
          Some r \<Rightarrow> data_done e sts r s
        | None \<Rightarrow> dma_boundary e (HOST_DMA_TOTAL s) (HOST_DMA_BASE_PHYS s) s)
     else (ok (), s))"

definition irq_card :: "'z host_irq_scheme sd1 \<Rightarrow> u32 \<Rightarrow> ('z host_irq_scheme, unit) io" where
  "irq_card e sts =
     io_bind (read_reg (sd_regs e) R_INT_STS_EN) (\<lambda>ier.
       if sts AND CARD_INT \<noteq> 0 \<and> ier AND CARD_INT \<noteq> 0 then
         io_bind (read_reg (sd_regs e) R_INT_STS_EN) (\<lambda>sts_en.
         io_bind (read_reg (sd_regs e) R_INT_SIG_EN) (\<lambda>sig_en.
         io_bind (write_reg (sd_regs e) R_INT_STS_EN (sts_en AND NOT CARD_INT)) (\<lambda>_.
         io_bind (write_reg (sd_regs e) R_INT_SIG_EN (sig_en AND NOT CARD_INT)) (\<lambda>_.
         io_bind (io_do (\<lambda>s. s\<lparr>SDIO_IRQ_PENDING := True\<rparr>)) (\<lambda>_.
           io_do (notify_sdio_irq_work (sd_wq e)))))))
       else io_return ())"

definition irq_clear_mask :: "'z host_irq_scheme \<Rightarrow> u32 \<Rightarrow> u32" where
  "irq_clear_mask s sts =
     (sts AND (INT_CMD_MASK OR INT_BUS_POWER)) OR
     (if \<not> HOST_TRANSFER_DMA_PENDING s then sts AND INT_DATA_MASK else 0)"

definition write_nonzero :: "'s mmio \<Rightarrow> u32 \<Rightarrow> ('s, unit) io" where
  "write_nonzero m v = (if v \<noteq> 0 then write_reg m R_INT_STS v else io_return ())"

definition irq_round :: "'z host_irq_scheme sd1 \<Rightarrow> u32 \<Rightarrow> ('z host_irq_scheme, unit) io" where
  "irq_round e sts =
     io_bind (\<lambda>s. write_nonzero (sd_regs e) (irq_clear_mask s sts) s) (\<lambda>_.
     io_bind (irq_cmd e sts) (\<lambda>_.
     io_bind (irq_data e sts) (\<lambda>_.
     io_bind (irq_card e sts) (\<lambda>_.
       write_nonzero (sd_regs e) ((sts AND CARD_INT) OR (sts AND INT_RETUNE))))))"

fun irq_loop :: "'z host_irq_scheme sd1 \<Rightarrow> nat \<Rightarrow> ('z host_irq_scheme, unit) io" where
  "irq_loop e 0 = io_return ()"
| "irq_loop e (Suc max_loops) =
     io_bind (read_reg (sd_regs e) R_INT_STS) (\<lambda>sts.
       if sts = 0 \<or> sts = 0xFFFFFFFF then io_return ()
       else io_bind (irq_round e sts) (\<lambda>_. irq_loop e max_loops))"

definition handle_sdhci_host_irq :: "'z host_irq_scheme sd1 \<Rightarrow> ('z host_irq_scheme, unit) io" where
  "handle_sdhci_host_irq e = irq_loop e MAX_IRQ_LOOPS"

definition sdio_irq_handler :: "'z host_irq_scheme sd1 \<Rightarrow> ('z host_irq_scheme, unit) io" where
  "sdio_irq_handler e =
     io_bind (handle_sdhci_host_irq e) (\<lambda>_. io_do (notify_one (sd_wq e) SDIO_WAIT_QUEUE False))"

section \<open>Waiting for the handler\<close>

definition result_of :: "int \<Rightarrow> unit result" where
  "result_of r = (if r = 0 then ok () else err r)"

definition wait_cmd_complete_irq :: "'z host_irq_scheme sd1 \<Rightarrow> ('z host_irq_scheme, unit) io" where
  "wait_cmd_complete_irq e = (\<lambda>s.
     case wait_timeout (sd_wq e) HOST_CMD_DONE_QUEUE WAIT_CMD_DMA_IRQ_TIMEOUT_MS s of
       (timed_out, s1) \<Rightarrow>
         if timed_out then (err (-110), s1\<lparr>HOST_TRANSFER_CMD_PENDING := False\<rparr>)
         else (result_of (HOST_CMD_RESULT s1), s1))"

definition wait_dma_complete_irq :: "'z host_irq_scheme sd1 \<Rightarrow> ('z host_irq_scheme, unit) io" where
  "wait_dma_complete_irq e = (\<lambda>s.
     case wait_timeout (sd_wq e) HOST_DMA_DONE_QUEUE WAIT_CMD_DMA_IRQ_TIMEOUT_MS s of
       (timed_out, s1) \<Rightarrow>
         if timed_out then (err (-110), s1\<lparr>HOST_TRANSFER_DMA_PENDING := False\<rparr>)
         else (result_of (HOST_DMA_RESULT s1), s1))"

definition set_transfer_irqs_dma :: "'s mmio \<Rightarrow> ('s, unit) io" where
  "set_transfer_irqs_dma m =
     io_bind (read_reg m R_INT_STS_EN) (\<lambda>current.
       let ier = (current AND NOT (INT_SPACE_AVAIL OR INT_DATA_AVAIL))
                   OR (INT_DMA_END OR INT_DATA_END OR INT_ADMA_ERROR)
       in io_bind (write_reg m R_INT_STS_EN ier) (\<lambda>_. write_reg m R_INT_SIG_EN ier))"

section \<open>The card interrupt\<close>

definition sdio_get_pending_irqs :: "'s mmio \<Rightarrow> ('s, byte) io" where
  "sdio_get_pending_irqs m = bk_read_byte m SDIO_CCCR_INTX"

definition enable_sdio_irq :: "'s mmio \<Rightarrow> bool \<Rightarrow> ('s, unit) io" where
  "enable_sdio_irq m enable =
     (let en = (if enable then CARD_INT else 0) in
      io_bind (read_reg m R_INT_STS_EN) (\<lambda>sts_en.
      io_bind (read_reg m R_INT_SIG_EN) (\<lambda>sig_en.
      io_bind (write_reg m R_INT_STS_EN ((sts_en AND NOT CARD_INT) OR en)) (\<lambda>_.
        write_reg m R_INT_SIG_EN ((sig_en AND NOT CARD_INT) OR en)))))"

text \<open>The status is read before and after the CMD52, for the log; a failed CMD52 is returned after that.\<close>

definition process_sdio_pending_irqs :: "'z host_irq_scheme sd1 \<Rightarrow> ('z host_irq_scheme, unit) io" where
  "process_sdio_pending_irqs e =
     io_bind (io_do (\<lambda>s. s\<lparr>SDIO_IRQ_PENDING := False\<rparr>)) (\<lambda>_.
     io_bind (read_reg (sd_regs e) R_INT_STS) (\<lambda>_ s.
       case sdio_get_pending_irqs (sd_regs e) s of
         (ret, s1) \<Rightarrow> io_bind (read_reg (sd_regs e) R_INT_STS)
                        (\<lambda>_. io_bind (io_lift ret) (\<lambda>_. io_return ())) s1))"

definition ack_sdio_irq :: "'s mmio \<Rightarrow> ('s, unit) io" where
  "ack_sdio_irq m = enable_sdio_irq m True"

definition sdio_run_irqs :: "'z host_irq_scheme sd1 \<Rightarrow> ('z host_irq_scheme, unit) io" where
  "sdio_run_irqs e =
     io_bind (io_unwrap_or (process_sdio_pending_irqs e) ()) (\<lambda>_ s.
       if \<not> SDIO_IRQ_PENDING s then ack_sdio_irq (sd_regs e) s else (ok (), s))"

definition sdio_signal_irq :: "'z host_irq_scheme \<Rightarrow> 'z host_irq_scheme" where
  "sdio_signal_irq s = s\<lparr>SDIO_IRQ_PENDING := True\<rparr>"

definition process_sdio_pending_irqs_if_set ::
  "'z host_irq_scheme sd1 \<Rightarrow> ('z host_irq_scheme, bool) io" where
  "process_sdio_pending_irqs_if_set e =
     io_bind (read_reg (sd_regs e) R_INT_STS) (\<lambda>sts.
       if sts AND CARD_INT \<noteq> 0 then
         io_bind (enable_sdio_irq (sd_regs e) False) (\<lambda>_.
         io_bind (io_do sdio_signal_irq) (\<lambda>_.
         io_bind (io_do (notify_sdio_irq_work (sd_wq e))) (\<lambda>_. io_return True)))
       else io_return False)"

text \<open>
  One round of \<open>sdio_irq_work_thread_fn\<close> (\<open>flow.rs\<close>), with the device present or not.
\<close>

definition sdio_irq_work_round ::
  "'z host_irq_scheme sd1 \<Rightarrow> bool \<Rightarrow> ('z host_irq_scheme, unit) io" where
  "sdio_irq_work_round e have_device = (\<lambda>s.
     case wait_sdio_irq_work_or_timeout (sd_wq e) 10 s of
       (timed_out, s1) \<Rightarrow>
         if timed_out then (ok (), s1)
         else io_bind (if have_device then sdio_run_irqs e else io_return ())
                (\<lambda>_. io_do (notify_sdio_irq_work_done (sd_wq e))) s1)"

end
