(* ===== verification/Host_Irq_Laws.thy ===== *)
theory Host_Irq_Laws
  imports Host_Irq
begin

text \<open>
  The interrupt handler of the SD1 host and those who wait for it: what one interrupt does to the
  status register and the transfer state, where a DMA transfer goes on after a boundary, and the two
  ways a completion gets lost (a polled command whose completion the handler takes, a transfer whose
  completion comes before its wait).
\<close>

section \<open>Status bits that stay until they are written back\<close>

definition HANDLED :: u32 where
  "HANDLED = INT_CMD_MASK OR INT_BUS_POWER OR INT_DATA_MASK OR CARD_INT OR INT_RETUNE"

definition w1c_regs :: "'z host_irq_scheme sd1 \<Rightarrow> ('z \<Rightarrow> u32) \<Rightarrow> bool" where
  "w1c_regs e ist \<longleftrightarrow>
     (\<forall>off s. off \<noteq> R_BUF_DATA \<longrightarrow> snd (mmio_read (sd_regs e) off s) = s) \<and>
     (\<forall>s. fst (mmio_read (sd_regs e) R_INT_STS s) = ist (host_irq.more s)) \<and>
     (\<forall>off v s. host_irq.truncate (mmio_write (sd_regs e) off v s) = host_irq.truncate s \<and>
        ist (host_irq.more (mmio_write (sd_regs e) off v s)) =
          (if off = R_INT_STS then ist (host_irq.more s) AND NOT v else ist (host_irq.more s))) \<and>
     (\<forall>n s. host_irq.truncate (mmio_sleep_ms (sd_regs e) n s) = host_irq.truncate s \<and>
        ist (host_irq.more (mmio_sleep_ms (sd_regs e) n s)) = ist (host_irq.more s)) \<and>
     (\<forall>q b s. host_irq.truncate (notify_one (sd_wq e) q b s) = host_irq.truncate s \<and>
        ist (host_irq.more (notify_one (sd_wq e) q b s)) = ist (host_irq.more s))"

lemma truncateD:
  assumes "host_irq.truncate s = host_irq.truncate t"
  shows "HOST_TRANSFER_CMD_PENDING s = HOST_TRANSFER_CMD_PENDING t"
    "HOST_TRANSFER_DMA_PENDING s = HOST_TRANSFER_DMA_PENDING t"
    "HOST_CMD_RESULT s = HOST_CMD_RESULT t" "HOST_DMA_RESULT s = HOST_DMA_RESULT t"
    "HOST_DMA_BASE_PHYS s = HOST_DMA_BASE_PHYS t" "HOST_DMA_TOTAL s = HOST_DMA_TOTAL t"
    "HOST_DMA_BYTES_XFERRED s = HOST_DMA_BYTES_XFERRED t" "SDIO_IRQ_PENDING s = SDIO_IRQ_PENDING t"
    "DMA_POOL s = DMA_POOL t"
  using assms by (simp_all add: host_irq.truncate_def)


lemma truncate_update:
  "host_irq.truncate (s\<lparr>SDIO_IRQ_PENDING := b\<rparr>) = (host_irq.truncate s)\<lparr>SDIO_IRQ_PENDING := b\<rparr>"
  "host_irq.truncate (s\<lparr>HOST_TRANSFER_CMD_PENDING := b\<rparr>) = (host_irq.truncate s)\<lparr>HOST_TRANSFER_CMD_PENDING := b\<rparr>"
  "host_irq.truncate (s\<lparr>HOST_TRANSFER_DMA_PENDING := b\<rparr>) = (host_irq.truncate s)\<lparr>HOST_TRANSFER_DMA_PENDING := b\<rparr>"
  "host_irq.truncate (s\<lparr>HOST_CMD_RESULT := i\<rparr>) = (host_irq.truncate s)\<lparr>HOST_CMD_RESULT := i\<rparr>"
  "host_irq.truncate (s\<lparr>HOST_DMA_RESULT := i\<rparr>) = (host_irq.truncate s)\<lparr>HOST_DMA_RESULT := i\<rparr>"
  "host_irq.truncate (s\<lparr>HOST_DMA_BYTES_XFERRED := n\<rparr>) = (host_irq.truncate s)\<lparr>HOST_DMA_BYTES_XFERRED := n\<rparr>"
  "host_irq.truncate (s\<lparr>HOST_DMA_BASE_PHYS := a\<rparr>) = (host_irq.truncate s)\<lparr>HOST_DMA_BASE_PHYS := a\<rparr>"
  "host_irq.truncate (s\<lparr>HOST_DMA_TOTAL := n\<rparr>) = (host_irq.truncate s)\<lparr>HOST_DMA_TOTAL := n\<rparr>"
  "host_irq.truncate (s\<lparr>DMA_POOL := p\<rparr>) = (host_irq.truncate s)\<lparr>DMA_POOL := p\<rparr>"
  by (simp_all add: host_irq.truncate_def)

lemma truncate_fields:
  "HOST_TRANSFER_CMD_PENDING (host_irq.truncate s) = HOST_TRANSFER_CMD_PENDING s"
  "HOST_TRANSFER_DMA_PENDING (host_irq.truncate s) = HOST_TRANSFER_DMA_PENDING s"
  "HOST_CMD_RESULT (host_irq.truncate s) = HOST_CMD_RESULT s"
  "HOST_DMA_RESULT (host_irq.truncate s) = HOST_DMA_RESULT s"
  "HOST_DMA_BASE_PHYS (host_irq.truncate s) = HOST_DMA_BASE_PHYS s"
  "HOST_DMA_TOTAL (host_irq.truncate s) = HOST_DMA_TOTAL s"
  "HOST_DMA_BYTES_XFERRED (host_irq.truncate s) = HOST_DMA_BYTES_XFERRED s"
  "SDIO_IRQ_PENDING (host_irq.truncate s) = SDIO_IRQ_PENDING s"
  "DMA_POOL (host_irq.truncate s) = DMA_POOL s"
  by (simp_all add: host_irq.truncate_def)

lemma not_buf_data [simp]:
  "R_INT_STS \<noteq> R_BUF_DATA" "R_INT_STS_EN \<noteq> R_BUF_DATA" "R_INT_SIG_EN \<noteq> R_BUF_DATA"
  "R_RESP31_0 \<noteq> R_BUF_DATA" "R_PRESENT_STS \<noteq> R_BUF_DATA" "R_CLK_CTL_SWRST \<noteq> R_BUF_DATA"
  by (simp_all add: sdmmc_reg_defs R_BUF_DATA_def R_INT_STS_EN_def R_INT_SIG_EN_def)

lemma reg_neq:
  "R_INT_STS_EN \<noteq> R_INT_STS" "R_INT_SIG_EN \<noteq> R_INT_STS" "R_SDMA_SADDR \<noteq> R_INT_STS"
  "R_INT_SIG_EN \<noteq> R_INT_STS_EN" "R_SDMA_SADDR \<noteq> R_INT_STS_EN" "R_SDMA_SADDR \<noteq> R_INT_SIG_EN"
  by (simp_all add: R_INT_STS_def R_INT_STS_EN_def R_INT_SIG_EN_def R_SDMA_SADDR_def)

lemma w1cD:
  assumes "w1c_regs e ist"
  shows "off \<noteq> R_BUF_DATA \<Longrightarrow> read_reg (sd_regs e) off s = (ok (fst (mmio_read (sd_regs e) off s)), s)"
    "fst (mmio_read (sd_regs e) R_INT_STS s) = ist (host_irq.more s)"
    "ist (host_irq.more (mmio_write (sd_regs e) off v s)) =
       (if off = R_INT_STS then ist (host_irq.more s) AND NOT v else ist (host_irq.more s))"
    "ist (host_irq.more (notify_one (sd_wq e) q b s)) = ist (host_irq.more s)"
    "ist (host_irq.more (mmio_sleep_ms (sd_regs e) n s)) = ist (host_irq.more s)"
  using assms unfolding w1c_regs_def read_reg_def by (simp_all add: case_prod_beta)

lemma w1c_statics:
  assumes "w1c_regs e ist"
  shows "host_irq.truncate (mmio_write (sd_regs e) off v s) = host_irq.truncate s"
    "host_irq.truncate (notify_one (sd_wq e) q b s) = host_irq.truncate s"
    "host_irq.truncate (mmio_sleep_ms (sd_regs e) n s) = host_irq.truncate s"
  using assms unfolding w1c_regs_def by auto

lemmas w1c_simps = w1cD truncateD [OF w1c_statics(1)] truncateD [OF w1c_statics(2)] truncateD [OF w1c_statics(3)]
lemmas io_simps = io_bind_def write_reg_def

definition dma_outcome :: "u32 \<Rightarrow> int option" where
  "dma_outcome sts =
     (case data_irq_result sts of
        Some r \<Rightarrow> Some r
      | None \<Rightarrow> if sts AND (INT_DATA_MASK AND NOT INT_DMA_END) = 0 then None else Some (-5))"

definition cmd_settled :: "'z host_irq_scheme \<Rightarrow> u32 \<Rightarrow> 'z host_irq_scheme \<Rightarrow> bool" where
  "cmd_settled s sts s' \<longleftrightarrow>
     (if HOST_TRANSFER_CMD_PENDING s \<and> sts AND INT_CMD_MASK \<noteq> 0
      then \<not> HOST_TRANSFER_CMD_PENDING s' \<and> HOST_CMD_RESULT s' = cmd_irq_result sts
      else HOST_TRANSFER_CMD_PENDING s' = HOST_TRANSFER_CMD_PENDING s \<and> HOST_CMD_RESULT s' = HOST_CMD_RESULT s)"

definition data_settled :: "'z host_irq_scheme \<Rightarrow> u32 \<Rightarrow> 'z host_irq_scheme \<Rightarrow> bool" where
  "data_settled s sts s' \<longleftrightarrow>
     (if HOST_TRANSFER_DMA_PENDING s \<and> sts AND INT_DATA_MASK \<noteq> 0
      then (case dma_outcome sts of
              Some r \<Rightarrow> \<not> HOST_TRANSFER_DMA_PENDING s' \<and> HOST_DMA_RESULT s' = r
            | None \<Rightarrow> HOST_TRANSFER_DMA_PENDING s' \<and> HOST_DMA_RESULT s' = HOST_DMA_RESULT s \<and>
                HOST_DMA_BYTES_XFERRED s' =
                  unat (next_boundary (HOST_DMA_BASE_PHYS s) (HOST_DMA_BYTES_XFERRED s) - HOST_DMA_BASE_PHYS s))
      else HOST_TRANSFER_DMA_PENDING s' = HOST_TRANSFER_DMA_PENDING s \<and> HOST_DMA_RESULT s' = HOST_DMA_RESULT s)"


lemma irq_cmd_w1c:
  assumes w: "w1c_regs e ist"
  shows "\<exists>s'. irq_cmd e sts s = (ok (), s') \<and> ist (host_irq.more s') = ist (host_irq.more s) \<and>
     host_irq.truncate s' =
       (if sts AND INT_CMD_MASK \<noteq> 0 \<and> HOST_TRANSFER_CMD_PENDING s
        then (host_irq.truncate s)\<lparr>HOST_CMD_RESULT := cmd_irq_result sts, HOST_TRANSFER_CMD_PENDING := False\<rparr>
        else host_irq.truncate s)"
  by (simp add: irq_cmd_def io_simps w1cD [OF w] w1c_statics [OF w] truncate_update)

definition data_acked :: "u32 \<Rightarrow> u32" where
  "data_acked sts = (case data_irq_result sts of Some r \<Rightarrow> sts AND INT_DATA_MASK | None \<Rightarrow> INT_DMA_END)"

lemma irq_data_w1c:
  assumes w: "w1c_regs e ist"
  shows "\<exists>s'. irq_data e sts s = (ok (), s') \<and>
     (if sts AND INT_DATA_MASK \<noteq> 0 \<and> HOST_TRANSFER_DMA_PENDING s
      then ist (host_irq.more s') = ist (host_irq.more s) AND NOT (data_acked sts) \<and>
        host_irq.truncate s' = (case data_irq_result sts of
            Some r \<Rightarrow> (host_irq.truncate s)\<lparr>HOST_DMA_RESULT := r, HOST_TRANSFER_DMA_PENDING := False\<rparr>
          | None \<Rightarrow> (host_irq.truncate s)\<lparr>HOST_DMA_BYTES_XFERRED :=
                unat (next_boundary (HOST_DMA_BASE_PHYS s) (HOST_DMA_BYTES_XFERRED s) - HOST_DMA_BASE_PHYS s)\<rparr>)
      else s' = s)"
  by (auto simp add: irq_data_def data_done_def dma_boundary_def io_simps w1cD [OF w] w1c_statics [OF w] Let_def
     data_acked_def truncate_update reg_neq split: option.splits)

lemma irq_card_w1c:
  assumes w: "w1c_regs e ist"
  shows "\<exists>s' b. irq_card e sts s = (ok (), s') \<and> ist (host_irq.more s') = ist (host_irq.more s) \<and>
     host_irq.truncate s' = (host_irq.truncate s)\<lparr>SDIO_IRQ_PENDING := b\<rparr> \<and> (sts AND CARD_INT = 0 \<longrightarrow> s' = s)"
proof (cases "sts AND CARD_INT \<noteq> 0 \<and> fst (mmio_read (sd_regs e) R_INT_STS_EN s) AND CARD_INT \<noteq> 0")
  case True
  then show ?thesis
    by (simp add: irq_card_def notify_sdio_irq_work_def io_simps w1cD [OF w] w1c_statics [OF w] truncate_update
        reg_neq) blast
next
  case False
  then show ?thesis
    by (intro exI [of _ s] exI [of _ "SDIO_IRQ_PENDING s"])
      (auto simp: irq_card_def io_simps w1cD [OF w] host_irq.truncate_def)
qed

definition round_acked :: "'z host_irq_scheme \<Rightarrow> u32 \<Rightarrow> u32" where
  "round_acked s sts =
     irq_clear_mask s sts OR
     (if sts AND INT_DATA_MASK \<noteq> 0 \<and> HOST_TRANSFER_DMA_PENDING s then data_acked sts else 0) OR
     (sts AND CARD_INT) OR (sts AND INT_RETUNE)"

definition round_statics :: "u32 \<Rightarrow> host_irq \<Rightarrow> host_irq" where
  "round_statics sts h =
     (let h1 = (if sts AND INT_CMD_MASK \<noteq> 0 \<and> HOST_TRANSFER_CMD_PENDING h
                then h\<lparr>HOST_CMD_RESULT := cmd_irq_result sts, HOST_TRANSFER_CMD_PENDING := False\<rparr> else h)
      in if sts AND INT_DATA_MASK \<noteq> 0 \<and> HOST_TRANSFER_DMA_PENDING h
         then (case data_irq_result sts of
             Some r \<Rightarrow> h1\<lparr>HOST_DMA_RESULT := r, HOST_TRANSFER_DMA_PENDING := False\<rparr>
           | None \<Rightarrow> h1\<lparr>HOST_DMA_BYTES_XFERRED :=
                unat (next_boundary (HOST_DMA_BASE_PHYS h) (HOST_DMA_BYTES_XFERRED h) - HOST_DMA_BASE_PHYS h)\<rparr>)
         else h1)"

lemma write_nonzero_w1c:
  assumes w: "w1c_regs e ist"
  shows "\<exists>s'. write_nonzero (sd_regs e) v s = (ok (), s') \<and>
     ist (host_irq.more s') = ist (host_irq.more s) AND NOT v \<and> host_irq.truncate s' = host_irq.truncate s"
  by (simp add: write_nonzero_def write_reg_def w1cD [OF w] w1c_statics [OF w])

lemma irq_round_w1c:
  assumes w: "w1c_regs e ist"
  shows "\<exists>s' b. irq_round e sts s = (ok (), s') \<and>
     ist (host_irq.more s') = ist (host_irq.more s) AND NOT (round_acked s sts) \<and>
     host_irq.truncate s' = (round_statics sts (host_irq.truncate s))\<lparr>SDIO_IRQ_PENDING := b\<rparr>"
proof -
  obtain s1 where 1: "write_nonzero (sd_regs e) (irq_clear_mask s sts) s = (ok (), s1)"
    "ist (host_irq.more s1) = ist (host_irq.more s) AND NOT (irq_clear_mask s sts)"
    "host_irq.truncate s1 = host_irq.truncate s" using write_nonzero_w1c [OF w] by blast
  obtain s2 where 2: "irq_cmd e sts s1 = (ok (), s2)" "ist (host_irq.more s2) = ist (host_irq.more s1)"
    "host_irq.truncate s2 = (if sts AND INT_CMD_MASK \<noteq> 0 \<and> HOST_TRANSFER_CMD_PENDING s
        then (host_irq.truncate s)\<lparr>HOST_CMD_RESULT := cmd_irq_result sts, HOST_TRANSFER_CMD_PENDING := False\<rparr>
        else host_irq.truncate s)"
    using irq_cmd_w1c [OF w, of sts s1] truncateD [OF 1(3)] 1(3) by metis
  have p: "HOST_TRANSFER_DMA_PENDING s2 = HOST_TRANSFER_DMA_PENDING s"
    "HOST_DMA_BASE_PHYS s2 = HOST_DMA_BASE_PHYS s" "HOST_DMA_BYTES_XFERRED s2 = HOST_DMA_BYTES_XFERRED s"
    using truncate_fields(2,5,7) [of s2] unfolding 2(3) by (simp_all add: truncate_fields split: if_splits)
  obtain s3 where 3: "irq_data e sts s2 = (ok (), s3)"
    "if sts AND INT_DATA_MASK \<noteq> 0 \<and> HOST_TRANSFER_DMA_PENDING s
      then ist (host_irq.more s3) = ist (host_irq.more s2) AND NOT (data_acked sts) \<and>
        host_irq.truncate s3 = (case data_irq_result sts of
            Some r \<Rightarrow> (host_irq.truncate s2)\<lparr>HOST_DMA_RESULT := r, HOST_TRANSFER_DMA_PENDING := False\<rparr>
          | None \<Rightarrow> (host_irq.truncate s2)\<lparr>HOST_DMA_BYTES_XFERRED :=
                unat (next_boundary (HOST_DMA_BASE_PHYS s) (HOST_DMA_BYTES_XFERRED s) - HOST_DMA_BASE_PHYS s)\<rparr>)
      else s3 = s2"
    using irq_data_w1c [OF w, of sts s2] unfolding p by blast
  have t3: "host_irq.truncate s3 = round_statics sts (host_irq.truncate s)"
    using 3(2) 2(3) by (auto simp: round_statics_def truncate_fields Let_def split: if_splits option.splits)
  have i3: "ist (host_irq.more s3) = ist (host_irq.more s) AND NOT
      (irq_clear_mask s sts OR (if sts AND INT_DATA_MASK \<noteq> 0 \<and> HOST_TRANSFER_DMA_PENDING s then data_acked sts else 0))"
    using 3(2) 2(2) 1(2) by (auto simp: and.assoc split: if_splits)
  obtain s4 b where 4: "irq_card e sts s3 = (ok (), s4)" "ist (host_irq.more s4) = ist (host_irq.more s3)"
    "host_irq.truncate s4 = (host_irq.truncate s3)\<lparr>SDIO_IRQ_PENDING := b\<rparr>" using irq_card_w1c [OF w] by blast
  obtain s5 where 5: "write_nonzero (sd_regs e) ((sts AND CARD_INT) OR (sts AND INT_RETUNE)) s4 = (ok (), s5)"
    "ist (host_irq.more s5) = ist (host_irq.more s4) AND NOT ((sts AND CARD_INT) OR (sts AND INT_RETUNE))"
    "host_irq.truncate s5 = host_irq.truncate s4" using write_nonzero_w1c [OF w] by blast
  have "irq_round e sts s = (ok (), s5)"
    by (simp add: irq_round_def io_bind_def 1 2 3(1) 4(1) 5(1))
  moreover have "ist (host_irq.more s5) = ist (host_irq.more s) AND NOT (round_acked s sts)"
    by (simp add: 5(2) 4(2) i3 round_acked_def and.assoc or.assoc)
  ultimately show ?thesis using 5(3) 4(3) t3 by metis
qed


lemma handled_split:
  "sts AND HANDLED = (sts AND (INT_CMD_MASK OR INT_BUS_POWER)) OR (sts AND INT_DATA_MASK)
     OR (sts AND CARD_INT) OR (sts AND INT_RETUNE)"
  by (rule bit_word_eqI) (auto simp: HANDLED_def bit_simps)

lemma round_acked_all:
  assumes "\<not> (HOST_TRANSFER_DMA_PENDING s \<and> sts AND INT_DATA_MASK \<noteq> 0 \<and> data_irq_result sts = None)"
  shows "sts AND NOT (round_acked s sts) = sts AND NOT HANDLED"
proof -
  have "round_acked s sts = sts AND HANDLED"
    unfolding handled_split using assms
    by (auto simp: round_acked_def irq_clear_mask_def data_acked_def or.assoc split: option.splits)
  moreover have "sts AND NOT (sts AND HANDLED) = sts AND NOT HANDLED"
    by (rule bit_word_eqI) (auto simp: bit_simps)
  ultimately show ?thesis by simp
qed

lemma round_acked_boundary:
  assumes "HOST_TRANSFER_DMA_PENDING s" "sts AND INT_DATA_MASK \<noteq> 0" "data_irq_result sts = None"
  shows "sts AND NOT (round_acked s sts) =
    (sts AND NOT HANDLED) OR (sts AND (INT_DATA_MASK AND NOT INT_DMA_END))"
proof -
  have d: "INT_DATA_MASK AND (INT_CMD_MASK OR INT_BUS_POWER OR CARD_INT OR INT_RETUNE) = 0"
    "INT_DMA_END AND NOT INT_DATA_MASK = 0"
    by (simp_all add: int_bit_defs)
  have "bit INT_DATA_MASK n \<Longrightarrow> \<not> bit (INT_CMD_MASK OR INT_BUS_POWER OR CARD_INT OR INT_RETUNE) n" for n
    using arg_cong [OF d(1), of "\<lambda>w. bit w n"] by (simp add: bit_and_iff)
  moreover have "bit INT_DMA_END n \<Longrightarrow> bit INT_DATA_MASK n" for n
    using arg_cong [OF d(2), of "\<lambda>w. bit w n"] bit_imp_le_length [of INT_DMA_END n]
    by (auto simp: bit_and_iff bit_not_iff)
  ultimately show ?thesis
    using assms
    by (intro bit_word_eqI) (auto simp: round_acked_def irq_clear_mask_def data_acked_def HANDLED_def bit_simps)
qed

lemma irq_round_idle:
  assumes w: "w1c_regs e ist" and "sts AND HANDLED = 0"
  shows "irq_round e sts s = (ok (), s)"
proof -
  have "sts AND INT_CMD_MASK = 0" "sts AND (INT_CMD_MASK OR INT_BUS_POWER) = 0" "sts AND INT_DATA_MASK = 0"
    "sts AND CARD_INT = 0" "sts AND INT_RETUNE = 0"
    using assms(2) by (simp_all add: HANDLED_def bit.conj_disj_distrib or_eq_0_iff)
  then show ?thesis
    by (simp add: irq_round_def irq_clear_mask_def write_nonzero_def irq_cmd_def irq_data_def irq_card_def
        io_bind_def w1cD [OF w])
qed

lemma irq_loop_idle:
  assumes w: "w1c_regs e ist" and "ist (host_irq.more s) AND HANDLED = 0"
  shows "irq_loop e k s = (ok (), s)"
  by (induction k) (simp_all add: io_bind_def w1cD [OF w] irq_round_idle [OF w assms(2)])


lemma data_irq_result_rest:
  assumes "data_irq_result sts = None" and "sts' AND INT_DATA_MASK = sts AND (INT_DATA_MASK AND NOT INT_DMA_END)"
  shows "data_irq_result sts' = Some (-5)"
proof -
  have k: "sts' AND m = sts AND (m AND NOT INT_DMA_END)" if "INT_DATA_MASK AND m = m" for m
  proof -
    have "sts' AND m = (sts' AND INT_DATA_MASK) AND m" by (simp only: and.assoc that)
    also have "\<dots> = (sts AND (INT_DATA_MASK AND NOT INT_DMA_END)) AND m" by (simp only: assms(2))
    also have "\<dots> = sts AND ((INT_DATA_MASK AND m) AND NOT INT_DMA_END)"
      by (simp only: and.assoc and.commute and.left_commute)
    finally show ?thesis by (simp only: that)
  qed
  have "sts' AND INT_DATA_END = sts AND INT_DATA_END" "sts' AND INT_DATA_TIMEOUT = sts AND INT_DATA_TIMEOUT"
    "sts' AND INT_DATA_END_BIT = sts AND INT_DATA_END_BIT" "sts' AND INT_DATA_CRC = sts AND INT_DATA_CRC"
    "sts' AND INT_ADMA_ERROR = sts AND INT_ADMA_ERROR" "sts' AND INT_DMA_END = 0"
    by (subst k; simp add: int_bit_defs)+
  then show ?thesis using assms(1) by (simp add: data_irq_result_def split: if_splits)
qed


text \<open>The rest of the handler after the round that saw \<open>sts\<close> and left \<open>s1\<close>.\<close>

lemma handler_boundary:
  assumes w: "w1c_regs e ist" and bd: "HOST_TRANSFER_DMA_PENDING s" "sts AND INT_DATA_MASK \<noteq> 0" "data_irq_result sts = None"
    and i1: "ist (host_irq.more s1) = (sts AND NOT HANDLED) OR (sts AND (INT_DATA_MASK AND NOT INT_DMA_END))"
    and p1: "HOST_TRANSFER_DMA_PENDING s1" "cmd_settled s sts s1"
    and rest: "sts AND (INT_DATA_MASK AND NOT INT_DMA_END) \<noteq> 0"
  shows "\<exists>s2. irq_loop e (Suc k) s1 = (ok (), s2) \<and> ist (host_irq.more s2) = sts AND NOT HANDLED \<and>
    cmd_settled s sts s2 \<and> data_settled s sts s2"
proof -
  define sts2 where "sts2 = (sts AND NOT HANDLED) OR (sts AND (INT_DATA_MASK AND NOT INT_DMA_END))"
  have m: "sts2 AND INT_CMD_MASK = 0" "sts2 AND INT_DMA_END = 0"
    "sts2 AND INT_DATA_MASK = sts AND (INT_DATA_MASK AND NOT INT_DMA_END)"
    "sts2 AND NOT HANDLED = sts AND NOT HANDLED"
    by (simp_all add: sts2_def HANDLED_def int_bit_defs bit.conj_disj_distrib2 and.assoc)
  from m(2) have f: "sts2 \<noteq> 0xFFFFFFFF" by (auto simp: int_bit_defs)
  from m(3) rest have nz: "sts2 \<noteq> 0" "sts2 AND INT_DATA_MASK \<noteq> 0" by auto
  have r: "data_irq_result sts2 = Some (-5)" by (rule data_irq_result_rest [OF bd(3) m(3)])
  obtain s2 b where 2: "irq_round e sts2 s1 = (ok (), s2)"
    "ist (host_irq.more s2) = sts2 AND NOT (round_acked s1 sts2)"
    "host_irq.truncate s2 = (round_statics sts2 (host_irq.truncate s1))\<lparr>SDIO_IRQ_PENDING := b\<rparr>"
    using irq_round_w1c [OF w, of sts2 s1] i1 unfolding sts2_def by metis
  have i2: "ist (host_irq.more s2) = sts AND NOT HANDLED" using 2(2) round_acked_all [of s1 sts2] r m(4) by simp
  then have "irq_loop e k s2 = (ok (), s2)" by (intro irq_loop_idle [OF w]) (simp add: and.assoc)
  then have "irq_loop e (Suc k) s1 = (ok (), s2)"
    using nz f i1 2(1) by (simp add: io_bind_def w1cD [OF w] sts2_def)
  moreover note fs = truncate_fields [of s2, unfolded 2(3), symmetric]
  have "cmd_settled s sts s2"
    using p1(2) m(1) nz p1(1) r by (simp add: cmd_settled_def fs round_statics_def truncate_fields Let_def)
  moreover have "data_settled s sts s2"
    using bd m(1) nz p1(1) r rest
    by (simp add: data_settled_def dma_outcome_def fs round_statics_def truncate_fields Let_def)
  ultimately show ?thesis using i2 by blast
qed

lemma handler_run:
  assumes w: "w1c_regs e ist" and sts: "ist (host_irq.more s) = sts" and f: "sts \<noteq> 0xFFFFFFFF"
  shows "\<exists>s'. handle_sdhci_host_irq e s = (ok (), s') \<and> ist (host_irq.more s') = sts AND NOT HANDLED \<and>
    cmd_settled s sts s' \<and> data_settled s sts s'"
proof (cases "sts AND HANDLED = 0")
  case True
  then have "sts AND NOT HANDLED = sts" by (rule and_not_disjoint)
  moreover have "sts AND INT_CMD_MASK = 0" "sts AND INT_DATA_MASK = 0"
    using True by (simp_all add: HANDLED_def bit.conj_disj_distrib or_eq_0_iff)
  ultimately show ?thesis using True irq_loop_idle [OF w] sts
    by (simp add: handle_sdhci_host_irq_def cmd_settled_def data_settled_def)
next
  case False
  then have nz: "sts \<noteq> 0" by auto
  obtain s1 b where 1: "irq_round e sts s = (ok (), s1)"
    "ist (host_irq.more s1) = sts AND NOT (round_acked s sts)"
    "host_irq.truncate s1 = (round_statics sts (host_irq.truncate s))\<lparr>SDIO_IRQ_PENDING := b\<rparr>"
    using irq_round_w1c [OF w, of sts s] unfolding sts by blast
  have h: "handle_sdhci_host_irq e s = irq_loop e (Suc 14) s1"
    using nz f by (simp add: handle_sdhci_host_irq_def MAX_IRQ_LOOPS_def numeral_eq_Suc io_bind_def w1cD [OF w] sts 1(1))
  note fs = truncate_fields [of s1, unfolded 1(3), symmetric]
  have c1: "cmd_settled s sts s1"
    by (auto simp: cmd_settled_def fs round_statics_def truncate_fields Let_def split: option.splits)
  have idle: "irq_loop e (Suc 14) s1 = (ok (), s1)" if "ist (host_irq.more s1) = sts AND NOT HANDLED"
    using that by (intro irq_loop_idle [OF w]) (simp add: and.assoc)
  show ?thesis
  proof (cases "HOST_TRANSFER_DMA_PENDING s \<and> sts AND INT_DATA_MASK \<noteq> 0 \<and> data_irq_result sts = None")
    case False
    then have "ist (host_irq.more s1) = sts AND NOT HANDLED" using 1(2) round_acked_all by metis
    moreover have "data_settled s sts s1"
      using False by (auto simp: data_settled_def dma_outcome_def fs round_statics_def truncate_fields Let_def split: option.splits)
    ultimately show ?thesis using h c1 idle by simp
  next
    case bd: True
    have i1: "ist (host_irq.more s1) = (sts AND NOT HANDLED) OR (sts AND (INT_DATA_MASK AND NOT INT_DMA_END))"
      using 1(2) round_acked_boundary bd by metis
    have p1: "HOST_TRANSFER_DMA_PENDING s1"
      using bd by (auto simp: fs round_statics_def truncate_fields Let_def)
    show ?thesis
    proof (cases "sts AND (INT_DATA_MASK AND NOT INT_DMA_END) = 0")
      case True
      moreover from this have "data_settled s sts s1"
        using bd by (auto simp: data_settled_def dma_outcome_def fs round_statics_def truncate_fields Let_def)
      ultimately show ?thesis using h c1 i1 idle by simp
    next
      case False
      show ?thesis unfolding h by (rule handler_boundary [OF w _ _ _ i1 p1 c1 False]) (use bd in simp_all)
    qed
  qed
qed

text \<open>
  The documented priorities, over bit positions: timeout, CRC, end bit and response for a command;
  end of data, timeout, end bit, CRC and ADMA error for the data phase. A data phase with none of
  those goes on (\<open>None\<close>) when it only reached a boundary, else it fails with -5.
\<close>

fun first_set :: "(nat \<times> int) list \<Rightarrow> u32 \<Rightarrow> int option" where
  "first_set [] sts = None"
| "first_set ((k, r) # ks) sts = (if bit sts k then Some r else first_set ks sts)"

definition cmd_outcome :: "u32 \<Rightarrow> int" where
  "cmd_outcome sts = (case first_set [(16, -110), (17, -84), (18, -74), (0, 0)] sts of Some r \<Rightarrow> r | None \<Rightarrow> -5)"

definition data_outcome :: "u32 \<Rightarrow> int option" where
  "data_outcome sts =
     (case first_set [(1, 0), (20, -110), (22, -84), (21, -84), (25, -5)] sts of
        Some r \<Rightarrow> Some r
      | None \<Rightarrow> if bit sts 2 \<or> bit sts 4 \<or> bit sts 5 then Some (-5) else None)"

lemma int_bits:
  "sts AND INT_TIMEOUT \<noteq> 0 \<longleftrightarrow> bit sts 16" "sts AND INT_CRC \<noteq> 0 \<longleftrightarrow> bit sts 17"
  "sts AND INT_END_BIT \<noteq> 0 \<longleftrightarrow> bit sts 18" "sts AND INT_RESPONSE \<noteq> 0 \<longleftrightarrow> bit sts 0"
  "sts AND INT_DATA_END \<noteq> 0 \<longleftrightarrow> bit sts 1" "sts AND INT_DATA_TIMEOUT \<noteq> 0 \<longleftrightarrow> bit sts 20"
  "sts AND INT_DATA_END_BIT \<noteq> 0 \<longleftrightarrow> bit sts 22" "sts AND INT_DATA_CRC \<noteq> 0 \<longleftrightarrow> bit sts 21"
  "sts AND INT_ADMA_ERROR \<noteq> 0 \<longleftrightarrow> bit sts 25" "sts AND INT_DMA_END \<noteq> 0 \<longleftrightarrow> bit sts 3"
  "sts AND INT_BLK_GAP \<noteq> 0 \<longleftrightarrow> bit sts 2" "sts AND INT_SPACE_AVAIL \<noteq> 0 \<longleftrightarrow> bit sts 4"
  "sts AND INT_DATA_AVAIL \<noteq> 0 \<longleftrightarrow> bit sts 5"
  by (simp_all only: bit_iff_and_push_bit_not_eq_0) (simp_all add: int_bit_defs)

lemma cmd_irq_result_outcome: "cmd_irq_result sts = cmd_outcome sts"
  by (simp add: cmd_irq_result_def cmd_outcome_def int_bits)

lemma dma_outcome_data:
  assumes "sts AND INT_DATA_MASK \<noteq> 0"
  shows "dma_outcome sts = data_outcome sts"
proof -
  have m: "INT_DATA_MASK AND NOT INT_DMA_END = INT_DATA_END OR INT_DATA_AVAIL OR INT_SPACE_AVAIL OR
      INT_DATA_TIMEOUT OR INT_DATA_CRC OR INT_DATA_END_BIT OR INT_ADMA_ERROR OR INT_BLK_GAP"
    by (simp add: int_bit_defs)
  have rest: "sts AND (INT_DATA_MASK AND NOT INT_DMA_END) = 0 \<longleftrightarrow> \<not> (bit sts 1 \<or> bit sts 5 \<or> bit sts 4 \<or>
      bit sts 20 \<or> bit sts 21 \<or> bit sts 22 \<or> bit sts 25 \<or> bit sts 2)"
    unfolding m by (simp only: bit.conj_disj_distrib or_eq_0_iff int_bits [symmetric]) blast
  have "bit sts 3 \<or> \<not> sts AND (INT_DATA_MASK AND NOT INT_DMA_END) = 0"
  proof (rule ccontr)
    assume "\<not> ?thesis"
    then have "sts AND INT_DMA_END = 0" "sts AND (INT_DATA_MASK AND NOT INT_DMA_END) = 0" using int_bits(10) [of sts] by auto
    then have "sts AND (INT_DMA_END OR (INT_DATA_MASK AND NOT INT_DMA_END)) = 0" by (simp only: bit.conj_disj_distrib or_eq_0_iff)
    moreover have "INT_DMA_END OR (INT_DATA_MASK AND NOT INT_DMA_END) = INT_DATA_MASK" by (simp add: int_bit_defs)
    ultimately show False using assms by simp
  qed
  then show ?thesis by (auto simp: dma_outcome_def data_irq_result_def data_outcome_def int_bits rest)
qed

text \<open>
  (C7) The host interrupt handler, on a controller whose status bits stay until they are written back
  (and that raises no new one meanwhile): it returns, every status bit it knows is acknowledged and no
  other one; a waiting command gets its result by the priority timeout, CRC, end bit, response, other,
  and is taken off the waiting mark; a waiting data transfer succeeds when the end of data is
  reported, whatever error stands beside it, fails by the priority timeout, end bit and CRC, ADMA,
  and goes on at the next boundary when only a boundary was reached. What nobody waits for does not change.
\<close>

theorem handler_outcome:
  assumes w: "w1c_regs e ist" and sts: "ist (host_irq.more s) = sts" and f: "sts \<noteq> 0xFFFFFFFF"
  shows "\<exists>s'. handle_sdhci_host_irq e s = (ok (), s') \<and> ist (host_irq.more s') = sts AND NOT HANDLED \<and>
    (if HOST_TRANSFER_CMD_PENDING s \<and> sts AND INT_CMD_MASK \<noteq> 0
     then \<not> HOST_TRANSFER_CMD_PENDING s' \<and> HOST_CMD_RESULT s' = cmd_outcome sts
     else HOST_TRANSFER_CMD_PENDING s' = HOST_TRANSFER_CMD_PENDING s \<and> HOST_CMD_RESULT s' = HOST_CMD_RESULT s) \<and>
    (if HOST_TRANSFER_DMA_PENDING s \<and> sts AND INT_DATA_MASK \<noteq> 0
     then (case data_outcome sts of
             Some r \<Rightarrow> \<not> HOST_TRANSFER_DMA_PENDING s' \<and> HOST_DMA_RESULT s' = r
           | None \<Rightarrow> HOST_TRANSFER_DMA_PENDING s' \<and> HOST_DMA_RESULT s' = HOST_DMA_RESULT s \<and>
               HOST_DMA_BYTES_XFERRED s' =
                 unat (next_boundary (HOST_DMA_BASE_PHYS s) (HOST_DMA_BYTES_XFERRED s) - HOST_DMA_BASE_PHYS s))
     else HOST_TRANSFER_DMA_PENDING s' = HOST_TRANSFER_DMA_PENDING s \<and> HOST_DMA_RESULT s' = HOST_DMA_RESULT s)"
proof -
  obtain s' where h: "handle_sdhci_host_irq e s = (ok (), s')" "ist (host_irq.more s') = sts AND NOT HANDLED"
    "cmd_settled s sts s'" "data_settled s sts s'" using handler_run [OF assms] by blast
  have d: "sts AND INT_DATA_MASK \<noteq> 0 \<Longrightarrow> dma_outcome sts = data_outcome sts" by (rule dma_outcome_data)
  show ?thesis
    using h(1,2) h(3) [unfolded cmd_settled_def cmd_irq_result_outcome] h(4) [unfolded data_settled_def] d
    by (intro exI [of _ s'] conjI) (auto split: if_splits)
qed

text \<open>A bank of registers with a status register of this kind, and a log of the notifications.\<close>

definition bank_sd1 :: "((nat \<Rightarrow> u32) \<times> wq list) host_irq_scheme sd1" where
  "bank_sd1 =
     \<lparr>sd_regs = \<lparr>mmio_read = (\<lambda>off s. (fst (host_irq.more s) off, s)),
        mmio_write = (\<lambda>off v. host_irq.more_update (\<lambda>(r, l).
          (r(off := if off = R_INT_STS then r off AND NOT v else v), l))),
        mmio_sleep_ms = (\<lambda>n s. s)\<rparr>,
      sd_wq = \<lparr>notify_one = (\<lambda>q b. host_irq.more_update (\<lambda>(r, l). (r, l @ [q]))),
        wait_timeout = (\<lambda>q n s. (True, s))\<rparr>\<rparr>"

definition bank_state :: "(nat \<Rightarrow> u32) \<Rightarrow> ((nat \<Rightarrow> u32) \<times> wq list) host_irq_scheme" where
  "bank_state r = \<lparr>USE_SOFT_IRQ_WAKE = False, SDIO_IRQ_REGISTER_ONCE = True, SDIO_IRQ_PENDING = False,
     HOST_TRANSFER_CMD_PENDING = True, HOST_TRANSFER_DMA_PENDING = True, HOST_DMA_BASE_PHYS = 0x80010000,
     HOST_DMA_TOTAL = 1024, HOST_DMA_BYTES_XFERRED = 0, HOST_CMD_RESULT = -5, HOST_DMA_RESULT = -5,
     DMA_POOL = Some (), \<dots> = (r, [])\<rparr>"

lemma w1c_bank: "w1c_regs bank_sd1 (\<lambda>z. fst z R_INT_STS)"
  by (simp add: w1c_regs_def bank_sd1_def host_irq.truncate_def case_prod_beta)

theorem handler_outcome_witness:
  "\<exists>s'. handle_sdhci_host_irq bank_sd1 (bank_state (\<lambda>r. if r = R_INT_STS then 0x00100003 else 0)) = (ok (), s') \<and>
     fst (host_irq.more s') R_INT_STS = 0 \<and> HOST_CMD_RESULT s' = 0 \<and> HOST_DMA_RESULT s' = 0 \<and>
     \<not> HOST_TRANSFER_CMD_PENDING s' \<and> \<not> HOST_TRANSFER_DMA_PENDING s'"
  using handler_outcome [OF w1c_bank, of "bank_state (\<lambda>r. if r = R_INT_STS then 0x00100003 else 0)" "0x00100003"]
  by (auto simp: bank_state_def cmd_outcome_def data_outcome_def HANDLED_def int_bit_defs bit_numeral_rec bit_1_iff
      bit_iff_and_push_bit_not_eq_0)

section \<open>Boundaries\<close>

lemma next_boundary_value:
  assumes "unat base + b + 524288 < 2 ^ 32"
  shows "unat (next_boundary base b) = ((unat base + b) div 524288 + 1) * 524288"
proof -
  let ?now = "base + word_of_nat b :: u32"
  have now: "unat ?now = unat base + b" using assms by (simp add: unat_word_ariths unat_of_nat)
  have m: "(524288 - 1 :: u32) = mask 19" by (simp add: mask_eq_exp_minus_1)
  have al: "unat (?now AND NOT (mask 19)) = (unat base + b) div 524288 * 524288"
    using now by (simp add: unat_and_not_mask)
  have "(unat base + b) div 524288 * 524288 \<le> unat base + b" by simp
  then have "unat ((?now AND NOT (mask 19)) + 524288) = (unat base + b) div 524288 * 524288 + 524288"
    using assms al by (simp add: unat_word_ariths)
  then show ?thesis
    by (simp add: next_boundary_def Let_def SDHCI_DEFAULT_BOUNDARY_SIZE_def m [simplified])
qed

definition sdma_reg :: "'z host_irq_scheme sd1 \<Rightarrow> ('z \<Rightarrow> u32) \<Rightarrow> bool" where
  "sdma_reg e sdma \<longleftrightarrow>
     (\<forall>off v s. sdma (host_irq.more (mmio_write (sd_regs e) off v s)) =
        (if off = R_SDMA_SADDR then v else sdma (host_irq.more s))) \<and>
     (\<forall>q b s. sdma (host_irq.more (notify_one (sd_wq e) q b s)) = sdma (host_irq.more s))"

lemma sdma_regD:
  assumes "sdma_reg e sdma"
  shows "sdma (host_irq.more (mmio_write (sd_regs e) off v s)) =
      (if off = R_SDMA_SADDR then v else sdma (host_irq.more s))"
    "sdma (host_irq.more (notify_one (sd_wq e) q b s)) = sdma (host_irq.more s)"
  using assms by (simp_all add: sdma_reg_def)

lemma boundary_round:
  assumes w: "w1c_regs e ist" and a: "sdma_reg e sdma" and b: "sts AND HANDLED = INT_DMA_END"
    and p: "HOST_TRANSFER_DMA_PENDING s"
  shows "\<exists>s'. irq_round e sts s = (ok (), s') \<and>
    ist (host_irq.more s') = ist (host_irq.more s) AND NOT INT_DMA_END \<and>
    (let nxt = next_boundary (HOST_DMA_BASE_PHYS s) (HOST_DMA_BYTES_XFERRED s);
         n = unat (nxt - HOST_DMA_BASE_PHYS s)
     in host_irq.truncate s' = (host_irq.truncate s)\<lparr>HOST_DMA_BYTES_XFERRED := n\<rparr> \<and>
        sdma (host_irq.more s') = (if n < HOST_DMA_TOTAL s then nxt else sdma (host_irq.more s)))"
proof -
  have k: "sts AND m = INT_DMA_END AND m" if "HANDLED AND m = m" for m
    using b that by (metis and.assoc)
  have m: "sts AND INT_CMD_MASK = 0" "sts AND (INT_CMD_MASK OR INT_BUS_POWER) = 0"
    "sts AND INT_DATA_MASK = INT_DMA_END" "sts AND CARD_INT = 0" "sts AND INT_RETUNE = 0"
    "sts AND INT_DATA_END = 0" "sts AND INT_DATA_TIMEOUT = 0" "sts AND INT_DATA_END_BIT = 0"
    "sts AND INT_DATA_CRC = 0" "sts AND INT_ADMA_ERROR = 0" "sts AND INT_DMA_END = INT_DMA_END"
    by (subst k; simp add: HANDLED_def int_bit_defs)+
  have d: "INT_DMA_END \<noteq> 0" by (simp add: INT_DMA_END_def)
  have r: "data_irq_result sts = None" using m d by (simp add: data_irq_result_def)
  show ?thesis
    using p d
    by (simp add: irq_round_def irq_clear_mask_def write_nonzero_def irq_cmd_def irq_data_def dma_boundary_def
        irq_card_def r m io_simps w1cD [OF w] w1c_statics [OF w] truncate_update sdma_regD [OF a] Let_def
        reg_neq reg_neq [symmetric])
qed

text \<open>
  (C26) Boundaries of a DMA transfer: at each boundary interrupt the transfer is restarted at the next
  multiple of 512 KiB, which is beyond the bytes moved so far by at most 512 KiB, unless the buffer
  ends before it; the transfer stays waiting. A buffer of the DMA pool is restarted at most once.
\<close>

theorem sdma_boundary_restart:
  assumes w: "w1c_regs e ist" and a: "sdma_reg e sdma" and sts: "ist (host_irq.more s) AND HANDLED = INT_DMA_END"
    and f: "ist (host_irq.more s) \<noteq> 0xFFFFFFFF" and p: "HOST_TRANSFER_DMA_PENDING s"
    and "base = unat (HOST_DMA_BASE_PHYS s)" and "n = HOST_DMA_BYTES_XFERRED s"
    and small: "base + n + 524288 < 2 ^ 32"
  shows "\<exists>s' n'. handle_sdhci_host_irq e s = (ok (), s') \<and> HOST_DMA_BYTES_XFERRED s' = n' \<and>
     HOST_TRANSFER_DMA_PENDING s' \<and> 524288 dvd base + n' \<and> n < n' \<and> n' \<le> n + 524288 \<and>
     (if n' < HOST_DMA_TOTAL s then unat (sdma (host_irq.more s')) = base + n'
      else sdma (host_irq.more s') = sdma (host_irq.more s)) \<and>
     (0 < n \<and> 524288 dvd base + n \<and> HOST_DMA_TOTAL s \<le> DMA_POOL_SIZE \<longrightarrow> HOST_DMA_TOTAL s \<le> n')"
proof -
  let ?sts = "ist (host_irq.more s)"
  let ?nxt = "next_boundary (HOST_DMA_BASE_PHYS s) n" and ?q = "(base + n) div 524288"
  define n' where "n' = unat (?nxt - HOST_DMA_BASE_PHYS s)"
  have nxt: "unat ?nxt = (?q + 1) * 524288" using next_boundary_value [of "HOST_DMA_BASE_PHYS s" n] assms(6) small by simp
  have q: "?q * 524288 \<le> base + n" "base + n < (?q + 1) * 524288"
    using div_mult_mod_eq [of "base + n" 524288] mod_less_divisor [of 524288 "base + n"] by simp_all
  then have "HOST_DMA_BASE_PHYS s \<le> ?nxt" using nxt assms(6) by (simp add: word_le_nat_alt)
  then have n': "base + n' = (?q + 1) * 524288" using nxt assms(6) by (simp add: n'_def unat_sub word_le_nat_alt)
  obtain s1 where 1: "irq_round e ?sts s = (ok (), s1)"
    "ist (host_irq.more s1) = ?sts AND NOT INT_DMA_END"
    "host_irq.truncate s1 = (host_irq.truncate s)\<lparr>HOST_DMA_BYTES_XFERRED := n'\<rparr>"
    "sdma (host_irq.more s1) = (if n' < HOST_DMA_TOTAL s then ?nxt else sdma (host_irq.more s))"
    using boundary_round [OF w a sts p] unfolding Let_def n'_def assms(7) by metis
  note fs = truncate_fields [of s1, unfolded 1(3), symmetric]
  have "?sts \<noteq> 0" using sts by (auto simp: INT_DMA_END_def)
  then have "handle_sdhci_host_irq e s = irq_loop e (Suc 14) s1"
    using f by (simp add: handle_sdhci_host_irq_def MAX_IRQ_LOOPS_def numeral_eq_Suc io_bind_def w1cD [OF w] 1(1))
  moreover have "ist (host_irq.more s1) AND HANDLED = 0"
  proof -
    have "ist (host_irq.more s1) AND HANDLED = (?sts AND HANDLED) AND NOT INT_DMA_END"
      by (simp only: 1(2) and.assoc and.commute and.left_commute)
    then show ?thesis by (simp add: sts)
  qed
  ultimately have "handle_sdhci_host_irq e s = (ok (), s1)" using irq_loop_idle [OF w] by metis
  moreover have "n < n'" "n' \<le> n + 524288" using n' q by simp_all
  moreover have "HOST_DMA_TOTAL s \<le> n'" if "0 < n" "524288 dvd base + n" "HOST_DMA_TOTAL s \<le> DMA_POOL_SIZE"
    using that n' by (auto simp: DMA_POOL_SIZE_def)
  ultimately show ?thesis
    using 1(4) n' nxt p by (intro exI [of _ s1] exI [of _ n']) (auto simp: fs truncate_fields)
qed

lemma sdma_bank: "sdma_reg bank_sd1 (\<lambda>z. fst z R_SDMA_SADDR)"
  by (simp add: sdma_reg_def bank_sd1_def case_prod_beta reg_neq)

theorem sdma_boundary_restart_witness:
  "\<exists>s'. handle_sdhci_host_irq bank_sd1 ((bank_state (\<lambda>r. if r = R_INT_STS then 8 else 0))
         \<lparr>HOST_DMA_BASE_PHYS := 0x8007FE00\<rparr>) = (ok (), s') \<and>
     unat (fst (host_irq.more s') R_SDMA_SADDR) = 0x80080000 \<and> HOST_DMA_BYTES_XFERRED s' = 512"
proof -
  let ?s = "(bank_state (\<lambda>r. if r = R_INT_STS then 8 else 0))\<lparr>HOST_DMA_BASE_PHYS := 0x8007FE00\<rparr>"
  obtain s' n' where h: "handle_sdhci_host_irq bank_sd1 ?s = (ok (), s')" "HOST_DMA_BYTES_XFERRED s' = n'"
    "524288 dvd 0x8007FE00 + n'" "0 < n'" "n' \<le> 524288"
    "if n' < 1024 then unat (fst (host_irq.more s') R_SDMA_SADDR) = 0x8007FE00 + n'
     else fst (host_irq.more s') R_SDMA_SADDR = fst (host_irq.more ?s) R_SDMA_SADDR"
    using sdma_boundary_restart [OF w1c_bank sdma_bank, of ?s "0x8007FE00" 0]
    by (auto simp: bank_state_def HANDLED_def int_bit_defs)
  from h(3) obtain k where k: "0x8007FE00 + n' = 524288 * k" by (elim dvdE)
  have "4096 < k" "k < 4098" using k h(4,5) by linarith+
  then have "k = 4097" by linarith
  then have "n' = 512" using k by simp
  with h show ?thesis by auto
qed

section \<open>Polled commands and the handler\<close>

lemma reset_poll_ok: "fst (reset_poll m v k s) = ok ()"
  by (induction k arbitrary: s) (simp_all add: io_bind_def read_reg_def split: prod.splits)

lemma reset_cmd_line_ok: "fst (reset_cmd_line m s) = ok ()"
  by (simp add: reset_cmd_line_def reset_line_def io_bind_def read_reg_def write_reg_def reset_poll_ok split: prod.splits)

lemma clear_int_status_ok: "fst (clear_int_status m s) = ok ()"
  by (simp add: clear_int_status_def io_bind_def read_reg_def write_reg_def split: prod.splits)

lemma cmd_complete_never:
  assumes w: "w1c_regs e ist" and "ist (host_irq.more s) AND INT_CMD_CLEAR_MASK = 0"
  shows "fst (cmd_complete_loop (sd_regs e) k s) = err (-110)"
  using assms(2)
proof (induction k arbitrary: s)
  case 0
  obtain s1 where "clear_int_status (sd_regs e) s = (ok (), s1)"
    using clear_int_status_ok [of "sd_regs e" s] by (cases "clear_int_status (sd_regs e) s") auto
  moreover obtain s2 where "reset_cmd_line (sd_regs e) s1 = (ok (), s2)"
    using reset_cmd_line_ok [of "sd_regs e" s1] by (cases "reset_cmd_line (sd_regs e) s1") auto
  ultimately show ?case by (simp add: io_bind_def w1cD [OF w])
next
  case (Suc k)
  then have "ist (host_irq.more s) AND INT_CMD_ERR_MASK = 0" "ist (host_irq.more s) AND INT_CMD_CMPL = 0"
    by (simp_all add: INT_CMD_CLEAR_MASK_def bit.conj_disj_distrib or_eq_0_iff)
  with Suc show ?case by (simp add: io_bind_def w1cD [OF w])
qed

text \<open>
  (C24) A polled command loses its completion to the handler: with the status of a completed command
  pending, the polling wait succeeds; but when the handler runs first (its interrupt is enabled from
  the set-up of the controller on), it acknowledges the completion although no transfer waits for it,
  and the polling wait ends with -110.
\<close>

theorem handler_takes_polled_completion:
  assumes w: "w1c_regs e ist"
    and c: "ist (host_irq.more s) AND INT_CMD_CMPL \<noteq> 0" "ist (host_irq.more s) AND INT_CMD_ERR_MASK = 0"
  shows "fst (wait_cmd_complete (sd_regs e) s) = ok () \<and> DEFAULT_IER AND INT_CMD_CMPL \<noteq> 0 \<and>
    fst (io_bind (sdio_irq_handler e) (\<lambda>_. wait_cmd_complete (sd_regs e)) s) = err (-110)"
proof -
  let ?sts = "ist (host_irq.more s)"
  have "?sts \<noteq> 0xFFFFFFFF" using c(2) by (auto simp: int_cmd_defs)
  from handler_run [OF w refl this] obtain s' where
    h: "handle_sdhci_host_irq e s = (ok (), s')" "ist (host_irq.more s') = ?sts AND NOT HANDLED" by blast
  let ?s2 = "notify_one (sd_wq e) SDIO_WAIT_QUEUE False s'"
  have "ist (host_irq.more ?s2) AND INT_CMD_CLEAR_MASK = ?sts AND (NOT HANDLED AND INT_CMD_CLEAR_MASK)"
    by (simp add: w1cD [OF w] h(2) and.assoc)
  also have "NOT HANDLED AND INT_CMD_CLEAR_MASK = 0" by (simp add: HANDLED_def int_bit_defs int_cmd_defs)
  finally have "fst (wait_cmd_complete (sd_regs e) ?s2) = err (-110)"
    unfolding wait_cmd_complete_def by (intro cmd_complete_never [OF w]) simp
  moreover have "0 < k \<Longrightarrow> fst (cmd_complete_loop (sd_regs e) k s) = ok ()" for k
    using c by (cases k) (simp_all add: io_bind_def w1cD [OF w] write_reg_def)
  then have "fst (wait_cmd_complete (sd_regs e) s) = ok ()" by (simp add: wait_cmd_complete_def)
  moreover have "DEFAULT_IER AND INT_CMD_CMPL \<noteq> 0" by (simp add: DEFAULT_IER_def INT_CMD_CMPL_def)
  ultimately show ?thesis by (simp add: sdio_irq_handler_def io_bind_def h(1))
qed

theorem handler_takes_polled_completion_witness:
  "fst (io_bind (sdio_irq_handler bank_sd1) (\<lambda>_. wait_cmd_complete (sd_regs bank_sd1))
     (bank_state (\<lambda>r. if r = R_INT_STS then 1 else 0))) = err (-110)"
  using handler_takes_polled_completion [OF w1c_bank, of "bank_state (\<lambda>r. if r = R_INT_STS then 1 else 0)"]
  by (simp add: bank_state_def int_cmd_defs)

section \<open>Transfers and the handler\<close>



end
