(* ===== verification/Card_Irq.thy ===== *)
theory Card_Irq
  imports Host_Irq_Laws
begin

text \<open>
  The card interrupt as a protocol between the handler, the worker thread and the transfers of
  \<open>backend.rs\<close> and \<open>flow.rs\<close>: the states reachable from the set-up of the controller by the
  operations that touch the interrupt enables or wake the worker, and an invariant of them.
\<close>

section \<open>The protocol\<close>

text \<open>
  What the protocol relies on: \<open>en\<close> reads back the status enables, a status bit is only
  visible while it is enabled, and the worker's wait ends without a timeout only after a
  notification of its queue (\<open>woken\<close>).
\<close>

definition gated :: "'z host_irq_scheme sd1 \<Rightarrow> ('z \<Rightarrow> u32) \<Rightarrow> ('z \<Rightarrow> bool) \<Rightarrow> bool" where
  "gated e en woken \<longleftrightarrow>
     (\<forall>off s. off \<noteq> R_BUF_DATA \<longrightarrow> snd (mmio_read (sd_regs e) off s) = s) \<and>
     (\<forall>s. fst (mmio_read (sd_regs e) R_INT_STS_EN s) = en (host_irq.more s)) \<and>
     (\<forall>s. fst (mmio_read (sd_regs e) R_INT_STS s) AND NOT (en (host_irq.more s)) = 0) \<and>
     (\<forall>off v s. host_irq.truncate (mmio_write (sd_regs e) off v s) = host_irq.truncate s \<and>
        en (host_irq.more (mmio_write (sd_regs e) off v s)) = (if off = R_INT_STS_EN then v else en (host_irq.more s)) \<and>
        woken (host_irq.more (mmio_write (sd_regs e) off v s)) = woken (host_irq.more s)) \<and>
     (\<forall>q b s. host_irq.truncate (notify_one (sd_wq e) q b s) = host_irq.truncate s \<and>
        en (host_irq.more (notify_one (sd_wq e) q b s)) = en (host_irq.more s) \<and>
        (woken (host_irq.more (notify_one (sd_wq e) q b s)) \<longleftrightarrow>
           woken (host_irq.more s) \<or> q = SDIO_IRQ_WORK_QUEUE)) \<and>
     (\<forall>n s. let (timed_out, s') = wait_timeout (sd_wq e) SDIO_IRQ_WORK_QUEUE n s in
        host_irq.truncate s' = host_irq.truncate s \<and> en (host_irq.more s') = en (host_irq.more s) \<and>
        (\<not> timed_out \<longrightarrow> woken (host_irq.more s)) \<and> (woken (host_irq.more s') \<longrightarrow> woken (host_irq.more s)))"

text \<open>
  The steps: set-up of the controller with nobody woken and nothing pending, the handler, a
  round of the worker, the check at the start of a transfer, the enables of a DMA transfer, and
  any other code, which neither writes the enables nor wakes the worker nor marks an interrupt.
\<close>

inductive card_reach ::
  "'z host_irq_scheme sd1 \<Rightarrow> (nat \<Rightarrow> u8 \<Rightarrow> 'z host_irq_scheme \<Rightarrow> 'z host_irq_scheme) \<Rightarrow> ('z \<Rightarrow> u32)
   \<Rightarrow> ('z \<Rightarrow> bool) \<Rightarrow> 'z host_irq_scheme \<Rightarrow> bool"
  for e write8 en woken where
  start: "enable_sd_interface_clock (sd_regs e) write8 s0 = (ok (), s) \<Longrightarrow> \<not> woken (host_irq.more s) \<Longrightarrow>
    \<not> SDIO_IRQ_PENDING s \<Longrightarrow> card_reach e write8 en woken s"
| irq: "card_reach e write8 en woken s \<Longrightarrow> sdio_irq_handler e s = (r, s') \<Longrightarrow> card_reach e write8 en woken s'"
| work: "card_reach e write8 en woken s \<Longrightarrow> sdio_irq_work_round e have_device s = (r, s') \<Longrightarrow>
    card_reach e write8 en woken s'"
| check: "card_reach e write8 en woken s \<Longrightarrow> process_sdio_pending_irqs_if_set e s = (c, s') \<Longrightarrow>
    card_reach e write8 en woken s'"
| transfer: "card_reach e write8 en woken s \<Longrightarrow> set_transfer_irqs_dma (sd_regs e) s = (r, s') \<Longrightarrow>
    card_reach e write8 en woken s'"
| other: "card_reach e write8 en woken s \<Longrightarrow> en (host_irq.more s') = en (host_irq.more s) \<Longrightarrow>
    woken (host_irq.more s') = woken (host_irq.more s) \<Longrightarrow> SDIO_IRQ_PENDING s' = SDIO_IRQ_PENDING s \<Longrightarrow>
    card_reach e write8 en woken s'"

section \<open>Its invariant\<close>

definition card_off :: "('z \<Rightarrow> u32) \<Rightarrow> ('z \<Rightarrow> bool) \<Rightarrow> 'z host_irq_scheme \<Rightarrow> bool" where
  "card_off en woken s \<longleftrightarrow>
     en (host_irq.more s) AND CARD_INT = 0 \<and> \<not> woken (host_irq.more s) \<and> \<not> SDIO_IRQ_PENDING s"

lemma off_no_card_status:
  assumes "gated e en woken" and "card_off en woken s"
  shows "fst (mmio_read (sd_regs e) R_INT_STS s) AND CARD_INT = 0"
proof -
  let ?v = "fst (mmio_read (sd_regs e) R_INT_STS s)" and ?n = "en (host_irq.more s)"
  have v: "?v AND NOT ?n = 0" and c: "?n AND CARD_INT = 0" using assms by (auto simp: gated_def card_off_def)
  have "?v = ?v AND ?n" using and_not_disjoint [OF v] by (simp only: bit.double_compl)
  then have "?v AND CARD_INT = ?v AND (?n AND CARD_INT)" by (simp only: and.assoc [symmetric])
  then show ?thesis by (simp add: c)
qed


lemma gatedD:
  assumes "gated e en woken"
  shows "off \<noteq> R_BUF_DATA \<Longrightarrow> read_reg (sd_regs e) off s = (ok (fst (mmio_read (sd_regs e) off s)), s)"
    "fst (mmio_read (sd_regs e) R_INT_STS_EN s) = en (host_irq.more s)"
    "en (host_irq.more (mmio_write (sd_regs e) off v s)) = (if off = R_INT_STS_EN then v else en (host_irq.more s))"
    "woken (host_irq.more (mmio_write (sd_regs e) off v s)) = woken (host_irq.more s)"
    "SDIO_IRQ_PENDING (mmio_write (sd_regs e) off v s) = SDIO_IRQ_PENDING s"
    "en (host_irq.more (notify_one (sd_wq e) q b s)) = en (host_irq.more s)"
    "woken (host_irq.more (notify_one (sd_wq e) q b s)) \<longleftrightarrow> woken (host_irq.more s) \<or> q = SDIO_IRQ_WORK_QUEUE"
    "SDIO_IRQ_PENDING (notify_one (sd_wq e) q b s) = SDIO_IRQ_PENDING s"
  using assms truncateD(8) [of "mmio_write (sd_regs e) off v s" s] truncateD(8) [of "notify_one (sd_wq e) q b s" s]
  unfolding gated_def read_reg_def by (simp_all add: case_prod_beta)

lemma keeps_off_round:
  assumes g: "gated e en woken" and c: "sts AND CARD_INT = 0"
  shows "preserves (card_off en woken) (irq_round e sts)"
proof -
  note d = io_simps gatedD [OF g] reg_neq reg_neq [symmetric] card_off_def preserves_def
  have "preserves (card_off en woken) (\<lambda>s. write_nonzero (sd_regs e) (f s) s)" for f
    by (simp add: write_nonzero_def d)
  moreover have "preserves (card_off en woken) (irq_cmd e sts)" by (simp add: irq_cmd_def d)
  moreover have "preserves (card_off en woken) (irq_data e sts)"
    by (simp add: irq_data_def data_done_def dma_boundary_def d Let_def split: option.splits)
  moreover have "preserves (card_off en woken) (irq_card e sts)" using c by (simp add: irq_card_def d)
  ultimately show ?thesis unfolding irq_round_def by (intro preserves_intros)
qed

lemma keeps_off_loop:
  assumes g: "gated e en woken"
  shows "preserves (card_off en woken) (irq_loop e k)"
proof (induction k)
  case (Suc k)
  have "card_off en woken (snd (irq_loop e (Suc k) s))" if "card_off en woken s" for s
    using preserves_bind [OF keeps_off_round [OF g off_no_card_status [OF g that]] Suc] that
    by (auto simp: io_bind_def [of "read_reg (sd_regs e) R_INT_STS"] gatedD [OF g] preserves_def)
  then show ?case by (simp add: preserves_def)
qed (simp add: preserves_def)

lemma keeps_off_check:
  assumes g: "gated e en woken" and "card_off en woken s"
  shows "process_sdio_pending_irqs_if_set e s = (ok False, s)"
  using off_no_card_status [OF assms] by (simp add: process_sdio_pending_irqs_if_set_def io_bind_def gatedD [OF g])

lemma keeps_off_work:
  assumes g: "gated e en woken" and o: "card_off en woken s" and r: "sdio_irq_work_round e d s = (r, s')"
  shows "card_off en woken s'"
proof -
  obtain t s1 where t: "wait_timeout (sd_wq e) SDIO_IRQ_WORK_QUEUE 10 s = (t, s1)" by fastforce
  have "let (t, s1) = wait_timeout (sd_wq e) SDIO_IRQ_WORK_QUEUE 10 s in
      host_irq.truncate s1 = host_irq.truncate s \<and> en (host_irq.more s1) = en (host_irq.more s) \<and>
      (\<not> t \<longrightarrow> woken (host_irq.more s)) \<and> (woken (host_irq.more s1) \<longrightarrow> woken (host_irq.more s))"
    using g by (simp add: gated_def)
  then have "host_irq.truncate s1 = host_irq.truncate s" "en (host_irq.more s1) = en (host_irq.more s)"
    "\<not> t \<longrightarrow> woken (host_irq.more s)" "woken (host_irq.more s1) \<longrightarrow> woken (host_irq.more s)"
    by (simp_all add: t)
  with o r t show ?thesis
    using truncateD(8) [of s1 s]
    by (auto simp: sdio_irq_work_round_def wait_sdio_irq_work_or_timeout_def card_off_def)
qed

lemma keeps_off_transfer:
  assumes g: "gated e en woken"
  shows "preserves (card_off en woken) (set_transfer_irqs_dma (sd_regs e))"
proof -
  have "((v AND NOT (INT_SPACE_AVAIL OR INT_DATA_AVAIL)) OR (INT_DMA_END OR INT_DATA_END OR INT_ADMA_ERROR)) AND CARD_INT
      = v AND CARD_INT" for v
    by (simp add: int_bit_defs bit.conj_disj_distrib2 and.assoc)
  then show ?thesis
    by (simp add: preserves_def set_transfer_irqs_dma_def io_simps gatedD [OF g] card_off_def Let_def reg_neq)
qed

lemma set_clock_preserves:
  assumes g: "gated e en woken"
  shows "preserves (\<lambda>s. en (host_irq.more s) AND CARD_INT = 0) (set_clock (sd_regs e) hz)"
proof -
  let ?P = "\<lambda>s. en (host_irq.more s) AND CARD_INT = 0"
  have rd: "preserves ?P (read_reg (sd_regs e) off)" if "off \<noteq> R_BUF_DATA" for off
    using that by (simp add: preserves_def gatedD [OF g])
  have wr: "preserves ?P (write_reg (sd_regs e) off v)" if "off \<noteq> R_INT_STS_EN" for off v
    using that by (simp add: preserves_def write_reg_def gatedD [OF g])
  have n: "R_HOST_CTRL1 \<noteq> R_BUF_DATA" "R_CLK_CTL_SWRST \<noteq> R_BUF_DATA"
    "R_HOST_CTRL1 \<noteq> R_INT_STS_EN" "R_CLK_CTL_SWRST \<noteq> R_INT_STS_EN"
    by (simp_all add: sdmmc_reg_defs R_BUF_DATA_def R_INT_STS_EN_def)
  note rules = preserves_intros rd wr n
  have hs: "preserves ?P (set_host_high_speed (sd_regs e) b)" for b
    unfolding set_host_high_speed_def Let_def by (intro rules)
  have "preserves ?P (clk_stable_loop (sd_regs e) b k)" for b k
    by (induction k) (simp only: clk_stable_loop.simps, intro rules hs, assumption?)+
  then show ?thesis unfolding set_clock_def by (intro rules hs)
qed

lemma start_card_off:
  assumes g: "gated e en woken" and s: "enable_sd_interface_clock (sd_regs e) write8 s0 = (ok (), s)"
  shows "en (host_irq.more s) AND CARD_INT = 0"
proof -
  from s obtain s1 where "set_clock (sd_regs e) 400000 (mmio_write (sd_regs e) R_INT_SIG_EN DEFAULT_IER
      (mmio_write (sd_regs e) R_INT_STS_EN DEFAULT_IER s1)) = (ok (), s)"
    unfolding enable_sd_interface_clock_def Let_def write_reg_def
    by (elim io_bind_InrE) (auto simp: Let_def)
  moreover have "en (host_irq.more (mmio_write (sd_regs e) R_INT_SIG_EN DEFAULT_IER
      (mmio_write (sd_regs e) R_INT_STS_EN DEFAULT_IER s1))) AND CARD_INT = 0"
    by (simp add: gatedD [OF g] reg_neq DEFAULT_IER_def CARD_INT_def)
  ultimately show ?thesis
    using set_clock_preserves [OF g, of 400000] unfolding preserves_def by (metis snd_conv)
qed

text \<open>
  (C13) The card interrupt is never enabled: from the set-up of the controller on, through any
  interleaving of the handler, the worker thread, transfers and other code, the card interrupt stays
  masked and unmarked, so that the worker never runs and no transfer is deferred with \<open>-11\<close>. (Only
  the worker enables it, and only a pending card interrupt wakes the worker.)
\<close>

theorem card_interrupt_never_enabled:
  assumes g: "gated e en woken" and r: "card_reach e write8 en woken s"
  shows "en (host_irq.more s) AND CARD_INT = 0 \<and> \<not> SDIO_IRQ_PENDING s \<and>
    process_sdio_pending_irqs_if_set e s = (ok False, s)"
proof -
  from r have "card_off en woken s"
  proof (induction rule: card_reach.induct)
    case (start s0 s)
    then show ?case using start_card_off [OF g] by (simp add: card_off_def)
  next
    case (irq s r s')
    have "preserves (card_off en woken) (sdio_irq_handler e)"
      unfolding sdio_irq_handler_def handle_sdhci_host_irq_def
      by (intro preserves_intros keeps_off_loop [OF g]) (simp add: preserves_def card_off_def gatedD [OF g])
    with irq show ?case unfolding preserves_def by (metis snd_conv)
  next
    case (work s d r s')
    then show ?case using keeps_off_work [OF g] by blast
  next
    case (check s c s')
    then show ?case using keeps_off_check [OF g] by (metis snd_conv)
  next
    case (transfer s r s')
    then show ?case using keeps_off_transfer [OF g] unfolding preserves_def by (metis snd_conv)
  qed (simp add: card_off_def)
  then show ?thesis using keeps_off_check [OF g] by (simp add: card_off_def)
qed


text \<open>
  A controller of this kind: the interrupt status is masked by its enables, the reset bits read
  as finished and the clock as stable; the second component is the worker's wake-up.
\<close>

definition gated_bank :: "((nat \<Rightarrow> u32) \<times> bool) host_irq_scheme sd1" where
  "gated_bank =
     \<lparr>sd_regs = \<lparr>mmio_read = (\<lambda>off s. (let r = fst (host_irq.more s) in
          if off = R_CLK_CTL_SWRST then 2
          else if off = R_INT_STS then r R_INT_STS AND r R_INT_STS_EN else r off, s)),
        mmio_write = (\<lambda>off v. host_irq.more_update (\<lambda>(r, k). (r(off := v), k))),
        mmio_sleep_ms = (\<lambda>n s. s)\<rparr>,
      sd_wq = \<lparr>notify_one = (\<lambda>q b. host_irq.more_update (\<lambda>(r, k). (r, k \<or> q = SDIO_IRQ_WORK_QUEUE))),
        wait_timeout = (\<lambda>q n s. (\<not> snd (host_irq.more s), host_irq.more_update (\<lambda>(r, k). (r, False)) s))\<rparr>\<rparr>"

lemma gated_gated_bank: "gated gated_bank (\<lambda>z. fst z R_INT_STS_EN) snd"
  by (simp add: gated_def gated_bank_def host_irq.truncate_def case_prod_beta Let_def and.assoc sdmmc_reg_defs
      R_INT_STS_EN_def)

lemma bank_clk_stable: "0 < k \<Longrightarrow> \<exists>s'. clk_stable_loop (sd_regs gated_bank) b k s = (ok (), s') \<and>
    SDIO_IRQ_PENDING s' = SDIO_IRQ_PENDING s \<and> snd (host_irq.more s') = snd (host_irq.more s)"
  by (cases k) (simp_all add: io_bind_def read_reg_def write_reg_def gated_bank_def set_host_high_speed_def Let_def
      case_prod_beta)

lemma bank_reset_poll: "0 < k \<Longrightarrow> \<exists>s'. reset_all_poll (sd_regs gated_bank) k s = (ok (), s') \<and>
    SDIO_IRQ_PENDING s' = SDIO_IRQ_PENDING s \<and> snd (host_irq.more s') = snd (host_irq.more s)"
  by (cases k) (simp_all add: io_bind_def read_reg_def write_reg_def gated_bank_def Let_def case_prod_beta)

lemma bank_start:
  fixes s0 :: "((nat \<Rightarrow> u32) \<times> bool) host_irq_scheme"
  assumes "\<not> snd (host_irq.more s0)" "\<not> SDIO_IRQ_PENDING s0"
  shows "\<exists>s. card_reach gated_bank (\<lambda>_ _ s. s) (\<lambda>z. fst z R_INT_STS_EN) snd s"
proof -
  note d = io_bind_def read_reg_def write_reg_def case_prod_beta Let_def
  let ?m = "sd_regs gated_bank"
  have w: "SDIO_IRQ_PENDING (mmio_write ?m off v s) = SDIO_IRQ_PENDING s"
    "snd (host_irq.more (mmio_write ?m off v s)) = snd (host_irq.more s)" "snd (mmio_read ?m off s) = s" for off v s
    by (simp_all add: gated_bank_def case_prod_beta)
  obtain s1 where 1: "reset_all ?m s0 = (ok (), s1)" "\<not> SDIO_IRQ_PENDING s1" "\<not> snd (host_irq.more s1)"
  proof -
    obtain g where "\<And>s. reset_all_poll ?m 100000 s = (ok (), g s)" "\<And>s. SDIO_IRQ_PENDING (g s) = SDIO_IRQ_PENDING s"
      "\<And>s. snd (host_irq.more (g s)) = snd (host_irq.more s)" using bank_reset_poll [of 100000] by simp metis
    then show thesis using that assms by (simp add: reset_all_def d w)
  qed
  obtain h where "\<And>b s. clk_stable_loop ?m b CMD_POLL_TIMEOUT_US s = (ok (), h b s)"
    "\<And>b s. SDIO_IRQ_PENDING (h b s) = SDIO_IRQ_PENDING s"
    "\<And>b s. snd (host_irq.more (h b s)) = snd (host_irq.more s)"
    using bank_clk_stable [of CMD_POLL_TIMEOUT_US] by (simp add: CMD_POLL_TIMEOUT_US_def) metis
  moreover have "clock_divisor 400000 = ok 255" by (simp add: clock_divisor_def INT_CARD_CLK_HZ_def min_def max_def)
  ultimately have "\<exists>s'. set_clock ?m 400000 s = (ok (), s') \<and> SDIO_IRQ_PENDING s' = SDIO_IRQ_PENDING s \<and>
      snd (host_irq.more s') = snd (host_irq.more s)" for s
    by (simp add: set_clock_def d w)
  then obtain f where f: "\<And>s. set_clock ?m 400000 s = (ok (), f s)" "\<And>s. SDIO_IRQ_PENDING (f s) = SDIO_IRQ_PENDING s"
      "\<And>s. snd (host_irq.more (f s)) = snd (host_irq.more s)" by metis
  have "\<exists>s. enable_sd_interface_clock ?m (\<lambda>_ _ s. s) s0 = (ok (), s) \<and> \<not> SDIO_IRQ_PENDING s \<and> \<not> snd (host_irq.more s)"
    by (simp add: enable_sd_interface_clock_def d 1 f w)
  then show ?thesis using card_reach.start by blast
qed

theorem card_interrupt_never_enabled_witness:
  "\<exists>s. card_reach gated_bank (\<lambda>_ _ s. s) (\<lambda>z. fst z R_INT_STS_EN) snd s \<and>
     fst (host_irq.more s) R_INT_STS AND CARD_INT \<noteq> 0 \<and>
     process_sdio_pending_irqs_if_set gated_bank s = (ok False, s)"
proof -
  let ?s0 = "\<lparr>USE_SOFT_IRQ_WAKE = False, SDIO_IRQ_REGISTER_ONCE = True, SDIO_IRQ_PENDING = False,
     HOST_TRANSFER_CMD_PENDING = False, HOST_TRANSFER_DMA_PENDING = False, HOST_DMA_BASE_PHYS = 0,
     HOST_DMA_TOTAL = 0, HOST_DMA_BYTES_XFERRED = 0, HOST_CMD_RESULT = 0, HOST_DMA_RESULT = 0,
     DMA_POOL = None, \<dots> = (\<lambda>_. 0 :: u32, False)\<rparr>"
  from bank_start [of ?s0] obtain s where r: "card_reach gated_bank (\<lambda>_ _ s. s) (\<lambda>z. fst z R_INT_STS_EN) snd s" by auto
  let ?s = "host_irq.more_update (\<lambda>(r, k). (r(R_INT_STS := CARD_INT), k)) s"
  have "card_reach gated_bank (\<lambda>_ _ s. s) (\<lambda>z. fst z R_INT_STS_EN) snd ?s"
    by (rule card_reach.other [OF r]) (simp_all add: case_prod_beta reg_neq)
  moreover from card_interrupt_never_enabled [OF gated_gated_bank this]
  have "process_sdio_pending_irqs_if_set gated_bank ?s = (ok False, ?s)" by simp
  moreover have "fst (host_irq.more ?s) R_INT_STS AND CARD_INT \<noteq> 0" by (simp add: case_prod_beta CARD_INT_def)
  ultimately show ?thesis by blast
qed

end
