(* ===== verification/Io_Rules.thy ===== *)
theory Io_Rules
  imports Prelude
begin

text \<open>
  Rules to reason about computations of the \<open>io\<close> monad: triples with a postcondition for success and
  one for failure, computations that do not fail, and computations whose result does not depend on the
  state. The second component of a pair of states carries the hardware, the first the caller's buffer.
\<close>

section \<open>Triples\<close>

text \<open>
  From a state with \<open>P\<close>, the computation succeeds with \<open>Q\<close> or fails with \<open>E\<close>.
\<close>

definition io_triple :: "('s \<Rightarrow> bool) \<Rightarrow> ('s, 'a) io \<Rightarrow> ('a \<Rightarrow> 's \<Rightarrow> bool) \<Rightarrow> ('s \<Rightarrow> bool) \<Rightarrow> bool" where
  "io_triple P f Q E \<longleftrightarrow> (\<forall>s. P s \<longrightarrow> (case f s of (Inr x, s') \<Rightarrow> Q x s' | (Inl _, s') \<Rightarrow> E s'))"

lemma tripleI:
  "(\<And>s r s'. P s \<Longrightarrow> f s = (r, s') \<Longrightarrow> (case r of Inr x \<Rightarrow> Q x s' | Inl _ \<Rightarrow> E s')) \<Longrightarrow> io_triple P f Q E"
  unfolding io_triple_def by (simp split: prod.split)

lemma triple_bind:
  "io_triple P f Q E \<Longrightarrow> (\<And>x. io_triple (Q x) (g x) R E) \<Longrightarrow> io_triple P (io_bind f g) R E"
  unfolding io_triple_def io_bind_def by (fastforce split: prod.splits sum.splits)

lemma triple_preserves:
  "preserves P f \<Longrightarrow> (\<And>s. P s \<Longrightarrow> E s) \<Longrightarrow> io_triple P f (\<lambda>_. P) E"
  by (fastforce simp: io_triple_def preserves_def split: prod.splits sum.splits)

lemma triple_fail: "(\<And>s. P s \<Longrightarrow> E s) \<Longrightarrow> io_triple P (io_fail e) Q E"
  by (simp add: io_triple_def)

lemma triple_if:
  "(c \<Longrightarrow> io_triple P f Q E) \<Longrightarrow> (\<not> c \<Longrightarrow> io_triple P g Q E) \<Longrightarrow> io_triple P (if c then f else g) Q E"
  by simp

lemma triple_option:
  "io_triple P f Q E \<Longrightarrow> (\<And>y. io_triple P (g y) Q E) \<Longrightarrow>
   io_triple P (case x of None \<Rightarrow> f | Some y \<Rightarrow> g y) Q E"
  by (simp split: option.split)

lemma triple_step:
  "preserves P f \<Longrightarrow> (\<And>s. P s \<Longrightarrow> E s) \<Longrightarrow> (\<And>x. io_triple P (g x) R E) \<Longrightarrow> io_triple P (io_bind f g) R E"
  by (rule triple_bind [OF triple_preserves])

lemma tripleD: "io_triple P f Q E \<Longrightarrow> P s \<Longrightarrow> f s = (r, s') \<Longrightarrow> (case r of Inr x \<Rightarrow> Q x s' | Inl _ \<Rightarrow> E s')"
  by (fastforce simp: io_triple_def)

lemma triple_ex: "(\<And>x. io_triple (P x) f Q E) \<Longrightarrow> io_triple (\<lambda>s. \<exists>x. P x s) f Q E"
  by (rule tripleI) (blast dest: tripleD)

lemma triple_conj: "(c \<Longrightarrow> io_triple P f Q E) \<Longrightarrow> io_triple (\<lambda>s. P s \<and> c) f Q E"
  by (auto simp: io_triple_def)

section \<open>The caller's buffer beside the state\<close>

definition with_buf :: "'b \<Rightarrow> ('s \<Rightarrow> bool) \<Rightarrow> 'b \<times> 's \<Rightarrow> bool" where
  "with_buf buf P bs \<longleftrightarrow> fst bs = buf \<and> P (snd bs)"

lemma preserves_on_snd [preserves_intros]: "preserves P f \<Longrightarrow> preserves (with_buf buf P) (on_snd f)"
  by (auto simp: preserves_def with_buf_def on_snd_def split: prod.splits)

lemma on_snd_bind: "on_snd (io_bind f g) = io_bind (on_snd f) (\<lambda>x. on_snd (g x))"
  by (rule ext) (auto simp: on_snd_def io_bind_def split: prod.splits sum.splits)

lemma on_snd_fail: "on_snd (io_fail e) = io_fail e"
  by (rule ext) (auto simp: on_snd_def)

lemma triple_on_snd:
  "io_triple P f Q E \<Longrightarrow> (\<And>s. E s \<Longrightarrow> E' (buf, s)) \<Longrightarrow>
   io_triple (with_buf buf P) (on_snd f) (\<lambda>x. with_buf buf (Q x)) E'"
  by (fastforce simp: io_triple_def with_buf_def on_snd_def split: prod.splits sum.splits)

lemma with_buf_conj: "with_buf buf (\<lambda>s. P s \<and> c) = (\<lambda>bs. with_buf buf P bs \<and> c)"
  by (auto simp: with_buf_def)

section \<open>Computations that do not fail\<close>

definition never_fails :: "('s, 'a) io \<Rightarrow> bool" where
  "never_fails f \<longleftrightarrow> (\<forall>s. \<exists>x s'. f s = (ok x, s'))"

named_theorems sure_intros "composition of computations that do not fail"

lemma sure_return [sure_intros]: "never_fails (io_return x)"
  by (simp add: never_fails_def)

lemma sure_do [sure_intros]: "never_fails (io_do f)"
  by (simp add: never_fails_def)

lemma sure_bind [sure_intros]: "never_fails f \<Longrightarrow> (\<And>x. never_fails (g x)) \<Longrightarrow> never_fails (io_bind f g)"
  unfolding never_fails_def io_bind_def by (metis (mono_tags, lifting) case_prod_conv sum.case(2))

lemma sure_for [sure_intros]: "(\<And>x. never_fails (f x)) \<Longrightarrow> never_fails (io_for f xs)"
  by (induction xs) (auto intro: sure_intros)

lemma sure_on_snd [sure_intros]: "never_fails f \<Longrightarrow> never_fails (on_snd f)"
  by (simp add: never_fails_def on_snd_def split: prod.split) (metis prod.inject)

lemma triple_sure1:
  assumes "preserves P f" and "never_fails f"
  shows "io_triple P f (\<lambda>_. P) E"
proof (rule tripleI)
  fix s r s' assume "P s" "f s = (r, s')"
  moreover from this(2) assms(2) obtain x where "r = ok x" unfolding never_fails_def by (metis prod.inject)
  ultimately show "case r of Inr x \<Rightarrow> P s' | Inl _ \<Rightarrow> E s'" using preservesD [OF assms(1)] by simp
qed

lemma triple_sure:
  "preserves P f \<Longrightarrow> never_fails f \<Longrightarrow> (\<And>x. io_triple P (g x) R E) \<Longrightarrow> io_triple P (io_bind f g) R E"
  by (rule triple_bind [OF triple_sure1])

lemma triple_do: "(\<And>s. P s \<Longrightarrow> Q () (f s)) \<Longrightarrow> io_triple P (io_do f) Q E"
  by (simp add: io_triple_def)

lemma triple_weaken:
  "io_triple P f Q E \<Longrightarrow> (\<And>s. P' s \<Longrightarrow> P s) \<Longrightarrow> (\<And>x s. Q x s \<Longrightarrow> Q' x s) \<Longrightarrow> (\<And>s. E s \<Longrightarrow> E' s) \<Longrightarrow> io_triple P' f Q' E'"
  by (fastforce simp: io_triple_def split: prod.splits sum.splits)

section \<open>Computations with a known result\<close>

text \<open>Computations that return \<open>x\<close> from any state with \<open>P\<close>, and keep \<open>P\<close>.\<close>

definition returns :: "('s \<Rightarrow> bool) \<Rightarrow> ('s, 'a) io \<Rightarrow> 'a \<Rightarrow> bool" where
  "returns P f x \<longleftrightarrow> (\<forall>s. P s \<longrightarrow> (\<exists>s'. f s = (ok x, s') \<and> P s'))"

lemma returns_bind: "returns P f x \<Longrightarrow> returns P (g x) y \<Longrightarrow> returns P (io_bind f g) y"
  unfolding returns_def io_bind_def by fastforce

lemma returns_same: "(\<And>s. f s = (ok x, s)) \<Longrightarrow> returns P f x"
  by (simp add: returns_def)

lemma returns_lift: "returns P (io_lift (ok x)) x"
  by (simp add: returns_def)

lemma triple_returns:
  assumes "returns P f x" and "io_triple P (g x) Q E"
  shows "io_triple P (io_bind f g) Q E"
proof (rule triple_bind [of _ _ "\<lambda>y s. P s \<and> y = x"])
  show "io_triple P f (\<lambda>y s. P s \<and> y = x) E" using assms(1) by (fastforce simp: returns_def io_triple_def)
  show "io_triple (\<lambda>s. P s \<and> y = x) (g y) Q E" for y using assms(2) by (cases "y = x") (simp_all add: io_triple_def)
qed

lemma returns_snd:
  assumes "\<And>s. \<exists>s'. f s = (ok x, s')"
  shows "returns (\<lambda>bs. k \<le> length (fst bs)) (on_snd f) x"
proof -
  obtain g where "f s = (ok x, g s)" for s using assms by metis
  then show ?thesis by (auto simp: returns_def on_snd_def)
qed

end
