(* ===== verification/Cmd53.thy ===== *)
theory Cmd53
  imports Host_Irq
begin

text \<open>
  CMD53 on the SD1 host controller (\<open>driver/bsp/src/sdio/backend.rs\<close>): byte mode over the data
  port (\<open>cmd53_read_chunk\<close>, \<open>cmd53_write_chunk\<close>), block mode by DMA and interrupts
  (\<open>cmd53_read_blocks\<close>, \<open>cmd53_write_blocks\<close>), the waits they use, and the block accesses of
  \<open>Aic8800SdioHost\<close> built from them. Memory of the DMA buffer, cache instructions and the 8 and
  16 bit register writes are parameters (\<open>dma_env\<close>). Registers read for a log line are read here
  too; the busy delay of one millisecond has no effect on the state. The \<open>debug_assert\<close> of byte mode
  is checked, as in a build that has the overflow checks.
\<close>

section \<open>Registers and modes\<close>

definition R_BLK_SIZE_AND_CNT :: nat where "R_BLK_SIZE_AND_CNT = 0x004"
definition R_TRANSFER_MODE :: nat where "R_TRANSFER_MODE = 0x00c"
definition R_COMMAND :: nat where "R_COMMAND = 0x00e"

definition CMD53_READ_XFER_MODE :: u32 where
  "CMD53_READ_XFER_MODE = push_bit 1 1 OR push_bit 4 1 OR push_bit 16 2 OR push_bit 19 1 OR push_bit 20 1
     OR push_bit 21 1 OR push_bit 24 53"

definition CMD53_WRITE_XFER_MODE :: u32 where
  "CMD53_WRITE_XFER_MODE = push_bit 1 1 OR push_bit 16 2 OR push_bit 19 1 OR push_bit 20 1
     OR push_bit 21 1 OR push_bit 24 53"

definition CMD53_WRITE_MULTI_XFER_MODE :: u32 where
  "CMD53_WRITE_MULTI_XFER_MODE = push_bit 0 1 OR push_bit 1 1 OR push_bit 5 1 OR push_bit 16 2 OR push_bit 19 1
     OR push_bit 20 1 OR push_bit 21 1 OR push_bit 24 53"

definition CMD53_READ_MULTI_XFER_MODE :: u32 where
  "CMD53_READ_MULTI_XFER_MODE = push_bit 0 1 OR push_bit 1 1 OR push_bit 4 1 OR push_bit 5 1 OR push_bit 16 2
     OR push_bit 19 1 OR push_bit 20 1 OR push_bit 21 1 OR push_bit 24 53"

definition SDHCI_BLOCK_SIZE_WORD :: u32 where
  "SDHCI_BLOCK_SIZE_WORD = push_bit 12 (7 AND 7) OR (512 AND 0xFFF)"

definition CMD53_MAX_BYTES :: nat where "CMD53_MAX_BYTES = 512"

record 's dma_env =
  de_write8 :: "nat \<Rightarrow> u8 \<Rightarrow> 's \<Rightarrow> 's"
  de_write16 :: "nat \<Rightarrow> u16 \<Rightarrow> 's \<Rightarrow> 's"
  de_base :: nat
  de_store :: "nat \<Rightarrow> byte list \<Rightarrow> 's \<Rightarrow> 's"
  de_load :: "nat \<Rightarrow> nat \<Rightarrow> 's \<Rightarrow> byte list"
  de_clean :: "u64 \<Rightarrow> 's \<Rightarrow> 's"
  de_invalidate :: "u64 \<Rightarrow> 's \<Rightarrow> 's"

definition write_reg_8 :: "'s dma_env \<Rightarrow> nat \<Rightarrow> u8 \<Rightarrow> ('s, unit) io" where
  "write_reg_8 d off v = io_do (de_write8 d off v)"

definition write_reg_16 :: "'s dma_env \<Rightarrow> nat \<Rightarrow> u16 \<Rightarrow> ('s, unit) io" where
  "write_reg_16 d off v = io_do (de_write16 d off v)"

definition read_present_sts :: "'s mmio \<Rightarrow> ('s, u32) io" where
  "read_present_sts m = read_reg m R_PRESENT_STS"

definition set_ios_raw :: "'s mmio \<Rightarrow> bool \<Rightarrow> u8 option \<Rightarrow> ('s, unit) io" where
  "set_ios_raw m four_bit freq_sel =
     io_bind (set_bus_width m four_bit) (\<lambda>_.
       case freq_sel of
         None \<Rightarrow> io_return ()
       | Some v \<Rightarrow> io_bind (read_reg m R_CLK_CTL_SWRST) (\<lambda>ctl.
           write_reg m R_CLK_CTL_SWRST ((ctl AND NOT 0xFF00) OR push_bit 8 (ucast v))))"

definition new_sd1 :: "'s mmio \<Rightarrow> 's dma_env \<Rightarrow> ('s, unit) io" where
  "new_sd1 phys d =
     io_bind (sd1_host_init phys) (\<lambda>_. enable_sd_interface_clock (sd1_mmio phys) (de_write8 d))"

section \<open>Results and errors\<close>

text \<open>\<open>if let Err(e) = f { cleanup; return Err(e) }\<close>, and the \<open>Result\<close> of \<open>f\<close> as a value.\<close>

definition io_on_err :: "('s, 'a) io \<Rightarrow> ('s, unit) io \<Rightarrow> ('s, 'a) io" where
  "io_on_err f cleanup = (\<lambda>s. case f s of
       (Inl (Errno e), s1) \<Rightarrow> io_bind cleanup (\<lambda>_. io_fail (Errno e)) s1
     | r \<Rightarrow> r)"

definition io_try :: "('s, 'a) io \<Rightarrow> ('s, 'a result) io" where
  "io_try f = (\<lambda>s. case f s of
       (Inl (Errno e), s1) \<Rightarrow> (ok (err e), s1)
     | (Inl x, s1) \<Rightarrow> (Inl x, s1)
     | (Inr x, s1) \<Rightarrow> (ok (ok x), s1))"

definition log_regs :: "'s mmio \<Rightarrow> nat list \<Rightarrow> ('s, unit) io" where
  "log_regs m = io_for (\<lambda>off. io_bind (read_reg m off) (\<lambda>_. io_return ()))"

definition cmd53_cleanup :: "'s mmio \<Rightarrow> ('s, unit) io" where
  "cmd53_cleanup m = io_bind (clear_int_status m) (\<lambda>_. reset_dat_line m)"

definition r5_check :: "'s mmio \<Rightarrow> ('s, unit) io" where
  "r5_check m =
     io_bind (read_reg m R_RESP31_0) (\<lambda>resp. if r5_failed resp then io_fail (Errno (-5)) else io_return ())"

section \<open>Waiting for the data phase\<close>

fun buf_rd_loop :: "'s mmio \<Rightarrow> nat \<Rightarrow> ('s, unit) io" where
  "buf_rd_loop m 0 =
     io_bind (read_reg m R_INT_STS) (\<lambda>_. io_bind (read_reg m R_PRESENT_STS) (\<lambda>_. io_fail (Errno (-110))))"
| "buf_rd_loop m (Suc k) =
     io_bind (read_reg m R_INT_STS) (\<lambda>ist.
       if ist AND push_bit 5 1 \<noteq> 0 then io_return ()
       else io_bind (read_reg m R_PRESENT_STS) (\<lambda>present.
         if present AND push_bit 11 1 \<noteq> 0 then io_return ()
         else io_bind (io_do (mmio_sleep_ms m 1)) (\<lambda>_. buf_rd_loop m k)))"

definition wait_buf_rd_ready :: "'s mmio \<Rightarrow> ('s, unit) io" where
  "wait_buf_rd_ready m = buf_rd_loop m 100"

fun buf_wr_loop :: "'s mmio \<Rightarrow> nat \<Rightarrow> ('s, unit) io" where
  "buf_wr_loop m 0 =
     io_bind (read_reg m R_INT_STS) (\<lambda>_. io_bind (read_reg m R_PRESENT_STS) (\<lambda>_. io_fail (Errno (-110))))"
| "buf_wr_loop m (Suc k) =
     io_bind (read_reg m R_INT_STS) (\<lambda>ist.
       if ist AND push_bit 4 1 \<noteq> 0 then io_return ()
       else io_bind (read_reg m R_PRESENT_STS) (\<lambda>present.
         if present AND push_bit 10 1 \<noteq> 0 then io_return ()
         else io_bind (io_do (mmio_sleep_ms m 1)) (\<lambda>_. buf_wr_loop m k)))"

definition wait_buf_wr_ready :: "'s mmio \<Rightarrow> ('s, unit) io" where
  "wait_buf_wr_ready m = buf_wr_loop m 100"

text \<open>The status of a polled data phase: \<open>None\<close> while none of its bits is set.\<close>

definition data_poll_error :: "u32 \<Rightarrow> int option" where
  "data_poll_error intmask =
     (if intmask AND INT_DATA_TIMEOUT \<noteq> 0 then Some (-110)
      else if intmask AND INT_DATA_END_BIT \<noteq> 0 then Some (-84)
      else if intmask AND INT_DATA_CRC \<noteq> 0 then Some (-84)
      else if intmask AND INT_ADMA_ERROR \<noteq> 0 then Some (-5)
      else if intmask AND INT_TIMEOUT \<noteq> 0 then Some (-110)
      else None)"

fun xfer_loop :: "'s mmio \<Rightarrow> nat \<Rightarrow> ('s, unit) io" where
  "xfer_loop m 0 = io_bind (read_reg m R_INT_STS) (\<lambda>_. io_fail (Errno (-110)))"
| "xfer_loop m (Suc k) =
     io_bind (read_reg m R_INT_STS) (\<lambda>intmask.
       if intmask AND INT_DATA_END \<noteq> 0 \<and> intmask AND INT_DATA_TIMEOUT \<noteq> 0
       then write_reg m R_INT_STS intmask
       else case data_poll_error intmask of
         Some e \<Rightarrow> io_bind (write_reg m R_INT_STS intmask) (\<lambda>_. io_fail (Errno e))
       | None \<Rightarrow>
           if intmask AND INT_DATA_END \<noteq> 0 then write_reg m R_INT_STS intmask
           else io_bind (io_do (mmio_sleep_ms m 1)) (\<lambda>_. xfer_loop m k))"

definition wait_xfer_complete :: "'s mmio \<Rightarrow> ('s, unit) io" where
  "wait_xfer_complete m = xfer_loop m 100"

fun dma_poll_loop :: "'s mmio \<Rightarrow> nat \<Rightarrow> ('s, unit) io" where
  "dma_poll_loop m 0 = io_bind (read_reg m R_INT_STS) (\<lambda>_. io_fail (Errno (-110)))"
| "dma_poll_loop m (Suc k) =
     io_bind (read_reg m R_INT_STS) (\<lambda>intmask.
       case data_poll_error intmask of
         Some e \<Rightarrow> io_bind (write_reg m R_INT_STS intmask) (\<lambda>_. io_fail (Errno e))
       | None \<Rightarrow>
           if intmask AND INT_DMA_END \<noteq> 0 then write_reg m R_INT_STS intmask
           else io_bind (io_do (mmio_sleep_ms m 1)) (\<lambda>_. dma_poll_loop m k))"

definition wait_dma_complete :: "'s mmio \<Rightarrow> ('s, unit) io" where
  "wait_dma_complete m = dma_poll_loop m 100"

section \<open>Byte mode\<close>

definition addr_func :: "u32 \<Rightarrow> u32" where "addr_func addr = drop_bit 8 addr AND 7"
definition addr_reg :: "u32 \<Rightarrow> u32" where "addr_reg addr = addr AND 0xFF"

definition INT_XFER_ERR_MASK :: u32 where
  "INT_XFER_ERR_MASK = push_bit 20 1 OR push_bit 21 1 OR push_bit 22 1"

definition start_chunk :: "'s mmio \<Rightarrow> bool \<Rightarrow> u32 \<Rightarrow> nat \<Rightarrow> ('s, unit) io" where
  "start_chunk m wr addr count =
     (let arg = mmc_io_rw_extended_arg_byte wr (addr_func addr) (addr_reg addr) False (word_of_nat count) in
      io_bind (write_reg m R_BLK_SIZE_AND_CNT (push_bit 16 1 OR word_of_nat count)) (\<lambda>_.
      io_bind (write_reg m R_ARGUMENT arg) (\<lambda>_.
        write_reg m R_XFER_MODE_AND_CMD (if wr then CMD53_WRITE_XFER_MODE else CMD53_READ_XFER_MODE))))"

text \<open>An error seen before the data port is used.\<close>

definition chunk_error :: "u32 \<Rightarrow> int option" where
  "chunk_error sts =
     (if sts AND (INT_XFER_ERR_MASK OR push_bit 16 1) \<noteq> 0
      then Some (if sts AND push_bit 20 1 \<noteq> 0 then -110 else if sts AND push_bit 16 1 \<noteq> 0 then -110 else -5)
      else None)"

text \<open>The wait for the data phase, the R5 check and the wait for an idle controller, at the end of a chunk.\<close>

definition finish_chunk :: "'s mmio \<Rightarrow> ('s, unit) io" where
  "finish_chunk m =
     io_bind (io_on_err (wait_xfer_complete m) (cmd53_cleanup m)) (\<lambda>_.
     io_bind (io_on_err (r5_check m) (cmd53_cleanup m)) (\<lambda>_.
     io_bind (clear_int_status m) (\<lambda>_. wait_not_inhibit m)))"

definition ack_buf_ready :: "'s mmio \<Rightarrow> u32 \<Rightarrow> ('s, unit) io" where
  "ack_buf_ready m ready =
     io_bind (read_reg m R_INT_STS) (\<lambda>ist.
       if ist AND ready \<noteq> 0 then write_reg m R_INT_STS ready else io_return ())"

text \<open>\<open>word |= (buf[j] as u32) << ((j - start) * 8)\<close> for the bytes of a word.\<close>

fun pack_word :: "nat \<Rightarrow> byte list \<Rightarrow> u32" where
  "pack_word k [] = 0"
| "pack_word k (b # bs) = push_bit (8 * k) (ucast b) OR pack_word (Suc k) bs"

definition write_word :: "'s mmio \<Rightarrow> byte list \<Rightarrow> nat \<Rightarrow> nat \<Rightarrow> ('s, unit) io" where
  "write_word m buf count i =
     io_bind (io_on_err (wait_buf_wr_ready m) (cmd53_cleanup m)) (\<lambda>_.
     io_bind (ack_buf_ready m (push_bit 4 1)) (\<lambda>_.
     io_bind (io_lift (slice_get (i * 4) (min (i * 4 + 4) count) buf)) (\<lambda>bs.
       write_reg m R_BUF_DATA (pack_word 0 bs))))"

definition cmd53_write_chunk ::
  "'z host_irq_scheme sd1 \<Rightarrow> u32 \<Rightarrow> byte list \<Rightarrow> nat \<Rightarrow> ('z host_irq_scheme, unit) io" where
  "cmd53_write_chunk e addr buf count =
     (let m = sd_regs e in
      if \<not> (1 \<le> count \<and> count \<le> CMD53_MAX_BYTES \<and> count \<le> length buf) then io_fail (Panic AssertFailed)
      else
        io_bind (wait_not_inhibit m) (\<lambda>_.
        io_bind (process_sdio_pending_irqs_if_set e) (\<lambda>queued.
          if queued then io_fail (Errno (-11))
          else
            io_bind (start_chunk m True addr count) (\<lambda>_.
            io_bind (io_on_err (wait_cmd_complete m) (cmd53_cleanup m)) (\<lambda>_.
            io_bind (read_reg m R_INT_STS) (\<lambda>sts.
            io_bind (read_reg m R_PRESENT_STS) (\<lambda>_.
            io_bind (let c = sts AND (INT_XFER_ERR_MASK OR push_bit 16 1 OR push_bit 1 1)
                     in if c \<noteq> 0 then write_reg m R_INT_STS c else io_return ()) (\<lambda>_.
            io_bind (read_reg m R_INT_STS) (\<lambda>sts2.
              case chunk_error sts2 of
                Some c \<Rightarrow> io_bind (cmd53_cleanup m) (\<lambda>_. io_fail (Errno c))
              | None \<Rightarrow> io_bind (io_for (write_word m buf count) [0 ..< (count + 3) div 4]) (\<lambda>_.
                  finish_chunk m))))))))))"

text \<open>Reading fills the caller's buffer word by word; it is the first component of the state.\<close>

definition read_word :: "'s mmio \<Rightarrow> nat \<Rightarrow> nat \<Rightarrow> (byte list \<times> 's, unit) io" where
  "read_word m count i =
     io_bind (on_snd (io_on_err (wait_buf_rd_ready m) (cmd53_cleanup m))) (\<lambda>_.
     io_bind (on_snd (ack_buf_ready m (push_bit 5 1))) (\<lambda>_.
     io_bind (on_snd (read_reg m R_BUF_DATA)) (\<lambda>word (buf, s).
       let start = i * 4; stop = min (start + 4) count in
       case slice_set start stop (take (stop - start) (le32 word)) buf of
         Inl x \<Rightarrow> (Inl x, (buf, s))
       | Inr buf' \<Rightarrow> (ok (), (buf', s)))))"

definition read_chunk_body ::
  "'z host_irq_scheme sd1 \<Rightarrow> u32 \<Rightarrow> nat \<Rightarrow> (byte list \<times> 'z host_irq_scheme, unit) io" where
  "read_chunk_body e addr count =
     (let m = sd_regs e in
      io_bind (on_snd (wait_not_inhibit m)) (\<lambda>_.
      io_bind (on_snd (process_sdio_pending_irqs_if_set e)) (\<lambda>queued.
        if queued then io_fail (Errno (-11))
        else
          io_bind (on_snd (start_chunk m False addr count)) (\<lambda>_.
          io_bind (on_snd (io_on_err (wait_cmd_complete m) (cmd53_cleanup m))) (\<lambda>_.
          io_bind (on_snd (read_reg m R_INT_STS)) (\<lambda>sts.
          io_bind (on_snd (read_reg m R_PRESENT_STS)) (\<lambda>_.
            case chunk_error sts of
              Some c \<Rightarrow> on_snd (io_bind (write_reg m R_INT_STS sts) (\<lambda>_.
                          io_bind (cmd53_cleanup m) (\<lambda>_. io_fail (Errno c))))
            | None \<Rightarrow> io_bind (io_for (read_word m count) [0 ..< (count + 3) div 4]) (\<lambda>_.
                on_snd (finish_chunk m)))))))))"

definition cmd53_read_chunk ::
  "'z host_irq_scheme sd1 \<Rightarrow> u32 \<Rightarrow> nat \<Rightarrow> (byte list \<times> 'z host_irq_scheme, unit) io" where
  "cmd53_read_chunk e addr count = (\<lambda>(buf, s).
     if \<not> (1 \<le> count \<and> count \<le> CMD53_MAX_BYTES \<and> count \<le> length buf) then (panic AssertFailed, (buf, s))
     else read_chunk_body e addr count (buf, s))"

section \<open>Block mode\<close>

text \<open>\<open>alloc_dma_buffer(count).ok_or(-12)?\<close> and \<open>release_dma_buffer\<close> on the pool of the state.\<close>

definition alloc_dma :: "'s dma_env \<Rightarrow> nat \<Rightarrow> ('z host_irq_scheme, nat \<times> nat) io" where
  "alloc_dma d count = (\<lambda>s.
     case alloc_dma_buffer (de_base d) count (DMA_POOL s) of
       (a, pool) \<Rightarrow> (ok_or a (-12), s\<lparr>DMA_POOL := pool\<rparr>))"

definition release_dma :: "'z host_irq_scheme \<Rightarrow> 'z host_irq_scheme" where
  "release_dma s = s\<lparr>DMA_POOL := release_dma_buffer (DMA_POOL s)\<rparr>"

definition cache_lines :: "(u64 \<Rightarrow> 's \<Rightarrow> 's) \<Rightarrow> u64 list result \<Rightarrow> ('s, unit) io" where
  "cache_lines instr ls = io_bind (io_lift ls) (io_for (\<lambda>l. io_do (instr l)))"

text \<open>From the DMA context to the command register; \<open>log\<close> are the registers read in between.\<close>

definition start_blocks ::
  "'z host_irq_scheme sd1 \<Rightarrow> 'z host_irq_scheme dma_env \<Rightarrow> bool \<Rightarrow> u32 \<Rightarrow> u32 \<Rightarrow> nat \<Rightarrow> u32 \<Rightarrow> nat list
   \<Rightarrow> ('z host_irq_scheme, unit) io" where
  "start_blocks e d wr addr block_count dma_phys host_ctrl_saved log =
     (let m = sd_regs e;
          arg = mmc_io_rw_extended_arg_block wr (addr_func addr) (addr_reg addr) False block_count;
          mode = (if wr then CMD53_WRITE_MULTI_XFER_MODE else CMD53_READ_MULTI_XFER_MODE) in
      io_bind (io_do (\<lambda>s. s\<lparr>HOST_DMA_BASE_PHYS := word_of_nat dma_phys,
                 HOST_DMA_TOTAL := unat block_count * 512, HOST_DMA_BYTES_XFERRED := 0\<rparr>)) (\<lambda>_.
      io_bind (write_reg m R_SDMA_SADDR (word_of_nat dma_phys)) (\<lambda>_.
      io_bind (write_reg m R_HOST_CTRL1 (host_ctrl_saved AND NOT (push_bit 3 3))) (\<lambda>_.
      io_bind (set_transfer_irqs_dma m) (\<lambda>_.
      io_bind (write_reg m R_BLK_SIZE_AND_CNT (push_bit 16 block_count OR SDHCI_BLOCK_SIZE_WORD)) (\<lambda>_.
      io_bind (write_reg m R_ARGUMENT arg) (\<lambda>_.
      io_bind (write_reg_8 d R_TIMEOUT_CONTROL 0x0E) (\<lambda>_.
      io_bind (log_regs m log) (\<lambda>_.
      io_bind (io_do (\<lambda>s. s\<lparr>HOST_TRANSFER_CMD_PENDING := True, HOST_TRANSFER_DMA_PENDING := True\<rparr>)) (\<lambda>_.
      io_bind (write_reg_16 d R_TRANSFER_MODE (ucast (mode AND 0xFFFF))) (\<lambda>_.
        write_reg_16 d R_COMMAND (ucast (drop_bit 16 mode)))))))))))))"

definition finish_blocks :: "'s mmio \<Rightarrow> unit result \<Rightarrow> nat list \<Rightarrow> ('s, unit) io" where
  "finish_blocks m res log =
     io_bind (io_on_err (io_lift res)
       (io_bind (log_regs m log) (\<lambda>_.
        io_bind (clear_int_status m) (\<lambda>_.
        io_bind (reset_cmd_line m) (\<lambda>_. reset_dat_line m))))) (\<lambda>_.
     io_bind (clear_int_status m) (\<lambda>_. wait_not_inhibit m))"

definition cmd53_write_blocks ::
  "'z host_irq_scheme sd1 \<Rightarrow> 'z host_irq_scheme dma_env \<Rightarrow> u32 \<Rightarrow> byte list \<Rightarrow> u32 \<Rightarrow> ('z host_irq_scheme, unit) io" where
  "cmd53_write_blocks e d addr buf block_count =
     (let m = sd_regs e; count = unat block_count * 512 in
      if \<not> (1 \<le> block_count \<and> block_count \<le> 511 \<and> count \<le> length buf) then io_fail (Panic AssertFailed)
      else
        io_bind (wait_not_inhibit m) (\<lambda>_.
        io_bind (process_sdio_pending_irqs_if_set e) (\<lambda>queued.
          if queued then io_fail (Errno (-11))
          else
            io_bind (alloc_dma d count) (\<lambda>(dma_ptr, dma_phys).
            io_bind (io_do (de_store d dma_ptr (take count buf))) (\<lambda>_.
            io_bind (cache_lines (de_clean d)
                       (dma_flush_before_write (word_of_nat dma_ptr) (word_of_nat count))) (\<lambda>_.
            io_bind (read_reg m R_HOST_CTRL1) (\<lambda>host_ctrl_saved.
            io_bind (start_blocks e d True addr block_count dma_phys host_ctrl_saved
                       [R_SDMA_SADDR, R_BLK_SIZE_AND_CNT, R_ARGUMENT, R_HOST_CTRL1, R_PRESENT_STS, R_INT_STS]) (\<lambda>_.
            io_bind (log_regs m [R_XFER_MODE_AND_CMD, R_SDMA_SADDR, R_BLK_SIZE_AND_CNT, R_ARGUMENT,
                       R_HOST_CTRL1, R_PRESENT_STS, R_INT_STS, R_RESP31_0]) (\<lambda>_.
            io_bind (io_try (wait_cmd_complete_irq e)) (\<lambda>cmd_ok.
            io_bind (log_regs m [R_XFER_MODE_AND_CMD, R_PRESENT_STS, R_INT_STS, R_RESP31_0]) (\<lambda>_.
            io_bind (io_try (io_bind (io_lift cmd_ok) (\<lambda>_. wait_dma_complete_irq e))) (\<lambda>res_after_cmd.
            io_bind (log_regs m [R_PRESENT_STS, R_INT_STS, R_RESP31_0]) (\<lambda>_.
            io_bind (io_try (io_bind (io_lift res_after_cmd) (\<lambda>_. r5_check m))) (\<lambda>res.
            io_bind (write_reg m R_HOST_CTRL1 host_ctrl_saved) (\<lambda>_.
            io_bind (io_do release_dma) (\<lambda>_.
              finish_blocks m res [R_SDMA_SADDR, R_BLK_SIZE_AND_CNT, R_ARGUMENT, R_XFER_MODE_AND_CMD,
                R_HOST_CTRL1, R_PRESENT_STS, R_INT_STS, R_RESP31_0]))))))))))))))))"

text \<open>After a successful read: invalidate the cache lines of the DMA buffer, then copy it out.\<close>

definition take_dma_data ::
  "'s dma_env \<Rightarrow> nat \<Rightarrow> nat \<Rightarrow> (byte list \<times> 's, unit) io" where
  "take_dma_data d dma_ptr count =
     io_bind (on_snd (cache_lines (de_invalidate d)
       (dma_invalidate_after_read (word_of_nat dma_ptr) (word_of_nat count)))) (\<lambda>_ (buf, s).
         case slice_set 0 count (de_load d dma_ptr count s) buf of
           Inl x \<Rightarrow> (Inl x, (buf, s))
         | Inr buf' \<Rightarrow> (ok (), (buf', s)))"

definition read_blocks_body ::
  "'z host_irq_scheme sd1 \<Rightarrow> 'z host_irq_scheme dma_env \<Rightarrow> u32 \<Rightarrow> u32 \<Rightarrow> (byte list \<times> 'z host_irq_scheme, unit) io" where
  "read_blocks_body e d addr block_count =
     (let m = sd_regs e; count = unat block_count * 512 in
      io_bind (on_snd (wait_not_inhibit m)) (\<lambda>_.
      io_bind (on_snd (process_sdio_pending_irqs_if_set e)) (\<lambda>queued.
        if queued then io_fail (Errno (-11))
        else
          io_bind (on_snd (alloc_dma d count)) (\<lambda>(dma_ptr, dma_phys).
          io_bind (on_snd (read_reg m R_HOST_CTRL1)) (\<lambda>host_ctrl_saved.
          io_bind (on_snd (start_blocks e d False addr block_count dma_phys host_ctrl_saved [])) (\<lambda>_.
          io_bind (on_snd (io_try (io_bind (wait_cmd_complete_irq e) (\<lambda>_.
                     io_bind (wait_dma_complete_irq e) (\<lambda>_. r5_check m))))) (\<lambda>res.
          io_bind (if res = ok () then take_dma_data d dma_ptr count else io_return ()) (\<lambda>_.
          io_bind (on_snd (write_reg m R_HOST_CTRL1 host_ctrl_saved)) (\<lambda>_.
          io_bind (on_snd (io_do release_dma)) (\<lambda>_.
            on_snd (finish_blocks m res [])))))))))))"

definition cmd53_read_blocks ::
  "'z host_irq_scheme sd1 \<Rightarrow> 'z host_irq_scheme dma_env \<Rightarrow> u32 \<Rightarrow> u32 \<Rightarrow> (byte list \<times> 'z host_irq_scheme, unit) io" where
  "cmd53_read_blocks e d addr block_count = (\<lambda>(buf, s).
     if \<not> (1 \<le> block_count \<and> block_count \<le> 511 \<and> unat block_count * 512 \<le> length buf)
     then (panic AssertFailed, (buf, s))
     else read_blocks_body e d addr block_count (buf, s))"

section \<open>Block access of the host\<close>

text \<open>One CMD53 of the block access: block mode for a positive block count, else byte mode.\<close>

definition cmd53_host ::
  "'z host_irq_scheme sd1 \<Rightarrow> 'z host_irq_scheme dma_env \<Rightarrow> u32 \<Rightarrow> 'z host_irq_scheme mmc_io_rw_extended" where
  "cmd53_host e d addr =
     \<lparr>io_rw_extended_read = (\<lambda>_ _ _ c blocks _ s.
        case (if blocks \<noteq> 0 then cmd53_read_blocks e d addr blocks else cmd53_read_chunk e addr (length c)) (c, s) of
          (r, (c', s')) \<Rightarrow> (r, c', s')),
      io_rw_extended_write = (\<lambda>_ _ _ c blocks _.
        if blocks \<noteq> 0 then cmd53_write_blocks e d addr c blocks else cmd53_write_chunk e addr c (length c))\<rparr>"

definition bk_read_block ::
  "'z host_irq_scheme sd1 \<Rightarrow> 'z host_irq_scheme dma_env \<Rightarrow> u32 \<Rightarrow> byte list \<Rightarrow> 'z host_irq_scheme
   \<Rightarrow> nat result \<times> byte list \<times> 'z host_irq_scheme" where
  "bk_read_block e d addr buf s =
     (case bk_rw_block (read_xfer (cmd53_host e d addr) 0 addr False) (length buf) (buf, s) of
        (r, (buf', s')) \<Rightarrow> (r, buf', s'))"

definition bk_write_block ::
  "'z host_irq_scheme sd1 \<Rightarrow> 'z host_irq_scheme dma_env \<Rightarrow> u32 \<Rightarrow> byte list \<Rightarrow> ('z host_irq_scheme, nat) io" where
  "bk_write_block e d addr buf s =
     (case bk_rw_block (write_xfer (cmd53_host e d addr) 0 addr False) (length buf) (buf, s) of
        (r, (_, s')) \<Rightarrow> (r, s'))"

definition sd1_host ::
  "'z host_irq_scheme sd1 \<Rightarrow> 'z host_irq_scheme dma_env \<Rightarrow> (nat \<Rightarrow> 'z host_irq_scheme \<Rightarrow> 'z host_irq_scheme)
   \<Rightarrow> 'z host_irq_scheme sdio_host" where
  "sd1_host e d delay_us = mmio_host (sd_regs e) (bk_read_block e d) (bk_write_block e d) delay_us"

text \<open>\<open>read_cmd52\<close> and \<open>write_cmd52\<close>: a buffer by single-byte accesses; only register 8 of function 1 is a FIFO.\<close>

definition read_cmd52 :: "'s mmio \<Rightarrow> u32 \<Rightarrow> u32 \<Rightarrow> (byte list \<times> 's, nat) io" where
  "read_cmd52 m func addr = (\<lambda>(buf, s0).
     let reg_base = addr AND 0xFF; is_fifo = func = 1 \<and> reg_base = 0x08 \<and> 1 < length buf in
     io_bind (io_for (\<lambda>i. io_bind (on_snd (cmd52_read_func m func (if is_fifo then 0x08 else reg_base + word_of_nat i)))
                (\<lambda>b (buf, s). (ok (), (buf[i := b], s)))) [0 ..< length buf]) (\<lambda>_.
     io_bind (on_snd (clear_int_status m)) (\<lambda>_. io_return (length buf))) (buf, s0))"

definition write_cmd52 :: "'s mmio \<Rightarrow> u32 \<Rightarrow> u32 \<Rightarrow> byte list \<Rightarrow> ('s, nat) io" where
  "write_cmd52 m func addr buf =
     (let reg_base = addr AND 0xFF in
      io_bind (io_for (\<lambda>(i, b). cmd52_write_func m func (reg_base + word_of_nat i) b) (enumerate 0 buf)) (\<lambda>_.
      io_bind (if func = 1 then clear_int_status m else io_return ()) (\<lambda>_. io_return (length buf))))"

end
