(* ===== verification/Cmd53_Laws.thy ===== *)
theory Cmd53_Laws
  imports Io_Rules Cmd53 Host_Irq_Laws
begin

text \<open>
  What CMD53 transfers do: the byte mode moves exactly the bytes of the buffer through the data
  port, and block mode leaves controller and DMA pool as it found them.
\<close>

section \<open>Computations that stay off the data path\<close>

definition data_regs :: "nat set" where
  "data_regs = {R_SDMA_SADDR, R_BLK_SIZE_AND_CNT, R_ARGUMENT, R_XFER_MODE_AND_CMD, R_BUF_DATA, R_HOST_CTRL1}"

definition quiet_regs :: "'s mmio \<Rightarrow> ('s \<Rightarrow> bool) \<Rightarrow> bool" where
  "quiet_regs m P \<longleftrightarrow>
     (\<forall>off. off \<noteq> R_BUF_DATA \<longrightarrow> preserves P (read_reg m off)) \<and>
     (\<forall>off v. off \<notin> data_regs \<longrightarrow> preserves P (write_reg m off v)) \<and>
     (\<forall>n. preserves P (io_do (mmio_sleep_ms m n)))"

lemma preserves_on_err [preserves_intros]:
  assumes "preserves P f" and "preserves P c"
  shows "preserves P (io_on_err f c)"
proof -
  have "P (snd (io_on_err f c s))" if "P s" for s
  proof -
    obtain r s1 where r: "f s = (r, s1)" by fastforce
    with assms(1) that have "P s1" by (rule preservesD)
    moreover have "preserves P (io_bind c (\<lambda>_. io_fail x))" for x :: rust_error
      by (intro preserves_intros assms(2))
    ultimately show ?thesis
      using r by (auto simp: io_on_err_def preserves_def split: sum.splits rust_error.splits)
  qed
  then show ?thesis by (simp add: preserves_def)
qed

lemma preserves_try [preserves_intros]: "preserves P f \<Longrightarrow> preserves P (io_try f)"
  by (auto simp: preserves_def io_try_def split: prod.splits sum.splits rust_error.splits)

lemma preserves_option [preserves_intros]:
  "preserves P f \<Longrightarrow> (\<And>y. preserves P (g y)) \<Longrightarrow> preserves P (case x of None \<Rightarrow> f | Some y \<Rightarrow> g y)"
  by (simp split: option.split)

lemma data_reg_facts [simp]:
  "R_INT_STS \<notin> data_regs" "R_INT_STS_EN \<notin> data_regs" "R_INT_SIG_EN \<notin> data_regs" "R_CLK_CTL_SWRST \<notin> data_regs"
  "R_HOST_CTRL1 \<noteq> R_BUF_DATA" "R_SDMA_SADDR \<noteq> R_BUF_DATA" "R_BLK_SIZE_AND_CNT \<noteq> R_BUF_DATA"
  "R_ARGUMENT \<noteq> R_BUF_DATA" "R_XFER_MODE_AND_CMD \<noteq> R_BUF_DATA"
  by (simp_all add: data_regs_def sdmmc_reg_defs R_BUF_DATA_def R_INT_STS_EN_def R_INT_SIG_EN_def
      R_SDMA_SADDR_def R_BLK_SIZE_AND_CNT_def)

lemma quiet_basic:
  assumes "quiet_regs m P"
  shows "off \<noteq> R_BUF_DATA \<Longrightarrow> preserves P (read_reg m off)"
    "off \<notin> data_regs \<Longrightarrow> preserves P (write_reg m off v)" "preserves P (io_do (mmio_sleep_ms m n))"
  using assms by (simp_all add: quiet_regs_def)


lemma quiet_waits:
  assumes q: "quiet_regs m P"
  shows "preserves P (wait_not_inhibit m)" "preserves P (clear_int_status m)" "preserves P (reset_line m v)"
    "preserves P (wait_cmd_complete m)" "preserves P (wait_buf_wr_ready m)" "preserves P (wait_buf_rd_ready m)"
    "preserves P (wait_xfer_complete m)"
proof -
  note rules = preserves_intros quiet_basic [OF q] not_buf_data data_reg_facts
  have "preserves P (inhibit_loop m k)" for k
    by (induction k) (simp only: inhibit_loop.simps, intro rules, assumption?)+
  then show "preserves P (wait_not_inhibit m)" by (simp add: wait_not_inhibit_def)
  show c: "preserves P (clear_int_status m)" unfolding clear_int_status_def by (intro rules)
  have "preserves P (reset_poll m v k)" for v k
    by (induction k) (simp only: reset_poll.simps, intro rules, assumption?)+
  then show r: "preserves P (reset_line m v)" for v unfolding reset_line_def by (intro rules)
  have "preserves P (cmd_complete_loop m k)" for k
    by (induction k) (simp only: cmd_complete_loop.simps reset_cmd_line_def, intro rules c r, assumption?)+
  then show "preserves P (wait_cmd_complete m)" by (simp add: wait_cmd_complete_def)
  have "preserves P (buf_wr_loop m k)" for k
    by (induction k) (simp only: buf_wr_loop.simps, intro rules, assumption?)+
  then show "preserves P (wait_buf_wr_ready m)" by (simp add: wait_buf_wr_ready_def)
  have "preserves P (buf_rd_loop m k)" for k
    by (induction k) (simp only: buf_rd_loop.simps, intro rules, assumption?)+
  then show "preserves P (wait_buf_rd_ready m)" by (simp add: wait_buf_rd_ready_def)
  have "preserves P (xfer_loop m k)" for k
    by (induction k) (simp only: xfer_loop.simps, intro rules, assumption?)+
  then show "preserves P (wait_xfer_complete m)" by (simp add: wait_xfer_complete_def)
qed


lemma quiet_parts:
  assumes q: "quiet_regs m P"
  shows "preserves P (cmd53_cleanup m)" "preserves P (r5_check m)" "preserves P (ack_buf_ready m v)"
    "preserves P (finish_chunk m)"
proof -
  note rules = preserves_intros quiet_basic [OF q] not_buf_data data_reg_facts quiet_waits [OF q]
  show c: "preserves P (cmd53_cleanup m)" unfolding cmd53_cleanup_def reset_dat_line_def by (intro rules)
  show r: "preserves P (r5_check m)" unfolding r5_check_def by (intro rules)
  show "preserves P (ack_buf_ready m v)" unfolding ack_buf_ready_def by (intro rules)
  show "preserves P (finish_chunk m)" unfolding finish_chunk_def by (intro rules c r)
qed

section \<open>Byte mode moves the buffer\<close>

lemma le32_pack:
  assumes "length bs \<le> 4"
  shows "take (length bs) (le32 (pack_word 0 bs)) = bs"
proof -
  have v: "bit b n \<Longrightarrow> n < 8" for b :: byte and n using bit_imp_le_length [of b n] by simp
  have "(ucast (ucast a OR push_bit 8 (ucast b) OR push_bit 16 (ucast c) OR push_bit 24 (ucast d) :: u32) :: byte) = a"
    "(ucast (drop_bit 8 (ucast a OR push_bit 8 (ucast b) OR push_bit 16 (ucast c) OR push_bit 24 (ucast d) :: u32)) :: byte) = b"
    "(ucast (drop_bit 16 (ucast a OR push_bit 8 (ucast b) OR push_bit 16 (ucast c) OR push_bit 24 (ucast d) :: u32)) :: byte) = c"
    "(ucast (drop_bit 24 (ucast a OR push_bit 8 (ucast b) OR push_bit 16 (ucast c) OR push_bit 24 (ucast d) :: u32)) :: byte) = d"
    for a b c d :: byte
    by (rule bit_word_eqI, auto simp: bit_simps dest: v)+
  note bytes = this [simplified] this [of _ 0 0 0, simplified] this [of _ _ 0 0, simplified] this [of _ _ _ 0, simplified]
  from assms consider "bs = []" | a where "bs = [a]" | a b where "bs = [a, b]" | a b c where "bs = [a, b, c]"
    | a b c d where "bs = [a, b, c, d]"
    by (auto simp: le_Suc_eq numeral_eq_Suc length_Suc_conv)
  then show ?thesis by cases (simp_all add: le32_def bytes or.assoc)
qed


text \<open>
  The data port of the controller during a byte-mode write: \<open>sent\<close> are the bytes the card has
  received, \<open>blk\<close> the block size that is set and \<open>left\<close> the bytes of the current transfer that are
  still to come. Only a write of the data port moves data; the command register starts a transfer of
  one block.
\<close>

definition pio_write_port ::
  "'z host_irq_scheme sd1 \<Rightarrow> ('z \<Rightarrow> byte list) \<Rightarrow> ('z \<Rightarrow> nat) \<Rightarrow> ('z \<Rightarrow> nat) \<Rightarrow> bool" where
  "pio_write_port e sent blk left \<longleftrightarrow>
     (\<forall>off s. off \<noteq> R_BUF_DATA \<longrightarrow> (let z = host_irq.more s; z' = host_irq.more (snd (mmio_read (sd_regs e) off s)) in
        sent z' = sent z \<and> blk z' = blk z \<and> left z' = left z)) \<and>
     (\<forall>off v s. let z = host_irq.more s; z' = host_irq.more (mmio_write (sd_regs e) off v s) in
        if off = R_BUF_DATA then sent z' = sent z @ take (left z) (le32 v) \<and> left z' = left z - 4 \<and> blk z' = blk z
        else if off = R_BLK_SIZE_AND_CNT then sent z' = sent z \<and> left z' = left z \<and> blk z' = unat (v AND 0xFFF)
        else if off = R_XFER_MODE_AND_CMD then sent z' = sent z \<and> blk z' = blk z \<and> (v = CMD53_WRITE_XFER_MODE \<longrightarrow> left z' = blk z)
        else sent z' = sent z \<and> blk z' = blk z \<and> left z' = left z) \<and>
     (\<forall>n s. let z = host_irq.more s; z' = host_irq.more (mmio_sleep_ms (sd_regs e) n s) in
        sent z' = sent z \<and> blk z' = blk z \<and> left z' = left z) \<and>
     (\<forall>q b s. let z = host_irq.more s; z' = host_irq.more (notify_one (sd_wq e) q b s) in
        sent z' = sent z \<and> blk z' = blk z \<and> left z' = left z)"

definition port_at :: "('z \<Rightarrow> byte list) \<Rightarrow> ('z \<Rightarrow> nat) \<Rightarrow> byte list \<Rightarrow> nat \<Rightarrow> 'z host_irq_scheme \<Rightarrow> bool" where
  "port_at dat left xs n s \<longleftrightarrow> dat (host_irq.more s) = xs \<and> left (host_irq.more s) = n"

definition data_is :: "('z \<Rightarrow> byte list) \<Rightarrow> byte list \<Rightarrow> 'z host_irq_scheme \<Rightarrow> bool" where
  "data_is dat xs s \<longleftrightarrow> dat (host_irq.more s) = xs"

lemma write_port_quiet:
  assumes "pio_write_port e sent blk left"
  shows "quiet_regs (sd_regs e) (port_at sent left xs n)" "quiet_regs (sd_regs e) (data_is sent xs)"
  using assms by (auto simp: quiet_regs_def preserves_def port_at_def data_is_def pio_write_port_def read_reg_def write_reg_def data_regs_def
      Let_def case_prod_beta)

lemma write_port_check:
  assumes p: "pio_write_port e sent blk left"
  shows "preserves (data_is sent xs) (process_sdio_pending_irqs_if_set e)"
proof -
  note rules = preserves_intros quiet_basic [OF write_port_quiet(2) [OF p]] not_buf_data data_reg_facts
  have "data_is sent xs (sdio_signal_irq s) = data_is sent xs s"
    "data_is sent xs (notify_sdio_irq_work (sd_wq e) s) = data_is sent xs s" for s
    using p by (simp_all add: data_is_def sdio_signal_irq_def notify_sdio_irq_work_def pio_write_port_def Let_def)
  then show ?thesis
    unfolding process_sdio_pending_irqs_if_set_def enable_sdio_irq_def Let_def by (intro rules) simp_all
qed

lemma write_word_port:
  assumes p: "pio_write_port e sent blk left" and at: "port_at sent left xs (count - 4 * i) s"
    and r: "write_word (sd_regs e) buf count i s = (r, s')" and i: "4 * i \<le> count" and len: "count \<le> length buf"
  shows "if r = ok () then port_at sent left (xs @ take (min 4 (count - 4 * i)) (drop (4 * i) buf)) (count - 4 * i - 4) s'
    else sent (host_irq.more s') = xs"
proof -
  define n where "n = count - 4 * i"
  have c: "count = 4 * i + n" using i by (simp add: n_def)
  let ?m = "sd_regs e" and ?P = "port_at sent left xs n" and ?bs = "take (min 4 n) (drop (4 * i) buf)"
  note rules = preserves_intros quiet_waits [OF write_port_quiet(1) [OF p]] quiet_parts [OF write_port_quiet(1) [OF p]]
  have "preserves ?P (io_bind (io_on_err (wait_buf_wr_ready ?m) (cmd53_cleanup ?m)) (\<lambda>_. ack_buf_ready ?m (push_bit 4 1)))"
    (is "preserves ?P ?f") by (intro rules)
  moreover obtain r1 s1 where f: "?f s = (r1, s1)" by fastforce
  ultimately have at1: "?P s1" using at by (auto simp: n_def intro: preservesD)
  have sl: "slice_get (i * 4) (min (i * 4 + 4) count) buf = ok ?bs"
  proof -
    have "min (i * 4 + 4) count - i * 4 = min 4 n" using c by simp
    then show ?thesis using len c by (simp add: slice_get_def mult.commute)
  qed
  have bs: "length ?bs = min 4 n" using len c by simp
  then have "take (min 4 n) (le32 (pack_word 0 ?bs)) = ?bs" using le32_pack [of ?bs] by simp
  moreover have "take n (le32 v) = take (min 4 n) (le32 v)" for v by (simp add: min_def)
  ultimately have "port_at sent left (xs @ ?bs) (n - 4) (mmio_write ?m R_BUF_DATA (pack_word 0 ?bs) s1)"
    using p at1 by (simp add: port_at_def pio_write_port_def Let_def)
  moreover have "write_word ?m buf count i s =
      io_bind ?f (\<lambda>_. write_reg ?m R_BUF_DATA (pack_word 0 ?bs)) s"
    by (simp add: write_word_def sl io_bind_def split: prod.splits sum.splits)
  ultimately show ?thesis
    using r f at1 by (cases r1) (auto simp: io_bind_def write_reg_def port_at_def n_def)
qed


lemma write_words_port:
  assumes p: "pio_write_port e sent blk left" and len: "count \<le> length buf"
    and "port_at sent left (xs @ take (4 * i) buf) (count - 4 * i) s" and "4 * i \<le> count" and "i \<le> w" "4 * w \<le> count + 3"
    and "io_for (write_word (sd_regs e) buf count) [i ..< w] s = (r, s')"
  shows "\<exists>k \<le> count. sent (host_irq.more s') = xs @ take k buf \<and> (r = ok () \<longrightarrow> k = min (4 * w) count)"
  using assms(3-)
proof (induction "w - i" arbitrary: i s)
  case 0
  then show ?case by (intro exI [of _ "4 * i"]) (auto simp: port_at_def)
next
  case (Suc n)
  then have i: "[i ..< w] = i # [Suc i ..< w]" "4 * i < count" by (simp_all add: upt_conv_Cons)
  obtain r1 s1 where 1: "write_word (sd_regs e) buf count i s = (r1, s1)" by fastforce
  note step = write_word_port [OF p Suc.prems(1) 1 Suc.prems(2) len]
  show ?case
  proof (cases "r1 = ok ()")
    case True
    let ?k = "min (4 * Suc i) count"
    have k: "4 * i + min 4 (count - 4 * i) = ?k" using i by simp
    have "take (4 * i) buf @ take (min 4 (count - 4 * i)) (drop (4 * i) buf) = take ?k buf"
      by (metis k take_add)
    with step True have at: "port_at sent left (xs @ take ?k buf) (count - 4 * Suc i) s1"
      by (simp add: algebra_simps)
    have for1: "io_for (write_word (sd_regs e) buf count) [Suc i ..< w] s1 = (r, s')"
      using Suc.prems(5) True 1 by (simp add: i io_bind_def)
    show ?thesis
    proof (cases "4 * Suc i \<le> count")
      case le: True
      then have "?k = 4 * Suc i" by simp
      with Suc.hyps(1) [of "Suc i" s1] Suc.hyps(2) Suc.prems at for1 le show ?thesis by simp
    next
      case False
      then have "w = Suc i" using Suc.prems Suc.hyps(2) by simp
      with for1 at False show ?thesis by (intro exI [of _ count]) (auto simp: port_at_def)
    qed
  next
    case False
    then show ?thesis using step 1 Suc.prems i
      by (intro exI [of _ "4 * i"]) (auto simp: io_bind_def split: sum.splits)
  qed
qed

lemma chunk_block_size:
  assumes "count \<le> 512"
  shows "unat ((65536 OR word_of_nat count) AND 4095 :: u32) = count"
proof -
  have "(push_bit 16 x OR word_of_nat count) AND mask 12 = (take_bit 12 (word_of_nat count) :: u32)" for x
    by (rule bit_word_eqI) (auto simp: bit_simps)
  from this [of 1] have "(65536 OR word_of_nat count) AND mask 12 = (take_bit 12 (word_of_nat count) :: u32)" by simp
  moreover have "unat (take_bit 12 (word_of_nat count :: u32)) = count"
    using assms by (simp add: unsigned_take_bit_eq unat_of_nat take_bit_nat_eq_self_iff)
  ultimately show ?thesis by (simp add: mask_eq_exp_minus_1)
qed

lemma start_chunk_port:
  assumes p: "pio_write_port e sent blk left" and "count \<le> 512" and "sent (host_irq.more s) = xs"
  shows "\<exists>s'. start_chunk (sd_regs e) True addr count s = (ok (), s') \<and> port_at sent left xs count s'"
  using p assms(3) chunk_block_size [OF assms(2)]
  by (auto simp: start_chunk_def io_bind_def write_reg_def port_at_def pio_write_port_def Let_def
      R_BLK_SIZE_AND_CNT_def sdmmc_reg_defs R_BUF_DATA_def)

text \<open>
  (C14) Byte-mode write at the register level: when \<open>cmd53_write_chunk\<close> returns \<open>Ok\<close>, the card has
  received exactly the first \<open>count\<close> bytes of the buffer, in order (the data port takes them as
  little-endian words, the last one cut to what is left of the block); on every error path it has
  received a prefix of them.
\<close>

theorem cmd53_write_chunk_delivers:
  assumes p: "pio_write_port e sent blk left" and n: "1 \<le> count" "count \<le> 512" "count \<le> length buf"
    and r: "cmd53_write_chunk e addr buf count s = (r, s')"
  shows "\<exists>k \<le> count. sent (host_irq.more s') = sent (host_irq.more s) @ take k buf \<and> (r = ok () \<longrightarrow> k = count)"
proof -
  let ?m = "sd_regs e" and ?xs = "sent (host_irq.more s)"
  let ?E = "\<lambda>s'. \<exists>k \<le> count. sent (host_irq.more s') = ?xs @ take k buf"
  let ?P = "data_is sent ?xs" and ?A = "port_at sent left ?xs count" and ?Q = "data_is sent (?xs @ take count buf)"
  note q = write_port_quiet [OF p]
  note rules = preserves_intros quiet_waits [OF q(1)] quiet_parts [OF q(1)] quiet_basic [OF q(1)]
    quiet_waits [OF q(2)] quiet_parts [OF q(2)] not_buf_data data_reg_facts write_port_check [OF p]
  have E: "?P s \<Longrightarrow> ?E s" "?A s \<Longrightarrow> ?E s" "?Q s \<Longrightarrow> ?E s" for s
    by (auto simp: data_is_def port_at_def intro: exI [of _ 0])
  have start: "io_triple ?P (start_chunk ?m True addr count) (\<lambda>_. ?A) ?E"
  proof (rule tripleI)
    fix s r s' assume "?P s" "start_chunk ?m True addr count s = (r, s')"
    with start_chunk_port [OF p n(2), of s ?xs addr] show "case r of Inr x \<Rightarrow> ?A s' | Inl _ \<Rightarrow> ?E s'"
      by (auto simp: data_is_def)
  qed
  have words: "io_triple ?A (io_for (write_word ?m buf count) [0 ..< (count + 3) div 4]) (\<lambda>_. ?Q) ?E"
  proof (rule tripleI)
    fix s r s' assume "?A s" "io_for (write_word ?m buf count) [0 ..< (count + 3) div 4] s = (r, s')"
    with write_words_port [OF p n(3), of ?xs 0 s "(count + 3) div 4" r s']
    show "case r of Inr x \<Rightarrow> ?Q s' | Inl _ \<Rightarrow> ?E s'" by (auto simp: data_is_def split: sum.split)
  qed
  have "io_triple ?P (cmd53_write_chunk e addr buf count) (\<lambda>_. ?Q) ?E"
    unfolding cmd53_write_chunk_def Let_def
    apply (rule triple_if, use n in \<open>simp add: CMD53_MAX_BYTES_def\<close>)
    apply (rule triple_step, (intro rules)[1], erule E)
    apply (rule triple_step, (intro rules)[1], erule E)
    apply (rule triple_if, rule triple_fail, erule E)
    apply (rule triple_bind [OF start])
    apply ((rule triple_step, (intro rules)[1], erule E)+)[1]
    apply (rule triple_option)
     apply (rule triple_bind [OF words], rule triple_preserves, (intro rules)[1], erule E)
    apply (rule triple_step, (intro rules)[1], erule E, rule triple_fail, erule E)
    done
  from tripleD [OF this _ r] show ?thesis by (auto simp: data_is_def split: sum.splits)
qed

text \<open>
  The data port during a byte-mode read: \<open>fifo\<close> are the bytes the card has to deliver. Only a read
  of the data port takes them, at most four and no more than what is left of the block.
\<close>

definition pio_read_port ::
  "'z host_irq_scheme sd1 \<Rightarrow> ('z \<Rightarrow> byte list) \<Rightarrow> ('z \<Rightarrow> nat) \<Rightarrow> ('z \<Rightarrow> nat) \<Rightarrow> bool" where
  "pio_read_port e fifo blk left \<longleftrightarrow>
     (\<forall>off s. let z = host_irq.more s; (v, s') = mmio_read (sd_regs e) off s; z' = host_irq.more s'; k = min 4 (left z) in
        if off = R_BUF_DATA then
          (k \<le> length (fifo z) \<longrightarrow> take k (le32 v) = take k (fifo z)) \<and>
          fifo z' = drop k (fifo z) \<and> left z' = left z - 4 \<and> blk z' = blk z
        else fifo z' = fifo z \<and> blk z' = blk z \<and> left z' = left z) \<and>
     (\<forall>off v s. off \<noteq> R_BUF_DATA \<longrightarrow> (let z = host_irq.more s; z' = host_irq.more (mmio_write (sd_regs e) off v s) in
        fifo z' = fifo z \<and>
        (if off = R_BLK_SIZE_AND_CNT then left z' = left z \<and> blk z' = unat (v AND 0xFFF)
         else if off = R_XFER_MODE_AND_CMD then blk z' = blk z \<and> (v = CMD53_READ_XFER_MODE \<longrightarrow> left z' = blk z)
         else blk z' = blk z \<and> left z' = left z))) \<and>
     (\<forall>n s. let z = host_irq.more s; z' = host_irq.more (mmio_sleep_ms (sd_regs e) n s) in
        fifo z' = fifo z \<and> blk z' = blk z \<and> left z' = left z) \<and>
     (\<forall>q b s. let z = host_irq.more s; z' = host_irq.more (notify_one (sd_wq e) q b s) in
        fifo z' = fifo z \<and> blk z' = blk z \<and> left z' = left z)"

lemma read_port_quiet:
  assumes "pio_read_port e fifo blk left"
  shows "quiet_regs (sd_regs e) (port_at fifo left xs n)" "quiet_regs (sd_regs e) (data_is fifo xs)"
  using assms by (auto simp: quiet_regs_def preserves_def port_at_def data_is_def pio_read_port_def read_reg_def
      write_reg_def data_regs_def Let_def case_prod_beta)

lemma read_port_check:
  assumes p: "pio_read_port e fifo blk left"
  shows "preserves (data_is fifo xs) (process_sdio_pending_irqs_if_set e)"
proof -
  note rules = preserves_intros quiet_basic [OF read_port_quiet(2) [OF p]] not_buf_data data_reg_facts
  have "data_is fifo xs (sdio_signal_irq s) = data_is fifo xs s"
    "data_is fifo xs (notify_sdio_irq_work (sd_wq e) s) = data_is fifo xs s" for s
    using p by (simp_all add: data_is_def sdio_signal_irq_def notify_sdio_irq_work_def pio_read_port_def Let_def)
  then show ?thesis
    unfolding process_sdio_pending_irqs_if_set_def enable_sdio_irq_def Let_def by (intro rules) simp_all
qed

text \<open>What is kept when a read fails: the length of the buffer and what lies beyond the chunk.\<close>

definition same_rest :: "byte list \<Rightarrow> nat \<Rightarrow> byte list \<times> 's \<Rightarrow> bool" where
  "same_rest buf count bs \<longleftrightarrow> length (fst bs) = length buf \<and> drop count (fst bs) = drop count buf"

definition read_upto :: "('z \<Rightarrow> byte list) \<Rightarrow> ('z \<Rightarrow> nat) \<Rightarrow> byte list \<Rightarrow> byte list \<Rightarrow> nat \<Rightarrow> nat
   \<Rightarrow> byte list \<times> 'z host_irq_scheme \<Rightarrow> bool" where
  "read_upto fifo left xs buf count k =
     with_buf (take k xs @ drop k buf) (port_at fifo left (drop k xs) (count - k))"

lemma read_word_port:
  assumes p: "pio_read_port e fifo blk left" and i: "4 * i \<le> count" and len: "count \<le> length buf" "count \<le> length xs"
  shows "io_triple (read_upto fifo left xs buf count (4 * i)) (read_word (sd_regs e) count i)
    (\<lambda>_. read_upto fifo left xs buf count (min (4 * Suc i) count)) (same_rest buf count)"
proof -
  let ?m = "sd_regs e" and ?k = "4 * i" and ?l = "min 4 (count - 4 * i)"
  let ?P = "port_at fifo left (drop ?k xs) (count - ?k)" and ?b = "take ?k xs @ drop ?k buf"
  note q = read_port_quiet(1) [OF p]
  note rules = preserves_intros quiet_waits [OF q] quiet_parts [OF q]
  have E: "with_buf ?b ?P bs \<Longrightarrow> same_rest buf count bs" for bs
    using i len by (auto simp: with_buf_def same_rest_def)
  have k: "min (4 * Suc i) count = ?k + ?l" using i by simp
  have last: "io_triple (with_buf ?b ?P) (io_bind (on_snd (read_reg ?m R_BUF_DATA)) (\<lambda>word (buf, s).
      let start = i * 4; stop = min (start + 4) count in
      case slice_set start stop (take (stop - start) (le32 word)) buf of
        Inl x \<Rightarrow> (Inl x, (buf, s)) | Inr buf' \<Rightarrow> (ok (), (buf', s))))
      (\<lambda>_. read_upto fifo left xs buf count (?k + ?l)) (same_rest buf count)"
  proof (rule tripleI)
    fix bs r bs'
    assume w: "with_buf ?b ?P bs" and r: "io_bind (on_snd (read_reg ?m R_BUF_DATA)) (\<lambda>word (buf, s).
      let start = i * 4; stop = min (start + 4) count in
      case slice_set start stop (take (stop - start) (le32 word)) buf of
        Inl x \<Rightarrow> (Inl x, (buf, s)) | Inr buf' \<Rightarrow> (ok (), (buf', s))) bs = (r, bs')"
    from w obtain s where bs: "bs = (?b, s)" "?P s" by (cases bs) (auto simp: with_buf_def)
    obtain v s1 where v: "mmio_read ?m R_BUF_DATA s = (v, s1)" by fastforce
    with p bs(2) len have rd: "take ?l (le32 v) = take ?l (drop ?k xs)" "port_at fifo left (drop (?k + ?l) xs) (count - ?k - 4) s1"
      by (auto simp: pio_read_port_def port_at_def Let_def add.commute dest!: spec [of _ R_BUF_DATA] spec [of _ s])
    have "min (i * 4 + 4) count = ?k + ?l" using k by simp
    moreover have "slice_set ?k (?k + ?l) (take ?l (le32 v)) ?b = ok (take (?k + ?l) xs @ drop (?k + ?l) buf)"
      using i len rd(1) by (auto simp: slice_set_def take_add add.commute)
    ultimately have "r = ok ()" "bs' = (take (?k + ?l) xs @ drop (?k + ?l) buf, s1)"
      using r bs v by (simp_all add: io_bind_def on_snd_def read_reg_def Let_def mult.commute)
    moreover have "count - ?k - 4 = count - (?k + ?l)" by simp
    ultimately show "case r of Inr x \<Rightarrow> read_upto fifo left xs buf count (?k + ?l) bs' | Inl _ \<Rightarrow> same_rest buf count bs'"
      using rd(2) by (simp add: read_upto_def with_buf_def)
  qed
  show ?thesis
    unfolding read_word_def k read_upto_def [of _ _ _ _ _ ?k]
    by (rule triple_step, (intro rules)[1], erule E, rule triple_step, (intro rules)[1], erule E, rule last)
qed

lemma read_words_port:
  assumes p: "pio_read_port e fifo blk left" and len: "count \<le> length buf" "count \<le> length xs"
    and "4 * i \<le> count" "i \<le> w" "4 * w \<le> count + 3"
  shows "io_triple (read_upto fifo left xs buf count (4 * i)) (io_for (read_word (sd_regs e) count) [i ..< w])
    (\<lambda>_. read_upto fifo left xs buf count (min (4 * w) count)) (same_rest buf count)"
  using assms(4-)
proof (induction "w - i" arbitrary: i)
  case 0
  then show ?case by (simp add: io_triple_def min_def)
next
  case (Suc n)
  then have i: "[i ..< w] = i # [Suc i ..< w]" by (simp add: upt_conv_Cons)
  have "io_triple (read_upto fifo left xs buf count (min (4 * Suc i) count)) (io_for (read_word (sd_regs e) count) [Suc i ..< w])
    (\<lambda>_. read_upto fifo left xs buf count (min (4 * w) count)) (same_rest buf count)"
  proof (cases "4 * Suc i \<le> count")
    case True
    then have "min (4 * Suc i) count = 4 * Suc i" by simp
    with Suc.hyps(1) [of "Suc i"] Suc.hyps(2) Suc.prems True show ?thesis by simp
  next
    case False
    then have "w = Suc i" using Suc.prems Suc.hyps(2) by simp
    then show ?thesis by (simp add: io_triple_def)
  qed
  then show ?case unfolding i io_for.simps by (rule triple_bind [OF read_word_port [OF p Suc.prems(1) len]])
qed


lemma start_chunk_read_port:
  assumes p: "pio_read_port e fifo blk left" and "count \<le> 512"
  shows "io_triple (data_is fifo xs) (start_chunk (sd_regs e) False addr count) (\<lambda>_. port_at fifo left xs count) E"
  using p chunk_block_size [OF assms(2)]
  by (simp add: io_triple_def start_chunk_def io_bind_def write_reg_def port_at_def data_is_def pio_read_port_def Let_def
      R_BLK_SIZE_AND_CNT_def sdmmc_reg_defs R_BUF_DATA_def)

text \<open>
  (C15) Byte-mode read at the register level: \<open>cmd53_read_chunk\<close> never touches the buffer beyond the
  chunk, and when it returns \<open>Ok\<close> the first \<open>count\<close> bytes are the next ones of the card's FIFO, in
  order, and the FIFO has moved on by exactly as many (although it is read in whole words).
\<close>

theorem cmd53_read_chunk_fills:
  assumes p: "pio_read_port e fifo blk left" and n: "1 \<le> count" "count \<le> 512" "count \<le> length buf"
    and F: "fifo (host_irq.more s) = xs" "count \<le> length xs"
    and r: "cmd53_read_chunk e addr count (buf, s) = (r, (buf', s'))"
  shows "length buf' = length buf \<and> drop count buf' = drop count buf \<and>
    (r = ok () \<longrightarrow> take count buf' = take count xs \<and> fifo (host_irq.more s') = drop count xs)"
proof -
  let ?m = "sd_regs e" and ?E = "same_rest buf count"
  let ?P = "with_buf buf (data_is fifo xs)" and ?A = "with_buf buf (port_at fifo left xs count)"
  let ?Q = "with_buf (take count xs @ drop count buf) (data_is fifo (drop count xs))"
  note q = read_port_quiet [OF p]
  note rules = preserves_intros quiet_waits [OF q(1)] quiet_parts [OF q(1)] quiet_basic [OF q(1)]
    quiet_waits [OF q(2)] quiet_parts [OF q(2)] not_buf_data data_reg_facts read_port_check [OF p]
  have E: "?P b \<Longrightarrow> ?E b" "?A b \<Longrightarrow> ?E b" "?Q b \<Longrightarrow> ?E b" for b
    using n(3) F(2) by (auto simp: with_buf_def same_rest_def)
  have start: "io_triple ?P (on_snd (start_chunk ?m False addr count)) (\<lambda>_. ?A) ?E"
    by (rule triple_on_snd [OF start_chunk_read_port [OF p n(2)], of "\<lambda>_. False"]) simp
  have words: "io_triple ?A (io_for (read_word ?m count) [0 ..< (count + 3) div 4]) (\<lambda>_. ?Q) ?E"
  proof (rule tripleI)
    fix b r b' assume "?A b" "io_for (read_word ?m count) [0 ..< (count + 3) div 4] b = (r, b')"
    moreover have "min (4 * ((count + 3) div 4)) count = count" by simp
    ultimately show "case r of Inr x \<Rightarrow> ?Q b' | Inl _ \<Rightarrow> ?E b'"
      using tripleD [OF read_words_port [OF p n(3) F(2), of 0 "(count + 3) div 4"], of b r b']
      by (auto simp: read_upto_def with_buf_def port_at_def data_is_def split: sum.splits)
  qed
  have "io_triple ?P (read_chunk_body e addr count) (\<lambda>_. ?Q) ?E"
    unfolding read_chunk_body_def Let_def
    apply (rule triple_step, (intro rules)[1], erule E)
    apply (rule triple_step, (intro rules)[1], erule E)
    apply (rule triple_if, rule triple_fail, erule E)
    apply (rule triple_bind [OF start])
    apply ((rule triple_step, (intro rules)[1], erule E)+)[1]
    apply (rule triple_option)
     apply (rule triple_bind [OF words], rule triple_preserves, (intro rules)[1], erule E)
    apply (simp only: on_snd_bind on_snd_fail)
    apply ((rule triple_step, (intro rules)[1], erule E)+, rule triple_fail, erule E)
    done
  moreover have "read_chunk_body e addr count (buf, s) = (r, (buf', s'))"
    using r n by (simp add: cmd53_read_chunk_def CMD53_MAX_BYTES_def)
  ultimately show ?thesis
    using tripleD [of ?P "read_chunk_body e addr count" "\<lambda>_. ?Q" ?E "(buf, s)" r "(buf', s')"] F n
    by (auto simp: with_buf_def same_rest_def data_is_def split: sum.splits)
qed

section \<open>A controller that completes at once\<close>

text \<open>A controller whose status always reports completion, for writing and for reading.\<close>

definition pio_bank :: "(byte list \<times> nat \<times> nat) host_irq_scheme sd1" where
  "pio_bank =
     \<lparr>sd_regs = \<lparr>mmio_read = (\<lambda>off s. if off = R_BUF_DATA then (case host_irq.more s of (xs, blk, left) \<Rightarrow>
          (pack_word 0 (take (min 4 left) xs),
           host_irq.more_update (\<lambda>_. (drop (min 4 left) xs, blk, left - 4)) s))
          else (if off = R_INT_STS then 0x33 else 0, s)),
        mmio_write = (\<lambda>off v. host_irq.more_update (\<lambda>(xs, blk, left).
          if off = R_BUF_DATA then (xs @ take left (le32 v), blk, left - 4)
          else if off = R_BLK_SIZE_AND_CNT then (xs, unat (v AND 0xFFF), left)
          else if off = R_XFER_MODE_AND_CMD then (xs, blk, blk) else (xs, blk, left))),
        mmio_sleep_ms = (\<lambda>n s. s)\<rparr>,
      sd_wq = \<lparr>notify_one = (\<lambda>q b s. s), wait_timeout = (\<lambda>q n s. (True, s))\<rparr>\<rparr>"

definition pio_state :: "byte list \<Rightarrow> (byte list \<times> nat \<times> nat) host_irq_scheme" where
  "pio_state xs = \<lparr>USE_SOFT_IRQ_WAKE = False, SDIO_IRQ_REGISTER_ONCE = True, SDIO_IRQ_PENDING = False,
     HOST_TRANSFER_CMD_PENDING = False, HOST_TRANSFER_DMA_PENDING = False, HOST_DMA_BASE_PHYS = 0,
     HOST_DMA_TOTAL = 0, HOST_DMA_BYTES_XFERRED = 0, HOST_CMD_RESULT = 0, HOST_DMA_RESULT = 0,
     DMA_POOL = None, \<dots> = (xs, 0, 0)\<rparr>"

lemma write_port_bank: "pio_write_port pio_bank fst (fst \<circ> snd) (snd \<circ> snd)"
  by (simp add: pio_write_port_def pio_bank_def Let_def case_prod_beta)


lemma pio_regs:
  "off \<noteq> R_BUF_DATA \<Longrightarrow> read_reg (sd_regs pio_bank) off s = (ok (if off = R_INT_STS then 0x33 else 0), s)"
  "write_reg (sd_regs pio_bank) R_INT_STS v s = (ok (), s)"
  "write_reg (sd_regs pio_bank) R_ARGUMENT v s = (ok (), s)"
  by (simp_all add: read_reg_def write_reg_def pio_bank_def sdmmc_reg_defs R_BUF_DATA_def R_BLK_SIZE_AND_CNT_def
      case_prod_beta)

lemma pio_waits:
  "wait_not_inhibit (sd_regs pio_bank) s = (ok (), s)" "wait_cmd_complete (sd_regs pio_bank) s = (ok (), s)"
  "wait_buf_wr_ready (sd_regs pio_bank) s = (ok (), s)" "wait_buf_rd_ready (sd_regs pio_bank) s = (ok (), s)"
  "wait_xfer_complete (sd_regs pio_bank) s = (ok (), s)" "clear_int_status (sd_regs pio_bank) s = (ok (), s)"
  "process_sdio_pending_irqs_if_set pio_bank s = (ok False, s)" "r5_check (sd_regs pio_bank) s = (ok (), s)"
  "v \<noteq> 0 \<longrightarrow> 0x33 AND v \<noteq> 0 \<Longrightarrow> ack_buf_ready (sd_regs pio_bank) v s = (ok (), s)"
proof -
  have n: "R_PRESENT_STS \<noteq> R_INT_STS" "R_RESP31_0 \<noteq> R_INT_STS" by (simp_all add: sdmmc_reg_defs)
  have "0 < k \<Longrightarrow> inhibit_loop (sd_regs pio_bank) k s = (ok (), s)"
    "0 < k \<Longrightarrow> cmd_complete_loop (sd_regs pio_bank) k s = (ok (), s)"
    "0 < k \<Longrightarrow> buf_wr_loop (sd_regs pio_bank) k s = (ok (), s)"
    "0 < k \<Longrightarrow> buf_rd_loop (sd_regs pio_bank) k s = (ok (), s)"
    "0 < k \<Longrightarrow> xfer_loop (sd_regs pio_bank) k s = (ok (), s)" for k
    by (cases k; simp add: io_bind_def pio_regs n int_cmd_defs int_bit_defs data_poll_error_def)+
  then show "wait_not_inhibit (sd_regs pio_bank) s = (ok (), s)" "wait_cmd_complete (sd_regs pio_bank) s = (ok (), s)"
    "wait_buf_wr_ready (sd_regs pio_bank) s = (ok (), s)" "wait_buf_rd_ready (sd_regs pio_bank) s = (ok (), s)"
    "wait_xfer_complete (sd_regs pio_bank) s = (ok (), s)"
    by (simp_all add: wait_not_inhibit_def wait_cmd_complete_def wait_buf_wr_ready_def wait_buf_rd_ready_def
        wait_xfer_complete_def)
  show "clear_int_status (sd_regs pio_bank) s = (ok (), s)" "r5_check (sd_regs pio_bank) s = (ok (), s)"
    "process_sdio_pending_irqs_if_set pio_bank s = (ok False, s)" "ack_buf_ready (sd_regs pio_bank) v s = (ok (), s)"
    by (simp_all add: clear_int_status_def io_bind_def pio_regs n r5_check_def r5_failed_def
        process_sdio_pending_irqs_if_set_def int_bit_defs ack_buf_ready_def)
qed

lemma pio_finish: "finish_chunk (sd_regs pio_bank) s = (ok (), s)"
  by (simp add: finish_chunk_def io_on_err_def io_bind_def pio_waits)

lemma pio_start: "\<exists>s'. start_chunk (sd_regs pio_bank) wr addr n s = (ok (), s')"
  by (simp add: start_chunk_def io_bind_def write_reg_def Let_def)

lemma pio_no_error: "chunk_error 0x33 = None"
  by (simp add: chunk_error_def INT_XFER_ERR_MASK_def)

theorem cmd53_write_chunk_delivers_witness:
  "\<exists>s'. cmd53_write_chunk pio_bank 0x107 [1, 2, 3, 4, 5, 6] 5 (pio_state []) = (ok (), s') \<and>
     fst (host_irq.more s') = [1, 2, 3, 4, 5]"
proof -
  obtain r s' where r: "cmd53_write_chunk pio_bank 0x107 [1, 2, 3, 4, 5, 6] 5 (pio_state []) = (r, s')" by fastforce
  have "R_PRESENT_STS \<noteq> R_INT_STS" by (simp add: sdmmc_reg_defs)
  then have "r = ok ()"
    using r pio_start [of True "0x107" 5 "pio_state []"]
    by (auto simp: cmd53_write_chunk_def CMD53_MAX_BYTES_def io_bind_def io_on_err_def pio_waits pio_regs pio_finish
        INT_XFER_ERR_MASK_def pio_no_error write_word_def slice_get_def write_reg_def [of _ R_BUF_DATA] Let_def upt_rec)
  moreover have "1 \<le> (5::nat)" "(5::nat) \<le> 512" "5 \<le> length [1, 2, 3, 4, 5, 6 :: byte]" by simp_all
  note cmd53_write_chunk_delivers [OF write_port_bank this r]
  ultimately show ?thesis using r by (auto simp: pio_state_def)
qed

lemma read_port_bank: "pio_read_port pio_bank fst (fst \<circ> snd) (snd \<circ> snd)"
proof -
  have "take (min 4 k) (le32 (pack_word 0 (take (min 4 k) xs))) = take (min 4 k) xs"
    if "min 4 k \<le> length xs" for k and xs :: "byte list"
    using le32_pack [of "take (min 4 k) xs"] that by simp
  then show ?thesis
    by (simp add: pio_read_port_def pio_bank_def Let_def case_prod_beta R_BUF_DATA_def R_BLK_SIZE_AND_CNT_def
        sdmmc_reg_defs)
qed

theorem cmd53_read_chunk_fills_witness:
  "\<exists>s'. cmd53_read_chunk pio_bank 0x107 5 ([0, 0, 0, 0, 0, 9], pio_state [1, 2, 3, 4, 5, 6]) =
     (ok (), ([1, 2, 3, 4, 5, 9], s')) \<and> fst (host_irq.more s') = [6]"
proof -
  let ?b = "[0, 0, 0, 0, 0, 9 :: byte]" and ?s = "pio_state [1, 2, 3, 4, 5, 6]"
  obtain r b' s' where r: "cmd53_read_chunk pio_bank 0x107 5 (?b, ?s) = (r, (b', s'))"
    by (metis prod.exhaust)
  have "R_PRESENT_STS \<noteq> R_BUF_DATA" "R_INT_STS \<noteq> R_BUF_DATA" by (simp_all add: sdmmc_reg_defs R_BUF_DATA_def)
  then have "r = ok ()"
    using r pio_start [of False "0x107" 5 ?s]
    by (auto simp: cmd53_read_chunk_def read_chunk_body_def CMD53_MAX_BYTES_def io_bind_def io_on_err_def on_snd_def
        pio_waits pio_regs pio_finish INT_XFER_ERR_MASK_def pio_no_error read_word_def slice_set_def read_reg_def [of _ R_BUF_DATA]
        Let_def upt_rec split: prod.splits)
  moreover have "1 \<le> (5::nat)" "(5::nat) \<le> 512" "5 \<le> length ?b" by simp_all
  note cmd53_read_chunk_fills [OF read_port_bank this _ _ r, of "[1, 2, 3, 4, 5, 6]"]
  ultimately have "length b' = 6" "drop 5 b' = [9]" "take 5 b' = [1, 2, 3, 4, 5]" "fst (host_irq.more s') = [6]"
    by (simp_all add: pio_state_def)
  moreover from this have "b' = [1, 2, 3, 4, 5, 9]" using append_take_drop_id [of 5 b'] by simp
  ultimately show ?thesis using r \<open>r = ok ()\<close> by simp
qed

end
