(* ===== verification/Cmd53_Dma.thy ===== *)
theory Cmd53_Dma
  imports Cmd53_Laws
begin

text \<open>
  Block-mode transfers over DMA: the command that is issued, what the DMA engine finds in memory,
  what a read brings back through the cache, and that every exit gives back the DMA buffer and the
  host control register.
\<close>

section \<open>The controller's view\<close>

text \<open>
  \<open>v_reg\<close> are the registers of the data path, \<open>v_cpu\<close> the bytes that loads and stores see,
  \<open>v_ram\<close> those in memory, which is what the DMA engine works on, \<open>v_busy\<close> whether the engine may
  be writing to memory, and \<open>v_issued\<close> the commands issued by a write of the command register, each
  with the registers and the memory at that time.
\<close>

record job =
  job_cmd :: u16
  job_mode :: u16
  job_reg :: "nat \<Rightarrow> u32"
  job_ram :: "nat \<Rightarrow> byte"

record bus_view =
  v_reg :: "nat \<Rightarrow> u32"
  v_mode :: u16
  v_cpu :: "nat \<Rightarrow> byte"
  v_ram :: "nat \<Rightarrow> byte"
  v_busy :: bool
  v_issued :: "job list"

text \<open>
  The cache may write back a byte at any time, and a busy engine may write to memory or become idle;
  nothing else changes.
\<close>

definition settles :: "bus_view \<Rightarrow> bus_view \<Rightarrow> bool" where
  "settles v v' \<longleftrightarrow> v_reg v' = v_reg v \<and> v_mode v' = v_mode v \<and> v_cpu v' = v_cpu v \<and> v_issued v' = v_issued v \<and>
     (v_busy v' \<longrightarrow> v_busy v) \<and> (\<not> v_busy v \<longrightarrow> (\<forall>a. v_ram v' a = v_ram v a \<or> v_ram v' a = v_cpu v a))"

definition bus_step :: "('z \<Rightarrow> bus_view) \<Rightarrow> (bus_view \<Rightarrow> bus_view) \<Rightarrow> 'z host_irq_scheme \<Rightarrow> 'z host_irq_scheme \<Rightarrow> bool" where
  "bus_step view f s s' \<longleftrightarrow> DMA_POOL s' = DMA_POOL s \<and> settles (f (view (host_irq.more s))) (view (host_irq.more s'))"

definition issue :: "u16 \<Rightarrow> bus_view \<Rightarrow> bus_view" where
  "issue c v = v\<lparr>v_busy := v_busy v \<or> bit (v_mode v) 4,
     v_issued := v_issued v @ [\<lparr>job_cmd = c, job_mode = v_mode v, job_reg = v_reg v, job_ram = v_ram v\<rparr>]\<rparr>"

definition put_bytes :: "nat \<Rightarrow> byte list \<Rightarrow> (nat \<Rightarrow> byte) \<Rightarrow> nat \<Rightarrow> byte" where
  "put_bytes p bs m = (\<lambda>a. if p \<le> a \<and> a < p + length bs then bs ! (a - p) else m a)"

text \<open>
  The laws: registers of the data path hold what was written, the command register issues a command,
  a store changes what the processor sees, a cleaned line is in memory, an invalidated one is read
  back from it, and while a task waits neither the buffer's mark nor the host control register nor the
  list of commands changes; a data phase that ended with result 0 has left the engine idle.
\<close>

definition dma_bus :: "'z host_irq_scheme sd1 \<Rightarrow> 'z host_irq_scheme dma_env \<Rightarrow> ('z \<Rightarrow> bus_view) \<Rightarrow> bool" where
  "dma_bus e d view \<longleftrightarrow>
     (\<forall>off s. off \<noteq> R_BUF_DATA \<longrightarrow> bus_step view id s (snd (mmio_read (sd_regs e) off s))) \<and>
     (\<forall>s. fst (mmio_read (sd_regs e) R_HOST_CTRL1 s) = v_reg (view (host_irq.more s)) R_HOST_CTRL1) \<and>
     (\<forall>off v s. off \<notin> {R_BUF_DATA, R_XFER_MODE_AND_CMD} \<longrightarrow>
        bus_step view (if off \<in> data_regs then v_reg_update (\<lambda>r. r(off := v)) else id) s
          (mmio_write (sd_regs e) off v s)) \<and>
     (\<forall>n s. bus_step view id s (mmio_sleep_ms (sd_regs e) n s)) \<and>
     (\<forall>q b s. bus_step view id s (notify_one (sd_wq e) q b s)) \<and>
     (\<forall>v s. bus_step view id s (de_write8 d R_TIMEOUT_CONTROL v s)) \<and>
     (\<forall>v s. bus_step view (v_mode_update (\<lambda>_. v)) s (de_write16 d R_TRANSFER_MODE v s)) \<and>
     (\<forall>v s. bus_step view (issue v) s (de_write16 d R_COMMAND v s)) \<and>
     (\<forall>p bs s. bus_step view (v_cpu_update (put_bytes p bs)) s (de_store d p bs s)) \<and>
     (\<forall>l s. bus_step view id s (de_clean d l s) \<and>
        (\<forall>a. \<not> v_busy (view (host_irq.more s)) \<and> a div 64 = unat l div 64 \<longrightarrow>
           v_ram (view (host_irq.more (de_clean d l s))) a = v_cpu (view (host_irq.more s)) a)) \<and>
     (\<forall>l s. let v = view (host_irq.more s); v' = view (host_irq.more (de_invalidate d l s)) in
        DMA_POOL (de_invalidate d l s) = DMA_POOL s \<and> v_reg v' = v_reg v \<and> v_issued v' = v_issued v \<and>
        (v_busy v' \<longrightarrow> v_busy v) \<and> (\<forall>a. \<not> v_busy v \<longrightarrow> (if a div 64 = unat l div 64 then v_cpu v' a = v_ram v' a
             else v_cpu v' a = v_cpu v a \<and> (v_ram v' a = v_ram v a \<or> v_ram v' a = v_cpu v a)))) \<and>
     (\<forall>p n s. de_load d p n s = map (v_cpu (view (host_irq.more s))) [p ..< p + n]) \<and>
     (\<forall>q n s. let (timed_out, s') = wait_timeout (sd_wq e) q n s; v = view (host_irq.more s); v' = view (host_irq.more s') in
        DMA_POOL s' = DMA_POOL s \<and> v_reg v' R_HOST_CTRL1 = v_reg v R_HOST_CTRL1 \<and> v_issued v' = v_issued v \<and>
        (q = HOST_DMA_DONE_QUEUE \<and> \<not> timed_out \<and> HOST_DMA_RESULT s' = 0 \<longrightarrow> \<not> v_busy v'))"

section \<open>Steps that keep what is known\<close>

lemma sure_read [sure_intros]: "never_fails (read_reg m off)"
  by (simp add: never_fails_def read_reg_def split: prod.split)

lemma sure_write [sure_intros]: "never_fails (write_reg m off v)"
  by (simp add: never_fails_def write_reg_def)

lemma sure_log [sure_intros]: "never_fails (log_regs m offs)"
  unfolding log_regs_def by (intro sure_intros)

text \<open>
  What is known of a state: the buffer's mark, the registers, the commands so far, that the processor
  sees \<open>mem\<close> at the addresses of \<open>C\<close> and, with an idle engine, that those of \<open>A\<close> among them are in
  memory.
\<close>

definition bus_at ::
  "('z \<Rightarrow> bus_view) \<Rightarrow> unit option \<Rightarrow> (nat \<Rightarrow> u32) \<Rightarrow> job list \<Rightarrow> bool \<Rightarrow> nat set \<Rightarrow> nat set \<Rightarrow> (nat \<Rightarrow> byte)
   \<Rightarrow> 'z host_irq_scheme \<Rightarrow> bool" where
  "bus_at view pool rg js idle C A mem s \<longleftrightarrow> (let v = view (host_irq.more s) in
     DMA_POOL s = pool \<and> v_reg v = rg \<and> v_issued v = js \<and> (\<forall>a \<in> C. v_cpu v a = mem a) \<and>
     (idle \<longrightarrow> \<not> v_busy v \<and> (\<forall>a \<in> A \<inter> C. v_ram v a = mem a)))"

text \<open>What survives a wait: the mark, the host control register and the commands.\<close>

definition bus_rest ::
  "('z \<Rightarrow> bus_view) \<Rightarrow> unit option \<Rightarrow> u32 \<Rightarrow> job list \<Rightarrow> 'z host_irq_scheme \<Rightarrow> bool" where
  "bus_rest view pool ctl js s \<longleftrightarrow> (let v = view (host_irq.more s) in
     DMA_POOL s = pool \<and> v_reg v R_HOST_CTRL1 = ctl \<and> v_issued v = js)"

lemma bus_at_step:
  assumes "bus_at view pool rg js idle C A mem s" and "bus_step view id s s'"
  shows "bus_at view pool rg js idle C A mem s'"
  using assms unfolding bus_at_def bus_step_def settles_def Let_def id_apply by (metis IntE)

lemma bus_rest_step: "bus_rest view pool ctl js s \<Longrightarrow> bus_step view id s s' \<Longrightarrow> bus_rest view pool ctl js s'"
  by (auto simp: bus_rest_def bus_step_def settles_def Let_def)

definition stable :: "('z \<Rightarrow> bus_view) \<Rightarrow> ('z host_irq_scheme \<Rightarrow> bool) \<Rightarrow> bool" where
  "stable view P \<longleftrightarrow> (\<forall>s s'. P s \<longrightarrow> bus_step view id s s' \<longrightarrow> P s')"

lemma stable_at: "stable view (bus_at view pool rg js idle C A mem)"
  using bus_at_step unfolding stable_def by blast

lemma stable_rest: "stable view (bus_rest view pool ctl js)"
  using bus_rest_step unfolding stable_def by blast

lemma stable_ex: "(\<And>j. stable view (P j)) \<Longrightarrow> stable view (\<lambda>s. \<exists>j. J j \<and> P j s)"
  unfolding stable_def by blast

lemma settles_refl [simp]: "settles v v"
  by (simp add: settles_def)

lemma dma_busD:
  assumes "dma_bus e d view"
  shows "off \<noteq> R_BUF_DATA \<Longrightarrow> bus_step view id s (snd (mmio_read (sd_regs e) off s))"
    "fst (mmio_read (sd_regs e) R_HOST_CTRL1 s) = v_reg (view (host_irq.more s)) R_HOST_CTRL1"
    "off \<noteq> R_BUF_DATA \<Longrightarrow> off \<notin> data_regs \<Longrightarrow> off \<noteq> R_XFER_MODE_AND_CMD \<Longrightarrow> bus_step view id s (mmio_write (sd_regs e) off v s)"
    "off \<noteq> R_BUF_DATA \<Longrightarrow> off \<in> data_regs \<Longrightarrow> off \<noteq> R_XFER_MODE_AND_CMD \<Longrightarrow>
       bus_step view (v_reg_update (\<lambda>r. r(off := v))) s (mmio_write (sd_regs e) off v s)"
    "bus_step view id s (mmio_sleep_ms (sd_regs e) n s)" "bus_step view id s (notify_one (sd_wq e) q b s)"
    "bus_step view id s (de_write8 d R_TIMEOUT_CONTROL c s)"
    "bus_step view (v_mode_update (\<lambda>_. h)) s (de_write16 d R_TRANSFER_MODE h s)"
    "bus_step view (issue h) s (de_write16 d R_COMMAND h s)"
    "bus_step view (v_cpu_update (put_bytes p bs)) s (de_store d p bs s)"
    "bus_step view id s (de_clean d l s)"
    "\<not> v_busy (view (host_irq.more s)) \<Longrightarrow> a div 64 = unat l div 64 \<Longrightarrow>
       v_ram (view (host_irq.more (de_clean d l s))) a = v_cpu (view (host_irq.more s)) a"
    "de_load d p n s = map (v_cpu (view (host_irq.more s))) [p ..< p + n]"
  using assms unfolding dma_bus_def by auto

lemma stable_quiet:
  assumes "dma_bus e d view" and "stable view P"
  shows "quiet_regs (sd_regs e) P"
proof -
  have "R_XFER_MODE_AND_CMD \<in> data_regs" "R_BUF_DATA \<in> data_regs" by (simp_all add: data_regs_def)
  then show ?thesis
    using assms(2) dma_busD(1,3,5) [OF assms(1)]
    by (auto simp: quiet_regs_def preserves_def read_reg_def write_reg_def stable_def split: prod.split)
      (metis snd_conv)+
qed

lemma stable_statics:
  assumes "stable view P" and "P s" and "host_irq.more s' = host_irq.more s" and "DMA_POOL s' = DMA_POOL s"
  shows "P s'"
  using assms unfolding stable_def bus_step_def by (metis id_apply settles_refl)

lemma stable_parts:
  assumes b: "dma_bus e d view" and st: "stable view P"
  shows "preserves P (process_sdio_pending_irqs_if_set e)" "preserves P (set_transfer_irqs_dma (sd_regs e))"
    "R_BUF_DATA \<notin> set offs \<Longrightarrow> preserves P (log_regs (sd_regs e) offs)"
    "preserves P (write_reg_8 d R_TIMEOUT_CONTROL c)"
proof -
  note rules = preserves_intros quiet_basic [OF stable_quiet [OF b st]] not_buf_data data_reg_facts
  have "P s \<Longrightarrow> P (sdio_signal_irq s)" for s
    by (rule stable_statics [OF st]) (simp_all add: sdio_signal_irq_def)
  moreover have "P s \<Longrightarrow> P (notify_sdio_irq_work (sd_wq e) s)" for s
    using dma_busD(6) [OF b] st by (simp add: stable_def notify_sdio_irq_work_def)
  ultimately show "preserves P (process_sdio_pending_irqs_if_set e)"
    unfolding process_sdio_pending_irqs_if_set_def enable_sdio_irq_def Let_def by (intro rules)
  show "preserves P (set_transfer_irqs_dma (sd_regs e))"
    unfolding set_transfer_irqs_dma_def Let_def by (intro rules)
  show "preserves P (log_regs (sd_regs e) offs)" if "R_BUF_DATA \<notin> set offs"
    using that unfolding log_regs_def by (induction offs) (auto intro!: rules)
  show "preserves P (write_reg_8 d R_TIMEOUT_CONTROL c)"
    using dma_busD(7) [OF b] st by (auto simp: write_reg_8_def preserves_def stable_def)
qed

section \<open>The command\<close>

text \<open>
  The command of a block transfer: CMD53 with its argument, DMA and multi-block mode in the right
  direction, 512-byte blocks, the address of the buffer and the single-address DMA engine selected.
\<close>

definition block_job :: "bool \<Rightarrow> u32 \<Rightarrow> u32 \<Rightarrow> nat \<Rightarrow> job \<Rightarrow> bool" where
  "block_job wr addr block_count phys j \<longleftrightarrow>
     drop_bit 8 (job_cmd j) = 53 \<and>
     bit (job_mode j) 0 \<and> bit (job_mode j) 1 \<and> bit (job_mode j) 5 \<and> (bit (job_mode j) 4 \<longleftrightarrow> \<not> wr) \<and>
     job_reg j R_ARGUMENT = mmc_io_rw_extended_arg_block wr (addr_func addr) (addr_reg addr) False block_count \<and>
     drop_bit 16 (job_reg j R_BLK_SIZE_AND_CNT) = block_count \<and> job_reg j R_BLK_SIZE_AND_CNT AND 0xFFF = 512 \<and>
     unat (job_reg j R_SDMA_SADDR) = phys \<and> job_reg j R_HOST_CTRL1 AND 0x18 = 0"

definition issued_at ::
  "('z \<Rightarrow> bus_view) \<Rightarrow> unit option \<Rightarrow> u32 \<Rightarrow> job list \<Rightarrow> (job \<Rightarrow> bool) \<Rightarrow> 'z host_irq_scheme \<Rightarrow> bool" where
  "issued_at view pool ctl js J s \<longleftrightarrow> (\<exists>j. J j \<and> bus_rest view pool ctl (js @ [j]) s)"

lemma stable_issued: "stable view (issued_at view pool ctl js J)"
  unfolding issued_at_def by (intro stable_ex stable_rest)

lemma write_data_reg:
  assumes b: "dma_bus e d view" and "off \<in> data_regs" "off \<noteq> R_BUF_DATA" "off \<noteq> R_XFER_MODE_AND_CMD"
  shows "io_triple (bus_at view pool rg js idle C A mem) (write_reg (sd_regs e) off v)
    (\<lambda>_. bus_at view pool (rg(off := v)) js idle C A mem) E"
  using dma_busD(4) [OF b assms(3,2,4), where v = v]
  unfolding io_triple_def write_reg_def bus_at_def bus_step_def settles_def Let_def
  by (simp add: Ball_def) metis

lemma issue_command:
  assumes b: "dma_bus e d view"
  shows "io_triple (bus_at view pool rg js idle C A mem)
    (io_bind (write_reg_16 d R_TRANSFER_MODE h) (\<lambda>_. write_reg_16 d R_COMMAND c))
    (\<lambda>_. issued_at view pool (rg R_HOST_CTRL1) js
       (\<lambda>j. job_cmd j = c \<and> job_mode j = h \<and> job_reg j = rg \<and> (idle \<longrightarrow> (\<forall>a \<in> A \<inter> C. job_ram j a = mem a)))) E"
proof (rule tripleI)
  fix s r s'
  let ?V = "\<lambda>s. view (host_irq.more s)" and ?s1 = "de_write16 d R_TRANSFER_MODE h s"
  assume at: "bus_at view pool rg js idle C A mem s"
    and r: "io_bind (write_reg_16 d R_TRANSFER_MODE h) (\<lambda>_. write_reg_16 d R_COMMAND c) s = (r, s')"
  have 1: "bus_step view (v_mode_update (\<lambda>_. h)) s ?s1" "bus_step view (issue c) ?s1 s'" "r = ok ()"
    using dma_busD(8,9) [OF b] r by (auto simp: write_reg_16_def io_bind_def)
  let ?j = "\<lparr>job_cmd = c, job_mode = h, job_reg = rg, job_ram = v_ram (?V ?s1)\<rparr>"
  have "v_ram (?V ?s1) a = mem a" if "idle" "a \<in> A \<inter> C" for a
  proof -
    have "\<not> v_busy (?V s)" "v_ram (?V s) a = mem a" "v_cpu (?V s) a = mem a"
      using at that by (simp_all add: bus_at_def Let_def)
    moreover from this(1) 1(1) have "v_ram (?V ?s1) a = v_ram (?V s) a \<or> v_ram (?V ?s1) a = v_cpu (?V s) a"
      by (simp add: bus_step_def settles_def)
    ultimately show ?thesis by auto
  qed
  moreover have "bus_rest view pool (rg R_HOST_CTRL1) (js @ [?j]) s'"
    using at 1 by (auto simp: bus_rest_def bus_at_def bus_step_def settles_def issue_def Let_def)
  ultimately show "case r of Inr x \<Rightarrow> issued_at view pool (rg R_HOST_CTRL1) js
       (\<lambda>j. job_cmd j = c \<and> job_mode j = h \<and> job_reg j = rg \<and> (idle \<longrightarrow> (\<forall>a \<in> A \<inter> C. job_ram j a = mem a))) s'
     | Inl _ \<Rightarrow> E s'"
    using 1(3) by (auto simp: issued_at_def intro!: exI [of _ ?j])
qed

lemma block_job_regs:
  fixes ctl n :: u32
  assumes "n \<le> 511"
  shows "drop_bit 16 (push_bit 16 n OR SDHCI_BLOCK_SIZE_WORD) = n"
    "(push_bit 16 n OR SDHCI_BLOCK_SIZE_WORD) AND 0xFFF = 512" "(ctl AND NOT (push_bit 3 3)) AND 0x18 = 0"
proof -
  have n: "take_bit 16 n = n"
    using assms by (simp add: word_unat_eq_iff unsigned_take_bit_eq take_bit_nat_eq_self_iff word_le_nat_alt)
  have "drop_bit 16 (push_bit 16 n OR SDHCI_BLOCK_SIZE_WORD) = take_bit 16 n OR drop_bit 16 SDHCI_BLOCK_SIZE_WORD"
    by (rule bit_word_eqI) (auto simp: bit_simps)
  then show "drop_bit 16 (push_bit 16 n OR SDHCI_BLOCK_SIZE_WORD) = n" by (simp add: n SDHCI_BLOCK_SIZE_WORD_def)
  have "(push_bit 16 n OR x) AND mask 12 = x AND mask 12" for x
    by (rule bit_word_eqI) (auto simp: bit_simps)
  from this [of SDHCI_BLOCK_SIZE_WORD] show "(push_bit 16 n OR SDHCI_BLOCK_SIZE_WORD) AND 0xFFF = 512"
    by (simp add: SDHCI_BLOCK_SIZE_WORD_def mask_eq_exp_minus_1)
  show "(ctl AND NOT (push_bit 3 3)) AND 0x18 = 0" by (simp add: and.assoc)
qed

lemma start_blocks_issues:
  assumes b: "dma_bus e d view" and n: "n \<le> 511" and phys: "phys < 2 ^ 32" and log: "R_BUF_DATA \<notin> set log"
  shows "io_triple (bus_at view pool rg js idle C A mem) (start_blocks e d wr addr n phys ctl log)
    (\<lambda>_. issued_at view pool (ctl AND NOT (push_bit 3 3)) js
       (\<lambda>j. block_job wr addr n phys j \<and> (idle \<longrightarrow> (\<forall>a \<in> A \<inter> C. job_ram j a = mem a)))) E"
proof -
  let ?P = "\<lambda>rg. bus_at view pool rg js idle C A mem"
  let ?mode = "if wr then CMD53_WRITE_MULTI_XFER_MODE else CMD53_READ_MULTI_XFER_MODE"
  let ?rg = "rg(R_SDMA_SADDR := word_of_nat phys, R_HOST_CTRL1 := ctl AND NOT (push_bit 3 3),
    R_BLK_SIZE_AND_CNT := push_bit 16 n OR SDHCI_BLOCK_SIZE_WORD,
    R_ARGUMENT := mmc_io_rw_extended_arg_block wr (addr_func addr) (addr_reg addr) False n)"
  have st: "stable view (?P rg)" for rg by (rule stable_at)
  note parts = stable_parts [OF b st]
  have statics: "?P rg (s\<lparr>HOST_DMA_BASE_PHYS := a, HOST_DMA_TOTAL := k, HOST_DMA_BYTES_XFERRED := 0\<rparr>) = ?P rg s"
    "?P rg (s\<lparr>HOST_TRANSFER_CMD_PENDING := True, HOST_TRANSFER_DMA_PENDING := True\<rparr>) = ?P rg s" for a k s rg
    by (simp_all add: bus_at_def)
  have regs: "R_SDMA_SADDR \<in> data_regs" "R_HOST_CTRL1 \<in> data_regs" "R_BLK_SIZE_AND_CNT \<in> data_regs"
    "R_ARGUMENT \<in> data_regs" "R_SDMA_SADDR \<noteq> R_XFER_MODE_AND_CMD" "R_HOST_CTRL1 \<noteq> R_XFER_MODE_AND_CMD"
    "R_BLK_SIZE_AND_CNT \<noteq> R_XFER_MODE_AND_CMD" "R_ARGUMENT \<noteq> R_XFER_MODE_AND_CMD"
    by (simp_all add: data_regs_def sdmmc_reg_defs R_SDMA_SADDR_def R_BLK_SIZE_AND_CNT_def)
  note wr = triple_bind [OF write_data_reg [OF b]]
  have job: "block_job wr addr n phys j" if "job_cmd j = ucast (drop_bit 16 ?mode)"
    "job_mode j = ucast (?mode AND 0xFFFF)" "job_reg j = ?rg" for j
    using that block_job_regs [OF n] phys
    by (auto simp: block_job_def CMD53_WRITE_MULTI_XFER_MODE_def CMD53_READ_MULTI_XFER_MODE_def unat_of_nat
        sdmmc_reg_defs R_SDMA_SADDR_def R_BLK_SIZE_AND_CNT_def)
  have ctl: "?rg R_HOST_CTRL1 = ctl AND NOT (push_bit 3 3)"
    by (simp add: sdmmc_reg_defs R_BLK_SIZE_AND_CNT_def)
  have last: "io_triple (?P ?rg) (io_bind (write_reg_16 d R_TRANSFER_MODE (ucast (?mode AND 0xFFFF)))
      (\<lambda>_. write_reg_16 d R_COMMAND (ucast (drop_bit 16 ?mode))))
    (\<lambda>_. issued_at view pool (ctl AND NOT (push_bit 3 3)) js
       (\<lambda>j. block_job wr addr n phys j \<and> (idle \<longrightarrow> (\<forall>a \<in> A \<inter> C. job_ram j a = mem a)))) E"
    by (rule triple_weaken [OF issue_command [OF b]], assumption) (use ctl job in \<open>auto simp: issued_at_def\<close>)
  show ?thesis
    unfolding start_blocks_def Let_def write_reg_8_def
    apply (rule triple_bind [OF triple_do [where Q = "\<lambda>_. ?P rg"]], simp only: statics)
    apply (rule wr, rule regs, rule data_reg_facts, rule regs)
    apply (rule wr, rule regs, rule data_reg_facts, rule regs)
    apply (rule triple_sure, rule parts, simp only: set_transfer_irqs_dma_def Let_def, (intro sure_intros)[1])
    apply (rule wr, rule regs, rule data_reg_facts, rule regs)
    apply (rule wr, rule regs, rule data_reg_facts, rule regs)
    apply (rule triple_sure, rule parts(4) [unfolded write_reg_8_def], rule sure_intros)
    apply (rule triple_sure, rule parts, rule log, rule sure_intros)
    apply (rule triple_bind [OF triple_do [where Q = "\<lambda>_. ?P ?rg"]], simp only: statics)
    apply (rule last)
    done
qed

lemma clean_lines:
  assumes b: "dma_bus e d view"
  shows "io_triple (bus_at view pool rg js True C A mem) (io_for (\<lambda>l. io_do (de_clean d l)) ls)
    (\<lambda>_. bus_at view pool rg js True C (A \<union> {a. \<exists>l \<in> set ls. a div 64 = unat l div 64}) mem) E"
proof (induction ls arbitrary: A)
  case Nil
  then show ?case by (simp add: io_triple_def)
next
  case (Cons l ls)
  let ?L = "{a. a div 64 = unat l div 64}"
  have "bus_at view pool rg js True C (A \<union> ?L) mem (de_clean d l s)" if "bus_at view pool rg js True C A mem s" for s
    using bus_at_step [OF that dma_busD(11) [OF b]] dma_busD(12) [OF b, of s _ l] that
    by (auto simp: bus_at_def Let_def)
  then have "io_triple (bus_at view pool rg js True C A mem) (io_do (de_clean d l))
      (\<lambda>_. bus_at view pool rg js True C (A \<union> ?L) mem) E" by (rule triple_do)
  from triple_bind [OF this Cons.IH]
  have "io_triple (bus_at view pool rg js True C A mem) (io_for (\<lambda>l. io_do (de_clean d l)) (l # ls))
    (\<lambda>_. bus_at view pool rg js True C (A \<union> ?L \<union> {a. \<exists>l \<in> set ls. a div 64 = unat l div 64}) mem) E"
    by (simp only: io_for.simps)
  moreover have "A \<union> ?L \<union> {a. \<exists>l \<in> set ls. a div 64 = unat l div 64} =
      A \<union> {a. \<exists>l \<in> set (l # ls). a div 64 = unat l div 64}" by auto
  ultimately show ?case by metis
qed

section \<open>The phases of a block transfer\<close>

definition plain :: "'a result \<Rightarrow> bool" where
  "plain r \<longleftrightarrow> (\<forall>x. r = Inl x \<longrightarrow> (\<exists>e. x = Errno e))"

definition no_panic :: "('s, 'a) io \<Rightarrow> bool" where
  "no_panic f \<longleftrightarrow> (\<forall>s. plain (fst (f s)))"

lemma triple_try:
  assumes "preserves P f" and "no_panic f"
  shows "io_triple P (io_try f) (\<lambda>x s. P s \<and> plain x) E"
proof (rule tripleI)
  fix s r s' assume s: "P s" and r: "io_try f s = (r, s')"
  obtain x s1 where f: "f s = (x, s1)" by fastforce
  have "P s1" using preservesD [OF assms(1) s f] .
  moreover have "plain x" using assms(2) f unfolding no_panic_def by (metis fst_conv)
  ultimately show "case r of Inr x \<Rightarrow> P s' \<and> plain x | Inl _ \<Rightarrow> E s'"
    using f r by (auto simp: io_try_def plain_def split: sum.splits rust_error.splits)
qed

lemma triple_try_post:
  assumes f: "io_triple P f (\<lambda>_. Q) R" and n: "no_panic f"
  shows "io_triple P (io_try f) (\<lambda>x s. if x = ok () then Q s else R s) E"
proof (rule tripleI)
  fix s r s' assume s: "P s" and r: "io_try f s = (r, s')"
  obtain x s1 where x: "f s = (x, s1)" by fastforce
  have "plain x" using n x unfolding no_panic_def by (metis fst_conv)
  with tripleD [OF f s x] show "case r of Inr x \<Rightarrow> if x = ok () then Q s' else R s' | Inl _ \<Rightarrow> E s'"
    using r x by (auto simp: io_try_def plain_def split: sum.splits rust_error.splits)
qed

lemma irq_waits:
  assumes b: "dma_bus e d view"
  shows "preserves (issued_at view pool ctl js J) (wait_cmd_complete_irq e)"
    "preserves (issued_at view pool ctl js J) (wait_dma_complete_irq e)"
proof -
  let ?P = "issued_at view pool ctl js J"
  have w: "?P s1" if "?P s" "wait_timeout (sd_wq e) q n s = (t, s1)" for q n s t s1
  proof -
    have "let (timed_out, s') = wait_timeout (sd_wq e) q n s; v = view (host_irq.more s); v' = view (host_irq.more s') in
        DMA_POOL s' = DMA_POOL s \<and> v_reg v' R_HOST_CTRL1 = v_reg v R_HOST_CTRL1 \<and> v_issued v' = v_issued v \<and>
        (q = HOST_DMA_DONE_QUEUE \<and> \<not> timed_out \<and> HOST_DMA_RESULT s' = 0 \<longrightarrow> \<not> v_busy v')"
      using b unfolding dma_bus_def by blast
    with that show ?thesis by (simp add: issued_at_def bus_rest_def Let_def)
  qed
  have "?P (s\<lparr>HOST_TRANSFER_CMD_PENDING := c\<rparr>) = ?P s" "?P (s\<lparr>HOST_TRANSFER_DMA_PENDING := c\<rparr>) = ?P s" for s c
    by (simp_all add: issued_at_def bus_rest_def)
  with w show "preserves ?P (wait_cmd_complete_irq e)" "preserves ?P (wait_dma_complete_irq e)"
    by (auto simp: preserves_def wait_cmd_complete_irq_def wait_dma_complete_irq_def split: prod.split)
qed

lemma plain_bind: "no_panic f \<Longrightarrow> (\<And>x. no_panic (g x)) \<Longrightarrow> no_panic (io_bind f g)"
  by (auto simp: no_panic_def plain_def io_bind_def split: prod.splits sum.splits) (metis fst_conv)

lemma plain_parts:
  "no_panic (wait_cmd_complete_irq e)" "no_panic (wait_dma_complete_irq e)" "no_panic (r5_check m)"
  "plain r \<Longrightarrow> no_panic (io_lift r)"
  by (auto simp: no_panic_def plain_def wait_cmd_complete_irq_def wait_dma_complete_irq_def r5_check_def io_bind_def
      result_of_def read_reg_def split: prod.split)

lemma alloc_block_buffer:
  assumes base: "0 < de_base d" and n: "1 \<le> n" "n \<le> (511 :: u32)"
  shows "io_triple (bus_at view None rg js idle C A mem) (alloc_dma d (unat n * 512))
    (\<lambda>a s. bus_at view (Some ()) rg js idle C A mem s \<and> a = (de_base d, de_base d)) E"
proof -
  have "0 < unat n" "unat n \<le> 511" using n by (simp_all add: word_le_nat_alt)
  then show ?thesis
    using base by (auto simp: io_triple_def alloc_dma_def alloc_dma_buffer_def DMA_POOL_SIZE_def bus_at_def ok_or_def Let_def)
qed

lemma buffer_lines:
  assumes base: "0 < base" "base + DMA_POOL_SIZE \<le> 2 ^ 32" and n: "1 \<le> n" "n \<le> (511 :: u32)"
  shows "\<exists>ls. dma_flush_before_write (word_of_nat base) (word_of_nat (unat n * 512)) = ok ls \<and>
    dma_invalidate_after_read (word_of_nat base) (word_of_nat (unat n * 512)) = ok ls \<and>
    {base ..< base + unat n * 512} \<subseteq> {a. \<exists>l \<in> set ls. a div 64 = unat l div 64}"
proof -
  let ?p = "word_of_nat base :: u64" and ?c = "word_of_nat (unat n * 512) :: u64" and ?k = "unat n * 512"
  have "0 < unat n" "unat n \<le> 511" using n by (simp_all add: word_le_nat_alt)
  then have k: "0 < ?k" "?k \<le> 2 ^ 18" and b: "base < 2 ^ 32" using base by (simp_all add: DMA_POOL_SIZE_def)
  have of_nat: "unat (word_of_nat i :: u64) = i" if "i < 2 ^ 33" for i
    using that by (simp add: unat_of_nat)
  have "unat ?p = base" using b by (intro of_nat) simp
  moreover have "unat ?c = ?k" by (rule of_nat [OF le_less_trans [OF k(2)]]) simp
  ultimately have u: "unat ?p = base" "unat ?c = ?k" .
  then have nz: "?p \<noteq> 0" "?c \<noteq> 0" using base k by (auto simp: unat_eq_0 [symmetric])
  have "(2 :: nat) ^ 32 + 2 ^ 18 + 64 \<le> 2 ^ 64" by simp
  with k b have "unat ?p + unat ?c + 64 \<le> 2 ^ 64" unfolding u by linarith
  from dma_cache_lines [OF nz this] obtain ls where
    ls: "dma_flush_before_write ?p ?c = ok ls" "dma_invalidate_after_read ?p ?c = ok ls"
      "\<forall>l. l \<in> set ls \<longleftrightarrow> 64 dvd unat l \<and> unat l < base + ?k \<and> base < unat l + 64" unfolding u by blast
  have "\<exists>l \<in> set ls. a div 64 = unat l div 64" if a: "base \<le> a" "a < base + ?k" for a
  proof -
    let ?l = "a div 64 * 64"
    have l: "?l \<le> a" "a < ?l + 64" using dividend_less_div_times [of 64 a] by simp_all
    moreover have "(2 :: nat) ^ 32 + 2 ^ 18 < 2 ^ 33" by simp
    ultimately have "unat (word_of_nat ?l :: u64) = ?l" using a k b by (intro of_nat) linarith
    moreover have "64 dvd ?l" "?l < base + ?k" "base < ?l + 64" using a l(1) l(2) by (simp, linarith, linarith)
    ultimately have "word_of_nat ?l \<in> set ls" using ls(3) by simp
    then show ?thesis using \<open>unat (word_of_nat ?l :: u64) = ?l\<close> by (intro bexI [of _ "word_of_nat ?l"]) simp_all
  qed
  then have "{base ..< base + ?k} \<subseteq> {a. \<exists>l \<in> set ls. a div 64 = unat l div 64}" by (simp add: subset_iff)
  with ls(1,2) show ?thesis by blast
qed

definition buffer_bytes :: "(nat \<Rightarrow> byte) \<Rightarrow> nat \<Rightarrow> nat \<Rightarrow> byte list" where
  "buffer_bytes mem base n = map mem [base ..< base + n]"

lemma store_buffer:
  assumes b: "dma_bus e d view"
  shows "io_triple (bus_at view pool rg js True {} {} mem0) (io_do (de_store d p bs))
    (\<lambda>_. bus_at view pool rg js True {p ..< p + length bs} {} (\<lambda>a. bs ! (a - p))) E"
  using dma_busD(10) [OF b, where p = p and bs = bs]
  by (intro triple_do) (auto simp: bus_at_def bus_step_def settles_def put_bytes_def Let_def)

lemma read_ctrl:
  assumes b: "dma_bus e d view"
  shows "io_triple (bus_at view pool rg js idle C A mem) (read_reg (sd_regs e) R_HOST_CTRL1)
    (\<lambda>x s. bus_at view pool rg js idle C A mem s \<and> x = rg R_HOST_CTRL1) E"
proof (rule tripleI)
  fix s r s' assume s: "bus_at view pool rg js idle C A mem s" "read_reg (sd_regs e) R_HOST_CTRL1 s = (r, s')"
  have "bus_at view pool rg js idle C A mem s'"
    using bus_at_step [OF s(1) dma_busD(1) [OF b, of R_HOST_CTRL1]] s(2) by (simp add: read_reg_def split: prod.splits)
  moreover have "r = ok (rg R_HOST_CTRL1)"
    using s dma_busD(2) [OF b, of s] by (simp add: read_reg_def bus_at_def Let_def split: prod.splits)
  ultimately show "case r of Inr x \<Rightarrow> bus_at view pool rg js idle C A mem s' \<and> x = rg R_HOST_CTRL1 | Inl _ \<Rightarrow> E s'"
    by simp
qed

text \<open>
  After a read also what is known of the buffer: with \<open>h = Some (A, mem)\<close> the engine is idle and the
  addresses of \<open>A\<close> hold \<open>mem\<close>, for the processor and in memory.
\<close>

definition mem_at :: "('z \<Rightarrow> bus_view) \<Rightarrow> nat set \<Rightarrow> (nat \<Rightarrow> byte) \<Rightarrow> 'z host_irq_scheme \<Rightarrow> bool" where
  "mem_at view A mem s \<longleftrightarrow> \<not> v_busy (view (host_irq.more s)) \<and>
     (\<forall>a \<in> A. v_cpu (view (host_irq.more s)) a = mem a \<and> v_ram (view (host_irq.more s)) a = mem a)"

definition final_at ::
  "('z \<Rightarrow> bus_view) \<Rightarrow> unit option \<Rightarrow> u32 \<Rightarrow> job list \<Rightarrow> (job \<Rightarrow> bool) \<Rightarrow> (nat set \<times> (nat \<Rightarrow> byte)) option
   \<Rightarrow> 'z host_irq_scheme \<Rightarrow> bool" where
  "final_at view pool ctl js J h s \<longleftrightarrow> issued_at view pool ctl js J s \<and>
     (case h of None \<Rightarrow> True | Some (A, mem) \<Rightarrow> mem_at view A mem s)"

lemma mem_at_step:
  assumes m: "mem_at view A mem s" and st: "bus_step view f s s'"
    and f: "\<And>v. v_cpu (f v) = v_cpu v" "\<And>v. v_ram (f v) = v_ram v" "\<And>v. v_busy (f v) = v_busy v"
  shows "mem_at view A mem s'"
proof -
  let ?v = "view (host_irq.more s)" and ?v' = "view (host_irq.more s')"
  from m have busy: "\<not> v_busy ?v" by (simp add: mem_at_def)
  with st f have "\<not> v_busy ?v'" "v_cpu ?v' = v_cpu ?v" "\<And>a. v_ram ?v' a = v_ram ?v a \<or> v_ram ?v' a = v_cpu ?v a"
    by (auto simp: bus_step_def settles_def)
  with m show ?thesis unfolding mem_at_def by metis
qed

lemma stable_final: "stable view (final_at view pool ctl js J h)"
proof -
  have "issued_at view pool ctl js J s'" if "issued_at view pool ctl js J s" "bus_step view id s s'" for s s'
    using stable_issued that unfolding stable_def by blast
  moreover have "mem_at view A mem s'" if "mem_at view A mem s" "bus_step view id s s'" for A mem s s'
    by (rule mem_at_step [OF that]) simp_all
  ultimately show ?thesis unfolding stable_def final_at_def by (auto split: option.splits)
qed

lemma restore_ctrl:
  assumes b: "dma_bus e d view" and f: "final_at view pool ctl js J h s"
  shows "final_at view pool v js J h (mmio_write (sd_regs e) R_HOST_CTRL1 v s)"
proof -
  have r: "R_HOST_CTRL1 \<in> data_regs" "R_HOST_CTRL1 \<noteq> R_XFER_MODE_AND_CMD"
    by (simp_all add: data_regs_def sdmmc_reg_defs)
  let ?s' = "mmio_write (sd_regs e) R_HOST_CTRL1 v s"
  have st: "bus_step view (v_reg_update (\<lambda>r. r(R_HOST_CTRL1 := v))) s ?s'"
    by (rule dma_busD(4) [OF b data_reg_facts(5) r])
  then have "issued_at view pool v js J ?s'"
    using f by (auto simp: final_at_def issued_at_def bus_rest_def bus_step_def settles_def Let_def)
  moreover have "mem_at view A mem ?s'" if "mem_at view A mem s" for A mem
    by (rule mem_at_step [OF that st]) simp_all
  ultimately show ?thesis using f by (auto simp: final_at_def split: option.splits)
qed

lemma release_buffer: "final_at view pool ctl js J h s \<Longrightarrow> final_at view None ctl js J h (release_dma s)"
  by (auto simp: final_at_def issued_at_def bus_rest_def release_dma_def release_dma_buffer_def mem_at_def Let_def
      split: option.splits)

lemma finish_stable:
  assumes b: "dma_bus e d view" and st: "stable view P" and log: "R_BUF_DATA \<notin> set log"
  shows "preserves P (finish_blocks (sd_regs e) res log)"
  unfolding finish_blocks_def reset_cmd_line_def reset_dat_line_def
  by (intro preserves_intros stable_parts(3) [OF b st log] quiet_waits [OF stable_quiet [OF b st]])

lemma finish_err: "res \<noteq> ok () \<Longrightarrow> fst (finish_blocks m res log s) \<noteq> ok ()"
  by (cases res) (auto simp: finish_blocks_def io_bind_def io_on_err_def split: sum.split rust_error.split prod.split)

lemma buf_data_neq [simp]:
  "R_BUF_DATA \<noteq> R_INT_STS" "R_BUF_DATA \<noteq> R_RESP31_0" "R_BUF_DATA \<noteq> R_PRESENT_STS" "R_BUF_DATA \<noteq> R_HOST_CTRL1"
  "R_BUF_DATA \<noteq> R_SDMA_SADDR" "R_BUF_DATA \<noteq> R_BLK_SIZE_AND_CNT" "R_BUF_DATA \<noteq> R_ARGUMENT"
  "R_BUF_DATA \<noteq> R_XFER_MODE_AND_CMD"
  by (simp_all add: sdmmc_reg_defs R_BUF_DATA_def R_SDMA_SADDR_def R_BLK_SIZE_AND_CNT_def)

lemma give_back:
  assumes b: "dma_bus e d view" and log: "R_BUF_DATA \<notin> set log"
  shows "io_triple (final_at view (Some ()) ctl js J h)
    (io_bind (write_reg (sd_regs e) R_HOST_CTRL1 v) (\<lambda>_. io_bind (io_do release_dma) (\<lambda>_.
       finish_blocks (sd_regs e) res log)))
    (\<lambda>_ s. final_at view None v js J h s \<and> res = ok ()) (final_at view None v js J h)"
proof (rule tripleI)
  let ?F = "final_at view None v js J h"
  fix s r s' assume f: "final_at view (Some ()) ctl js J h s"
    and r: "io_bind (write_reg (sd_regs e) R_HOST_CTRL1 v) (\<lambda>_. io_bind (io_do release_dma) (\<lambda>_.
       finish_blocks (sd_regs e) res log)) s = (r, s')"
  let ?s = "release_dma (mmio_write (sd_regs e) R_HOST_CTRL1 v s)"
  have fin: "finish_blocks (sd_regs e) res log ?s = (r, s')" using r by (simp add: io_bind_def write_reg_def)
  have "?F ?s" by (rule release_buffer [OF restore_ctrl [OF b f]])
  then have "?F s'" by (rule preservesD [OF finish_stable [OF b stable_final log] _ fin])
  then show "case r of Inr x \<Rightarrow> ?F s' \<and> res = ok () | Inl _ \<Rightarrow> ?F s'"
    using finish_err [of res "sd_regs e" log ?s] fin by (auto split: sum.split)
qed

lemma cache_ok: "cache_lines instr (ok ls) = io_for (\<lambda>l. io_do (instr l)) ls"
  by (rule ext) (simp add: cache_lines_def io_bind_def)

end
