(* ===== verification/Cmd53_Blocks.thy ===== *)
theory Cmd53_Blocks
  imports Cmd53_Dma
begin

text \<open>
  The two block transfers as a whole: what a block write hands to the controller, what a block read
  brings back, and that every exit gives back the DMA buffer and the host control register.
\<close>

section \<open>Block writes\<close>

text \<open>
  (C6) Block write over DMA: a call that finds the buffer free and the engine idle gives back the
  buffer and the host control register on every path. Either no command was issued and the call
  failed, or exactly one was: a block-mode CMD53 write of \<open>n\<close> blocks from the buffer's address, at
  the moment of whose issue the memory there (not only the cache) held the caller's bytes.
\<close>

theorem cmd53_write_blocks_hands_over:
  assumes b: "dma_bus e d view" and base: "0 < de_base d" "de_base d + DMA_POOL_SIZE \<le> 2 ^ 32"
    and n: "1 \<le> n" "n \<le> 511" "unat n * 512 \<le> length buf"
    and s: "DMA_POOL s = None" "\<not> v_busy (view (host_irq.more s))"
    and r: "cmd53_write_blocks e d addr buf n s = (r, s')"
  shows "DMA_POOL s' = None \<and>
    v_reg (view (host_irq.more s')) R_HOST_CTRL1 = v_reg (view (host_irq.more s)) R_HOST_CTRL1 \<and>
    (r \<noteq> ok () \<and> v_issued (view (host_irq.more s')) = v_issued (view (host_irq.more s)) \<or>
     (\<exists>j. v_issued (view (host_irq.more s')) = v_issued (view (host_irq.more s)) @ [j] \<and>
        block_job True addr n (de_base d) j \<and>
        buffer_bytes (job_ram j) (de_base d) (unat n * 512) = take (unat n * 512) buf))"
proof -
  let ?base = "de_base d" and ?k = "unat n * 512" and ?m = "sd_regs e"
  let ?rg = "v_reg (view (host_irq.more s))" and ?js = "v_issued (view (host_irq.more s))"
  let ?B = "take ?k buf" and ?A = "{?base ..< ?base + ?k}"
  let ?J = "\<lambda>j. block_job True addr n ?base j \<and> buffer_bytes (job_ram j) ?base ?k = ?B"
  let ?P = "bus_at view None ?rg ?js True {} {} (\<lambda>_. 0)" and ?P1 = "\<lambda>C A. bus_at view (Some ()) ?rg ?js True C A"
  let ?I = "\<lambda>ctl. issued_at view (Some ()) ctl ?js ?J" and ?F = "issued_at view None (?rg R_HOST_CTRL1) ?js ?J"
  let ?E = "\<lambda>s. bus_rest view None (?rg R_HOST_CTRL1) ?js s \<or> ?F s"
  have E: "?P s \<Longrightarrow> ?E s" for s by (simp add: bus_at_def bus_rest_def Let_def)
  note P = stable_parts [OF b stable_at] quiet_waits [OF stable_quiet [OF b stable_at]]
  note I = stable_parts [OF b stable_issued] quiet_parts [OF stable_quiet [OF b stable_issued]] preserves_intros irq_waits [OF b]
  obtain ls where ls: "dma_flush_before_write (word_of_nat ?base) (word_of_nat ?k) = ok ls"
    "?A \<subseteq> {a. \<exists>l \<in> set ls. a div 64 = unat l div 64}" using buffer_lines [OF base n(1,2)] by auto
  have bytes: "buffer_bytes mem ?base ?k = ?B" if "\<forall>a \<in> ?A. mem a = ?B ! (a - ?base)" for mem
    using that n(3) by (auto simp: buffer_bytes_def intro!: nth_equalityI)
  have store: "io_triple (?P1 {} {} (\<lambda>_. 0)) (io_do (de_store d ?base ?B)) (\<lambda>_. ?P1 ?A {} (\<lambda>a. ?B ! (a - ?base))) ?E"
    using store_buffer [OF b, where p = ?base and bs = ?B] n(3) by simp
  have clean: "io_triple (?P1 ?A {} (\<lambda>a. ?B ! (a - ?base)))
      (cache_lines (de_clean d) (dma_flush_before_write (word_of_nat ?base) (word_of_nat ?k)))
      (\<lambda>_. ?P1 ?A ?A (\<lambda>a. ?B ! (a - ?base))) ?E"
    unfolding ls(1) cache_ok by (rule triple_weaken [OF clean_lines [OF b, where C = ?A and A = "{}" and
          mem = "\<lambda>a. ?B ! (a - ?base)" and pool = "Some ()" and rg = ?rg and js = ?js and ls = ls]])
      (use ls(2) in \<open>auto simp: bus_at_def Let_def subset_iff\<close>)
  have start: "io_triple (?P1 ?A ?A (\<lambda>a. ?B ! (a - ?base))) (start_blocks e d True addr n ?base ctl log)
      (\<lambda>_. ?I (ctl AND NOT (push_bit 3 3))) ?E" if "R_BUF_DATA \<notin> set log" for ctl log
    by (rule triple_weaken [OF start_blocks_issues [OF b n(2) _ that]])
      (use base bytes in \<open>auto simp: issued_at_def DMA_POOL_SIZE_def\<close>)
  have "io_triple ?P (cmd53_write_blocks e d addr buf n) (\<lambda>_. ?F) ?E"
    unfolding cmd53_write_blocks_def Let_def
    apply (rule triple_if, use n in simp)
    apply (rule triple_step, rule P, erule E)
    apply (rule triple_step, rule P, erule E)
    apply (rule triple_if, rule triple_fail, erule E)
    apply (rule triple_bind [OF alloc_block_buffer [OF base(1) n(1,2)]], rule triple_conj, simp only: case_prod_conv)
    apply (rule triple_bind [OF store], rule triple_bind [OF clean])
    apply (rule triple_bind [OF read_ctrl [OF b]], rule triple_conj, simp only:)
    apply (rule triple_bind [OF start], simp)
    apply (rule triple_sure, rule I, simp, rule sure_intros)
    apply (rule triple_bind [OF triple_try], rule I, rule plain_parts, rule triple_conj)
    apply (rule triple_sure, rule I, simp, rule sure_intros)
    apply (rule triple_bind [OF triple_try], (intro I)[1], (intro plain_bind plain_parts, assumption)[1], rule triple_conj)
    apply (rule triple_sure, rule I, simp, rule sure_intros)
    apply (rule triple_bind [OF triple_try], (intro I)[1], (intro plain_bind plain_parts, assumption)[1], rule triple_conj)
    apply (rule triple_weaken [OF give_back [OF b, where h = None]], simp, simp add: final_at_def,
        simp add: final_at_def, simp add: final_at_def)
    done
  from tripleD [OF this _ r] have "case r of Inr x \<Rightarrow> ?F s' | Inl _ \<Rightarrow> ?E s'"
    using s by (simp add: bus_at_def Let_def)
  then show ?thesis by (cases r) (auto simp: bus_rest_def issued_at_def Let_def)
qed

section \<open>Block reads\<close>

definition coherent_at ::
  "('z \<Rightarrow> bus_view) \<Rightarrow> unit option \<Rightarrow> u32 \<Rightarrow> job list \<Rightarrow> (job \<Rightarrow> bool) \<Rightarrow> nat set \<Rightarrow> 'z host_irq_scheme \<Rightarrow> bool" where
  "coherent_at view pool ctl js J A s \<longleftrightarrow> issued_at view pool ctl js J s \<and> \<not> v_busy (view (host_irq.more s)) \<and>
     (\<forall>a \<in> A. v_cpu (view (host_irq.more s)) a = v_ram (view (host_irq.more s)) a)"

lemma invalidate_line:
  assumes b: "dma_bus e d view" and c: "coherent_at view pool ctl js J A s"
  shows "coherent_at view pool ctl js J (A \<union> {a. a div 64 = unat l div 64}) (de_invalidate d l s)"
proof -
  let ?v = "view (host_irq.more s)" and ?s' = "de_invalidate d l s"
  let ?v' = "view (host_irq.more ?s')"
  have "let v = ?v; v' = ?v' in
        DMA_POOL ?s' = DMA_POOL s \<and> v_reg v' = v_reg v \<and> v_issued v' = v_issued v \<and>
        (v_busy v' \<longrightarrow> v_busy v) \<and> (\<forall>a. \<not> v_busy v \<longrightarrow> (if a div 64 = unat l div 64 then v_cpu v' a = v_ram v' a
             else v_cpu v' a = v_cpu v a \<and> (v_ram v' a = v_ram v a \<or> v_ram v' a = v_cpu v a)))"
    using b unfolding dma_bus_def by blast
  then have "issued_at view pool ctl js J ?s'" "\<not> v_busy ?v'"
    "\<And>a. if a div 64 = unat l div 64 then v_cpu ?v' a = v_ram ?v' a
       else v_cpu ?v' a = v_cpu ?v a \<and> (v_ram ?v' a = v_ram ?v a \<or> v_ram ?v' a = v_cpu ?v a)"
    using c by (auto simp: coherent_at_def issued_at_def bus_rest_def Let_def)
  moreover from this(3) have "v_cpu ?v' a = v_ram ?v' a" if "a \<in> A \<union> {a. a div 64 = unat l div 64}" for a
    using c that unfolding coherent_at_def by (metis (mono_tags, lifting) UnE mem_Collect_eq)
  ultimately show ?thesis by (simp add: coherent_at_def)
qed

lemma invalidate_lines:
  assumes b: "dma_bus e d view"
  shows "io_triple (coherent_at view pool ctl js J A) (io_for (\<lambda>l. io_do (de_invalidate d l)) ls)
    (\<lambda>_. coherent_at view pool ctl js J (A \<union> {a. \<exists>l \<in> set ls. a div 64 = unat l div 64})) E"
proof (induction ls arbitrary: A)
  case Nil
  then show ?case by (simp add: io_triple_def)
next
  case (Cons l ls)
  let ?L = "{a. a div 64 = unat l div 64}"
  have "io_triple (coherent_at view pool ctl js J A) (io_do (de_invalidate d l))
      (\<lambda>_. coherent_at view pool ctl js J (A \<union> ?L)) E"
    by (rule triple_do) (rule invalidate_line [OF b])
  from triple_bind [OF this Cons.IH]
  have "io_triple (coherent_at view pool ctl js J A) (io_for (\<lambda>l. io_do (de_invalidate d l)) (l # ls))
    (\<lambda>_. coherent_at view pool ctl js J (A \<union> ?L \<union> {a. \<exists>l \<in> set ls. a div 64 = unat l div 64})) E"
    by (simp only: io_for.simps)
  moreover have "A \<union> ?L \<union> {a. \<exists>l \<in> set ls. a div 64 = unat l div 64} =
      A \<union> {a. \<exists>l \<in> set (l # ls). a div 64 = unat l div 64}" by auto
  ultimately show ?case by metis
qed

lemma irq_wait_idle:
  assumes b: "dma_bus e d view"
  shows "io_triple (issued_at view pool ctl js J)
    (io_try (io_bind (wait_cmd_complete_irq e) (\<lambda>_. io_bind (wait_dma_complete_irq e) (\<lambda>_. r5_check (sd_regs e)))))
    (\<lambda>x s. issued_at view pool ctl js J s \<and> (x = ok () \<longrightarrow> \<not> v_busy (view (host_irq.more s)))) E"
proof -
  let ?P = "issued_at view pool ctl js J" and ?C = "final_at view pool ctl js J (Some ({}, \<lambda>_. 0))"
  have dma: "io_triple ?P (wait_dma_complete_irq e) (\<lambda>_. ?C) ?P"
  proof (rule tripleI)
    fix s r s' assume s: "?P s" "wait_dma_complete_irq e s = (r, s')"
    then have P: "?P s'" using preservesD [OF irq_waits(2) [OF b]] by blast
    obtain t s1 where w: "wait_timeout (sd_wq e) HOST_DMA_DONE_QUEUE WAIT_CMD_DMA_IRQ_TIMEOUT_MS s = (t, s1)" by fastforce
    have "let (timed_out, s') = wait_timeout (sd_wq e) HOST_DMA_DONE_QUEUE WAIT_CMD_DMA_IRQ_TIMEOUT_MS s;
        v = view (host_irq.more s); v' = view (host_irq.more s') in
        DMA_POOL s' = DMA_POOL s \<and> v_reg v' R_HOST_CTRL1 = v_reg v R_HOST_CTRL1 \<and> v_issued v' = v_issued v \<and>
        (HOST_DMA_DONE_QUEUE = HOST_DMA_DONE_QUEUE \<and> \<not> timed_out \<and> HOST_DMA_RESULT s' = 0 \<longrightarrow> \<not> v_busy v')"
      using b unfolding dma_bus_def by blast
    with s(2) w have "r = ok () \<Longrightarrow> \<not> v_busy (view (host_irq.more s'))"
      by (auto simp: wait_dma_complete_irq_def result_of_def split: if_splits)
    with P show "case r of Inr x \<Rightarrow> ?C s' | Inl _ \<Rightarrow> ?P s'" by (auto simp: final_at_def mem_at_def split: sum.split)
  qed
  have "io_triple ?P (io_bind (wait_cmd_complete_irq e) (\<lambda>_. io_bind (wait_dma_complete_irq e) (\<lambda>_. r5_check (sd_regs e))))
      (\<lambda>_. ?C) ?P" (is "io_triple _ ?f _ _")
    by (rule triple_step, rule irq_waits [OF b], assumption, rule triple_bind [OF dma], rule triple_preserves,
        rule quiet_parts [OF stable_quiet [OF b stable_final]], simp add: final_at_def)
  from triple_try_post [OF this] show ?thesis
    by (rule triple_weaken, intro plain_bind plain_parts) (auto simp: final_at_def mem_at_def split: if_splits)
qed

text \<open>The buffer after a read: \<open>mem\<close> in its first \<open>n\<close> bytes, the rest as it was.\<close>

definition filled_at ::
  "('z \<Rightarrow> bus_view) \<Rightarrow> unit option \<Rightarrow> u32 \<Rightarrow> job list \<Rightarrow> (job \<Rightarrow> bool) \<Rightarrow> nat \<Rightarrow> nat \<Rightarrow> byte list \<Rightarrow> (nat \<Rightarrow> byte)
   \<Rightarrow> byte list \<times> 'z host_irq_scheme \<Rightarrow> bool" where
  "filled_at view pool ctl js J base n buf mem =
     with_buf (buffer_bytes mem base n @ drop n buf) (final_at view pool ctl js J (Some ({base ..< base + n}, mem)))"

lemma take_dma_data_fills:
  assumes b: "dma_bus e d view" and base: "0 < base" "base + DMA_POOL_SIZE \<le> 2 ^ 32"
    and n: "1 \<le> n" "n \<le> (511 :: u32)" "unat n * 512 \<le> length buf"
  shows "io_triple (with_buf buf (coherent_at view pool ctl js J {})) (take_dma_data d base (unat n * 512))
    (\<lambda>_ bs. \<exists>mem. filled_at view pool ctl js J base (unat n * 512) buf mem bs) E"
proof -
  let ?k = "unat n * 512" and ?A = "{base ..< base + unat n * 512}"
  let ?C = "coherent_at view pool ctl js J ?A"
  obtain ls where ls: "dma_invalidate_after_read (word_of_nat base) (word_of_nat ?k) = ok ls"
    "?A \<subseteq> {a. \<exists>l \<in> set ls. a div 64 = unat l div 64}" using buffer_lines [OF base n(1,2)] by auto
  have "io_triple (coherent_at view pool ctl js J {}) (cache_lines (de_invalidate d) (ok ls)) (\<lambda>_. ?C) (\<lambda>_. False)"
    unfolding cache_ok by (rule triple_weaken [OF invalidate_lines [OF b, where A = "{}"]])
      (use ls(2) in \<open>auto simp: coherent_at_def subset_iff\<close>)
  then have inv: "io_triple (with_buf buf (coherent_at view pool ctl js J {}))
      (on_snd (cache_lines (de_invalidate d) (ok ls))) (\<lambda>_. with_buf buf ?C) E" by (rule triple_on_snd) simp
  have load: "filled_at view pool ctl js J base ?k buf (v_cpu (view (host_irq.more s)))
      (de_load d base ?k s @ drop ?k buf, s)" if "?C s" for s
    using that by (auto simp: filled_at_def with_buf_def buffer_bytes_def dma_busD(13) [OF b] final_at_def mem_at_def
        coherent_at_def)
  show ?thesis
    unfolding take_dma_data_def ls(1)
  proof (rule triple_bind [OF inv], rule tripleI)
    fix u bs r bs'
    assume bs: "with_buf buf ?C bs" and r: "(\<lambda>(buf, s). case slice_set 0 ?k (de_load d base ?k s) buf of
        Inl x \<Rightarrow> (Inl x, (buf, s)) | Inr buf' \<Rightarrow> (ok (), (buf', s))) bs = (r, bs')"
    obtain s where s: "bs = (buf, s)" "?C s" using bs by (cases bs) (simp add: with_buf_def)
    have "length (de_load d base ?k s) = ?k" by (simp add: dma_busD(13) [OF b])
    then have "r = ok ()" "bs' = (de_load d base ?k s @ drop ?k buf, s)"
      using r n(3) by (simp_all add: s slice_set_ok)
    with load [OF s(2)] show "case r of Inr x \<Rightarrow> \<exists>mem. filled_at view pool ctl js J base ?k buf mem bs' | Inl _ \<Rightarrow> E bs'"
      by auto
  qed
qed

text \<open>The end of a block read: the copy when the transfer succeeded, then what every exit does.\<close>

lemma read_end:
  assumes b: "dma_bus e d view" and base: "0 < de_base d" "de_base d + DMA_POOL_SIZE \<le> 2 ^ 32"
    and n: "1 \<le> n" "n \<le> (511 :: u32)" "unat n * 512 \<le> length buf"
  shows "io_triple (with_buf buf (\<lambda>s. issued_at view (Some ()) ctl js J s \<and>
      (res = ok () \<longrightarrow> \<not> v_busy (view (host_irq.more s)))))
    (io_bind (if res = ok () then take_dma_data d (de_base d) (unat n * 512) else io_return ()) (\<lambda>_.
     io_bind (on_snd (write_reg (sd_regs e) R_HOST_CTRL1 v)) (\<lambda>_.
     io_bind (on_snd (io_do release_dma)) (\<lambda>_. on_snd (finish_blocks (sd_regs e) res [])))))
    (\<lambda>_ bs. \<exists>mem. filled_at view None v js J (de_base d) (unat n * 512) buf mem bs)
    (\<lambda>bs. Err bs \<or> with_buf buf (final_at view None v js J None) bs \<or>
       (\<exists>mem. filled_at view None v js J (de_base d) (unat n * 512) buf mem bs))"
    (is "io_triple ?P (io_bind ?copy (\<lambda>_. ?rest)) ?Q ?E")
proof -
  have rest: "?rest = on_snd (io_bind (write_reg (sd_regs e) R_HOST_CTRL1 v) (\<lambda>_. io_bind (io_do release_dma) (\<lambda>_.
      finish_blocks (sd_regs e) res [])))" by (simp only: on_snd_bind)
  have return: "io_triple (with_buf b' (final_at view (Some ()) ctl js J h)) ?rest
      (\<lambda>_. with_buf b' (\<lambda>s. final_at view None v js J h s \<and> res = ok ())) (with_buf b' (final_at view None v js J h))" for b' h
    unfolding rest by (rule triple_on_snd [OF give_back [OF b]]) (simp_all add: with_buf_def)
  show ?thesis
  proof (cases "res = ok ()")
    case True
    have copy: "io_triple (with_buf buf (coherent_at view (Some ()) ctl js J {}))
        (take_dma_data d (de_base d) (unat n * 512))
        (\<lambda>_ bs. \<exists>mem. filled_at view (Some ()) ctl js J (de_base d) (unat n * 512) buf mem bs) ?E"
      by (rule take_dma_data_fills [OF b base n])
    have rest: "io_triple (filled_at view (Some ()) ctl js J (de_base d) (unat n * 512) buf mem) ?rest ?Q ?E" for mem
      unfolding filled_at_def by (rule triple_weaken [OF return]) (auto simp: with_buf_def)
    have "io_triple (with_buf buf (coherent_at view (Some ()) ctl js J {}))
        (io_bind (take_dma_data d (de_base d) (unat n * 512)) (\<lambda>_. ?rest)) ?Q ?E"
      by (rule triple_bind [OF copy triple_ex [OF rest]])
    then show ?thesis using True by (auto elim!: triple_weaken simp: with_buf_def coherent_at_def)
  next
    case False
    have "io_bind (io_return ()) (\<lambda>_. ?rest) = ?rest" by (rule ext) (simp add: io_bind_def)
    moreover have "io_triple ?P ?rest ?Q ?E"
      by (rule triple_weaken [OF return [of buf None]]) (use False in \<open>auto simp: with_buf_def final_at_def\<close>)
    ultimately show ?thesis using False by simp
  qed
qed

text \<open>
  (C16) Block read over DMA: a call that finds the buffer free gives back the buffer and the host
  control register on every path. A call that succeeds has issued exactly one command, a block-mode
  CMD53 read of \<open>n\<close> blocks to the buffer's address, and has filled the first \<open>512 n\<close> bytes of the
  caller's buffer with what memory holds there (not with stale cache lines), leaving the rest; a call
  that fails has left the caller's buffer as it was or filled it so.
\<close>

theorem cmd53_read_blocks_takes_memory:
  assumes b: "dma_bus e d view" and base: "0 < de_base d" "de_base d + DMA_POOL_SIZE \<le> 2 ^ 32"
    and n: "1 \<le> n" "n \<le> 511" "unat n * 512 \<le> length buf" and s: "DMA_POOL s = None"
    and r: "cmd53_read_blocks e d addr n (buf, s) = (r, (buf', s'))"
  shows "DMA_POOL s' = None \<and>
    v_reg (view (host_irq.more s')) R_HOST_CTRL1 = v_reg (view (host_irq.more s)) R_HOST_CTRL1 \<and>
    (v_issued (view (host_irq.more s')) = v_issued (view (host_irq.more s)) \<or>
     (\<exists>j. v_issued (view (host_irq.more s')) = v_issued (view (host_irq.more s)) @ [j] \<and>
        block_job False addr n (de_base d) j)) \<and>
    (r \<noteq> ok () \<and> buf' = buf \<or>
     v_issued (view (host_irq.more s')) \<noteq> v_issued (view (host_irq.more s)) \<and>
     buf' = buffer_bytes (v_ram (view (host_irq.more s'))) (de_base d) (unat n * 512) @ drop (unat n * 512) buf)"
proof -
  let ?base = "de_base d" and ?k = "unat n * 512" and ?m = "sd_regs e"
  let ?rg = "v_reg (view (host_irq.more s))" and ?js = "v_issued (view (host_irq.more s))"
  let ?J = "block_job False addr n ?base" and ?ctl = "?rg R_HOST_CTRL1 AND NOT (push_bit 3 3)"
  let ?P = "bus_at view None ?rg ?js False {} {} (\<lambda>_. 0)" and ?P1 = "bus_at view (Some ()) ?rg ?js False {} {} (\<lambda>_. 0)"
  let ?I = "issued_at view (Some ()) ?ctl ?js ?J" and ?F = "final_at view None (?rg R_HOST_CTRL1) ?js ?J"
  let ?G = "\<lambda>bs. \<exists>mem. filled_at view None (?rg R_HOST_CTRL1) ?js ?J ?base ?k buf mem bs"
  let ?E = "\<lambda>bs. with_buf buf (bus_rest view None (?rg R_HOST_CTRL1) ?js) bs \<or> with_buf buf (?F None) bs \<or> ?G bs"
  have E: "with_buf buf ?P bs \<Longrightarrow> ?E bs" for bs by (simp add: bus_at_def bus_rest_def with_buf_def Let_def)
  note P = stable_parts [OF b stable_at] quiet_waits [OF stable_quiet [OF b stable_at]]
  have alloc: "io_triple (with_buf buf ?P) (on_snd (alloc_dma d ?k)) (\<lambda>a. with_buf buf (\<lambda>s. ?P1 s \<and> a = (?base, ?base))) ?E"
    by (rule triple_on_snd [OF alloc_block_buffer [OF base(1) n(1,2)], where E = "\<lambda>_. False"]) simp
  have ctrl: "io_triple (with_buf buf ?P1) (on_snd (read_reg ?m R_HOST_CTRL1))
      (\<lambda>x. with_buf buf (\<lambda>s. ?P1 s \<and> x = ?rg R_HOST_CTRL1)) ?E"
    by (rule triple_on_snd [OF read_ctrl [OF b], where E = "\<lambda>_. False"]) simp
  have phys: "?base < 2 ^ 32" using base by (simp add: DMA_POOL_SIZE_def)
  have start: "io_triple (with_buf buf ?P1) (on_snd (start_blocks e d False addr n ?base (?rg R_HOST_CTRL1) []))
      (\<lambda>_. with_buf buf ?I) ?E"
    by (rule triple_on_snd [OF triple_weaken [OF start_blocks_issues [OF b n(2) phys]], where E = "\<lambda>_. False"])
      (auto simp: issued_at_def)
  have wait: "io_triple (with_buf buf ?I) (on_snd (io_try (io_bind (wait_cmd_complete_irq e) (\<lambda>_.
        io_bind (wait_dma_complete_irq e) (\<lambda>_. r5_check ?m)))))
      (\<lambda>x. with_buf buf (\<lambda>s. ?I s \<and> (x = ok () \<longrightarrow> \<not> v_busy (view (host_irq.more s))))) ?E"
    by (rule triple_on_snd [OF irq_wait_idle [OF b], where E = "\<lambda>_. False"]) simp
  have "io_triple (with_buf buf ?P) (read_blocks_body e d addr n) (\<lambda>_. ?G) ?E"
    unfolding read_blocks_body_def Let_def
    apply (rule triple_step, (intro preserves_intros P)[1], erule E)
    apply (rule triple_step, (intro preserves_intros P)[1], erule E)
    apply (rule triple_if, rule triple_fail, erule E)
    apply (rule triple_bind [OF alloc], simp only: with_buf_conj, rule triple_conj, simp only: case_prod_conv)
    apply (rule triple_bind [OF ctrl], simp only: with_buf_conj, rule triple_conj, simp only:)
    apply (rule triple_bind [OF start], rule triple_bind [OF wait], rule read_end [OF b base n])
    done
  moreover have "read_blocks_body e d addr n (buf, s) = (r, (buf', s'))"
    using r n by (simp add: cmd53_read_blocks_def)
  moreover have "with_buf buf ?P (buf, s)" using s by (simp add: with_buf_def bus_at_def Let_def)
  ultimately have "case r of Inr x \<Rightarrow> ?G (buf', s') | Inl _ \<Rightarrow> ?E (buf', s')" by (intro tripleD)
  then have "?G (buf', s') \<or> r \<noteq> ok () \<and> ?E (buf', s')" by (cases r) auto
  moreover have "buffer_bytes mem ?base ?k = buffer_bytes (v_ram (view (host_irq.more s'))) ?base ?k"
    if "filled_at view None (?rg R_HOST_CTRL1) ?js ?J ?base ?k buf mem (buf', s')" for mem
    using that by (simp add: filled_at_def with_buf_def final_at_def mem_at_def buffer_bytes_def)
  ultimately show ?thesis
    by (auto simp: with_buf_def filled_at_def final_at_def issued_at_def bus_rest_def Let_def)
qed

section \<open>A controller that completes every transfer\<close>

definition dma_bank :: "bus_view host_irq_scheme sd1" where
  "dma_bank =
     \<lparr>sd_regs = \<lparr>mmio_read = (\<lambda>off s. (if off = R_HOST_CTRL1 then v_reg (host_irq.more s) off else 0, s)),
        mmio_write = (\<lambda>off v. host_irq.more_update (if off \<in> data_regs then v_reg_update (\<lambda>r. r(off := v)) else id)),
        mmio_sleep_ms = (\<lambda>n s. s)\<rparr>,
      sd_wq = \<lparr>notify_one = (\<lambda>q b s. s),
        wait_timeout = (\<lambda>q n s. (False, host_irq.more_update (v_busy_update (\<lambda>_. False))
           (s\<lparr>HOST_CMD_RESULT := 0, HOST_DMA_RESULT := 0\<rparr>)))\<rparr>\<rparr>"

definition dma_bank_env :: "bus_view host_irq_scheme dma_env" where
  "dma_bank_env =
     \<lparr>de_write8 = (\<lambda>off v s. s),
      de_write16 = (\<lambda>off v. host_irq.more_update
         (if off = R_TRANSFER_MODE then v_mode_update (\<lambda>_. v) else if off = R_COMMAND then issue v else id)),
      de_base = 0x1000,
      de_store = (\<lambda>p bs. host_irq.more_update (v_cpu_update (put_bytes p bs))),
      de_load = (\<lambda>p n s. map (v_cpu (host_irq.more s)) [p ..< p + n]),
      de_clean = (\<lambda>l. host_irq.more_update
         (\<lambda>v. v\<lparr>v_ram := (\<lambda>a. if a div 64 = unat l div 64 then v_cpu v a else v_ram v a)\<rparr>)),
      de_invalidate = (\<lambda>l. host_irq.more_update
         (\<lambda>v. v\<lparr>v_cpu := (\<lambda>a. if a div 64 = unat l div 64 then v_ram v a else v_cpu v a)\<rparr>))\<rparr>"

lemma dma_bus_bank: "dma_bus dma_bank dma_bank_env id"
  unfolding dma_bus_def
  by (intro conjI)
    (simp_all add: dma_bank_def dma_bank_env_def bus_step_def settles_def issue_def Let_def R_TRANSFER_MODE_def R_COMMAND_def)

definition dma_state :: "(nat \<Rightarrow> byte) \<Rightarrow> bus_view host_irq_scheme" where
  "dma_state ram = \<lparr>USE_SOFT_IRQ_WAKE = False, SDIO_IRQ_REGISTER_ONCE = True, SDIO_IRQ_PENDING = False,
     HOST_TRANSFER_CMD_PENDING = False, HOST_TRANSFER_DMA_PENDING = False, HOST_DMA_BASE_PHYS = 0,
     HOST_DMA_TOTAL = 0, HOST_DMA_BYTES_XFERRED = 0, HOST_CMD_RESULT = 0, HOST_DMA_RESULT = 0, DMA_POOL = None,
     \<dots> = \<lparr>v_reg = (\<lambda>_. 0), v_mode = 0, v_cpu = (\<lambda>_. 0), v_ram = ram, v_busy = False, v_issued = []\<rparr>\<rparr>"

lemma bank_same:
  "wait_not_inhibit (sd_regs dma_bank) s = (ok (), s)" "process_sdio_pending_irqs_if_set dma_bank s = (ok False, s)"
  "clear_int_status (sd_regs dma_bank) s = (ok (), s)" "r5_check (sd_regs dma_bank) s = (ok (), s)"
  "log_regs (sd_regs dma_bank) offs s = (ok (), s)"
  "finish_blocks (sd_regs dma_bank) (ok ()) log s = (ok (), s)"
proof -
  have r: "read_reg (sd_regs dma_bank) off s = (ok (if off = R_HOST_CTRL1 then v_reg (host_irq.more s) off else 0), s)" for off s
    by (simp add: read_reg_def dma_bank_def)
  have ne: "R_INT_STS \<noteq> R_HOST_CTRL1" "R_PRESENT_STS \<noteq> R_HOST_CTRL1" "R_RESP31_0 \<noteq> R_HOST_CTRL1"
    by (simp_all add: sdmmc_reg_defs)
  have "0 < k \<Longrightarrow> inhibit_loop (sd_regs dma_bank) k s = (ok (), s)" for k s
    by (cases k) (simp_all add: io_bind_def r ne)
  then have w: "wait_not_inhibit (sd_regs dma_bank) s = (ok (), s)" for s by (simp add: wait_not_inhibit_def)
  have c: "clear_int_status (sd_regs dma_bank) s = (ok (), s)" for s
    by (simp add: clear_int_status_def io_bind_def r ne)
  show "wait_not_inhibit (sd_regs dma_bank) s = (ok (), s)" "clear_int_status (sd_regs dma_bank) s = (ok (), s)"
    by (rule w, rule c)
  show "finish_blocks (sd_regs dma_bank) (ok ()) log s = (ok (), s)"
    by (simp add: finish_blocks_def io_bind_def io_on_err_def w c)
  show "process_sdio_pending_irqs_if_set dma_bank s = (ok False, s)" "r5_check (sd_regs dma_bank) s = (ok (), s)"
    by (simp_all add: process_sdio_pending_irqs_if_set_def r5_check_def r5_failed_def io_bind_def r ne)
  show "log_regs (sd_regs dma_bank) offs s = (ok (), s)"
    unfolding log_regs_def by (induction offs) (simp_all add: io_bind_def r)
qed


lemma bank_returns:
  "returns (\<lambda>_. True) (wait_cmd_complete_irq dma_bank) ()" "returns (\<lambda>_. True) (wait_dma_complete_irq dma_bank) ()"
  "returns (\<lambda>_. True) (r5_check (sd_regs dma_bank)) ()"
  by (simp_all add: returns_def bank_same wait_cmd_complete_irq_def wait_dma_complete_irq_def)
    (simp_all add: dma_bank_def result_of_def)

lemma returns_try: "returns P f x \<Longrightarrow> returns P (io_try f) (ok x)"
  by (fastforce simp: returns_def io_try_def)

lemma returns_start: "never_fails (start_blocks e d wr addr n phys ctl log)"
  unfolding start_blocks_def Let_def write_reg_8_def write_reg_16_def set_transfer_irqs_dma_def
  by (intro sure_intros)

lemma bank_alloc: "alloc_dma dma_bank_env 512 (dma_state ram) = (ok (0x1000, 0x1000), (dma_state ram)\<lparr>DMA_POOL := Some ()\<rparr>)"
  by (simp add: alloc_dma_def alloc_dma_buffer_def dma_bank_env_def dma_state_def DMA_POOL_SIZE_def ok_or_def)

lemma bank_cache:
  "\<exists>ls. dma_flush_before_write 0x1000 512 = ok ls \<and> dma_invalidate_after_read 0x1000 512 = ok ls"
  using buffer_lines [of "0x1000" 1] by (auto simp: DMA_POOL_SIZE_def)

lemma bank_alloc_step:
  assumes "io_triple P (g (0x1000, 0x1000)) Q E" and "P (dma_state ram\<lparr>DMA_POOL := Some ()\<rparr>)"
  shows "io_triple (\<lambda>s. s = dma_state ram) (io_bind (alloc_dma dma_bank_env 512) g) Q E"
  using assms by (auto simp: io_triple_def io_bind_def bank_alloc split: prod.splits sum.splits)

theorem cmd53_write_blocks_hands_over_witness:
  "\<exists>s' j. cmd53_write_blocks dma_bank dma_bank_env 0x107 (replicate 512 7) 1 (dma_state (\<lambda>_. 0)) = (ok (), s') \<and>
     DMA_POOL s' = None \<and> v_issued (host_irq.more s') = [j] \<and> block_job True 0x107 1 0x1000 j \<and>
     buffer_bytes (job_ram j) 0x1000 512 = replicate 512 7"
proof -
  let ?s = "dma_state (\<lambda>_. 0)" and ?T = "\<lambda>s :: bus_view host_irq_scheme. True"
  obtain r s' where r: "cmd53_write_blocks dma_bank dma_bank_env 0x107 (replicate 512 7) 1 ?s = (r, s')" by fastforce
  obtain ls where ls: "dma_flush_before_write 0x1000 512 = ok ls" using bank_cache by blast
  have T: "preserves ?T f" for f :: "(_, 'x) io" by (simp add: preserves_def)
  have "io_triple (\<lambda>s. s = ?s) (cmd53_write_blocks dma_bank dma_bank_env 0x107 (replicate 512 7) 1) (\<lambda>_ _. True) (\<lambda>_. False)"
    unfolding cmd53_write_blocks_def Let_def
    apply (rule triple_if, simp)
    apply (rule triple_returns [OF returns_same], rule bank_same)
    apply (rule triple_returns [OF returns_same], rule bank_same)
    apply (simp only: if_False unsigned_1 mult_1)
    apply (rule bank_alloc_step [where P = ?T], simp only: case_prod_conv)
     apply (rule triple_sure, rule T, rule sure_intros)
     apply (simp only: of_nat_numeral ls cache_ok)
     apply (rule triple_sure, rule T, (intro sure_intros)[1])
     apply (rule triple_sure, rule T, rule sure_intros)
     apply (rule triple_sure, rule T, rule returns_start)
     apply (rule triple_sure, rule T, rule sure_intros)
     apply (rule triple_returns [OF returns_try [OF bank_returns(1)]])
     apply (rule triple_sure, rule T, rule sure_intros)
     apply (rule triple_returns, rule returns_try, rule returns_bind, rule returns_lift, rule bank_returns)
     apply (rule triple_sure, rule T, rule sure_intros)
     apply (rule triple_returns, rule returns_try, rule returns_bind, rule returns_lift, rule bank_returns)
     apply (rule triple_sure, rule T, rule sure_intros)
     apply (rule triple_sure, rule T, rule sure_intros)
     apply (simp_all add: io_triple_def bank_same)
    done
  from tripleD [OF this _ r] have "r = ok ()" by (simp split: sum.splits)
  with cmd53_write_blocks_hands_over [OF dma_bus_bank _ _ _ _ _ _ _ r] r show ?thesis
    by (auto simp: dma_bank_env_def DMA_POOL_SIZE_def dma_state_def)
qed


lemma bank_take: "returns (\<lambda>bs. 512 \<le> length (fst bs)) (take_dma_data dma_bank_env 0x1000 512) ()"
proof -
  obtain ls where ls: "dma_invalidate_after_read 0x1000 512 = ok ls" using bank_cache by blast
  have "never_fails (io_for (\<lambda>l. io_do (de_invalidate dma_bank_env l)) ls)" by (intro sure_intros)
  then have c: "returns (\<lambda>bs. 512 \<le> length (fst bs)) (on_snd (cache_lines (de_invalidate dma_bank_env) (ok ls))) ()"
    unfolding cache_ok by (intro returns_snd) (auto simp: never_fails_def)
  show ?thesis
    unfolding take_dma_data_def of_nat_numeral ls
    by (rule returns_bind [OF c]) (auto simp: returns_def slice_set_ok dma_bank_env_def)
qed

theorem cmd53_read_blocks_takes_memory_witness:
  "\<exists>s'. cmd53_read_blocks dma_bank dma_bank_env 0x107 1 (replicate 513 9, dma_state (\<lambda>_. 5)) =
     (ok (), (buffer_bytes (v_ram (host_irq.more s')) 0x1000 512 @ [9], s')) \<and> DMA_POOL s' = None"
proof -
  let ?s = "dma_state (\<lambda>_. 5)" and ?b = "replicate 513 (9 :: byte)" and ?m = "sd_regs dma_bank"
  let ?L = "\<lambda>bs :: byte list \<times> bus_view host_irq_scheme. 512 \<le> length (fst bs)"
  let ?wait = "io_bind (wait_cmd_complete_irq dma_bank) (\<lambda>_. io_bind (wait_dma_complete_irq dma_bank) (\<lambda>_. r5_check ?m))"
  obtain r b' s' where r: "cmd53_read_blocks dma_bank dma_bank_env 0x107 1 (?b, ?s) = (r, (b', s'))"
    by (metis prod.exhaust)
  have L: "preserves ?L (on_snd f)" for f :: "(_, 'x) io" by (auto simp: preserves_def on_snd_def split: prod.splits)
  have "returns (\<lambda>_. True) ?wait ()" by (rule returns_bind [OF bank_returns(1) returns_bind [OF bank_returns(2,3)]])
  then have "\<exists>s'. io_try ?wait s = (ok (ok ()), s')" for s
    using returns_try [of "\<lambda>_. True" ?wait "()"] by (simp only: returns_def simp_thms)
  then have wait: "returns ?L (on_snd (io_try ?wait)) (ok ())" by (rule returns_snd)
  have run: "io_triple (\<lambda>bs. bs = (?b, ?s)) (read_blocks_body dma_bank dma_bank_env 0x107 1) (\<lambda>_ _. True) (\<lambda>_. False)"
    unfolding read_blocks_body_def Let_def
    apply (rule triple_returns [OF returns_same [where x = "()"]], simp add: on_snd_def bank_same split: prod.split)
    apply (rule triple_returns [OF returns_same [where x = False]], simp add: on_snd_def bank_same split: prod.split)
    apply (simp only: if_False unsigned_1 mult_1)
    apply (rule triple_bind [of _ _ "\<lambda>x bs. ?L bs \<and> x = (0x1000, 0x1000)"], simp add: io_triple_def on_snd_def bank_alloc)
    apply (rule triple_conj, simp only: case_prod_conv)
    apply (rule triple_sure, rule L, intro sure_intros)
    apply (rule triple_sure, rule L, rule sure_on_snd, rule returns_start)
    apply (rule triple_returns [OF wait], simp only: if_True simp_thms)
    apply (rule triple_returns [OF bank_take])
    apply (rule triple_sure, rule L, intro sure_intros)
    apply (rule triple_sure, rule L, intro sure_intros)
    apply (simp add: io_triple_def on_snd_def bank_same split: prod.splits)
    done
  have "read_blocks_body dma_bank dma_bank_env 0x107 1 (?b, ?s) = (r, (b', s'))"
    using r by (simp add: cmd53_read_blocks_def)
  from tripleD [OF run _ this] have "r = ok ()" by (simp split: sum.splits)
  with cmd53_read_blocks_takes_memory [OF dma_bus_bank _ _ _ _ _ _ r] r show ?thesis
    by (auto simp: dma_bank_env_def DMA_POOL_SIZE_def dma_state_def)
qed

end
