(* ===== verification/Bsp_Func.thy ===== *)
theory Bsp_Func
  imports Backend Mmc
begin

text \<open>
  The BSP side of the \<open>mmc\<close> crate (\<open>driver/bsp/src/sdio/mmc_impl.rs\<close>): the host's bus
  settings, the function reference \<open>BspSdioFuncRef\<close> as an instance of the trait \<open>SdioFunc\<close>, and
  the static SDIO driver with its id table. \<open>m\<close> are the registers of the controller, \<open>h\<close> its
  methods, \<open>d\<close> the device behind the reference.
\<close>

definition BSP_FUNC_BLOCKSIZE :: u16 where "BSP_FUNC_BLOCKSIZE = 512"

definition bsp_set_ios :: "'w mmio \<Rightarrow> aic8800_sdio option \<Rightarrow> mmc_ios \<Rightarrow> ('w, unit) io" where
  "bsp_set_ios m dev ios =
     (case dev of
        None \<Rightarrow> io_fail (Errno (-19))
      | Some _ \<Rightarrow>
          io_bind (set_clock m (ios_clock ios)) (\<lambda>_. set_bus_width m (ios_bus_width ios = FourBit)))"

definition cccr_via_sdio_host :: "'w sdio_host \<Rightarrow> 'w cccr_access" where
  "cccr_via_sdio_host h =
     \<lparr>cccr_read_f0 = (\<lambda>reg. host_read_byte h (ucast reg)),
      cccr_write_f0 = (\<lambda>reg. host_write_byte h (ucast reg))\<rparr>"

definition func_base :: "u8 \<Rightarrow> u32" where
  "func_base num = (if num = 1 then FUNC1_BASE else FUNC2_BASE)"

definition bsp_readsb :: "'w sdio_host \<Rightarrow> u8 \<Rightarrow> u32 \<Rightarrow> nat \<Rightarrow> ('w, nat \<times> byte list) io" where
  "bsp_readsb h num addr n =
     io_bind (io_lift (add_checked (func_base num) addr)) (\<lambda>base w.
       if n = 0 then (ok (0, []), w)
       else case host_read_block h base (replicate n 0) w of
              (Inl e, _, w') \<Rightarrow> (Inl e, w')
            | (Inr _, buf, w') \<Rightarrow> (ok (n, buf), w'))"

definition bsp_writesb :: "'w sdio_host \<Rightarrow> u8 \<Rightarrow> u32 \<Rightarrow> byte list \<Rightarrow> ('w, nat) io" where
  "bsp_writesb h num addr buf =
     io_bind (io_lift (add_checked (func_base num) addr)) (\<lambda>base.
       if buf = [] then io_return 0
       else io_bind (host_write_block h base buf) (\<lambda>_. io_return (length buf)))"

definition BspSdioFuncRef ::
  "'w mmio \<Rightarrow> 'w sdio_host \<Rightarrow> (u32 \<Rightarrow> 'w \<Rightarrow> 'w) \<Rightarrow> aic8800_sdio \<Rightarrow> u8 \<Rightarrow> 'w sdio_func" where
  "BspSdioFuncRef m h delay_ms d num =
     \<lparr>sf_num = num,
      sf_vendor = fst (product_id_to_vid_did (sd_product_id d)),
      sf_device = snd (product_id_to_vid_did (sd_product_id d)),
      sf_class = sdio_class_WLAN,
      sf_cur_blksize = BSP_FUNC_BLOCKSIZE,
      sf_readb = host_readb_base h (func_base num),
      sf_writeb = host_writeb_base h (func_base num),
      sf_read_f0 = (\<lambda>reg. host_read_byte h (ucast reg)),
      sf_write_f0 = (\<lambda>reg. host_write_byte h (ucast reg)),
      sf_readsb = bsp_readsb h num,
      sf_writesb = bsp_writesb h num,
      sf_set_block_size = set_block_size m (ucast num),
      sf_enable_func = sdio_enable_function (cccr_via_sdio_host h) num 100 delay_ms,
      sf_disable_func = sdio_disable_function (cccr_via_sdio_host h) num\<rparr>"

definition AIC_BSP_SDIO_ID_TABLE :: "sdio_device_id list" where
  "AIC_BSP_SDIO_ID_TABLE =
     [device_id_new sdio_class_WLAN VENDOR_AIC8801 DEVICE_AIC8801,
      device_id_new sdio_class_WLAN VENDOR_AIC8800DC DEVICE_AIC8800DC,
      device_id_new sdio_class_WLAN VENDOR_AIC8800D80 DEVICE_AIC8800D80,
      device_id_new sdio_class_WLAN VENDOR_AIC8800D80X2 DEVICE_AIC8800D80X2]"

definition AicBspSdioDriver :: "'w sdio_driver" where
  "AicBspSdioDriver =
     \<lparr>drv_name = ''aicbsp_sdio'', drv_id_table = AIC_BSP_SDIO_ID_TABLE,
      drv_probe = (\<lambda>func. io_return ()), drv_remove = (\<lambda>func. io_return ())\<rparr>"

definition register_aicbsp_sdio_driver :: "'w registry \<Rightarrow> unit result \<times> 'w registry" where
  "register_aicbsp_sdio_driver reg = sdio_register_driver AicBspSdioDriver reg"

definition unregister_aicbsp_sdio_driver :: "'w registry \<Rightarrow> 'w registry" where
  "unregister_aicbsp_sdio_driver reg = sdio_unregister_driver reg"

section \<open>Properties\<close>

lemma id_table_matches:
  "list_ex (\<lambda>tid. device_id_matches tid (func_device_id (BspSdioFuncRef m h delay_ms d num))) AIC_BSP_SDIO_ID_TABLE"
  by (cases "sd_product_id d")
    (simp_all add: AIC_BSP_SDIO_ID_TABLE_def func_device_id_def BspSdioFuncRef_def device_id_new_def
      device_id_matches_def VENDOR_AIC8801_def DEVICE_AIC8801_def VENDOR_AIC8800DC_def DEVICE_AIC8800DC_def
      VENDOR_AIC8800D80_def DEVICE_AIC8800D80_def VENDOR_AIC8800D80X2_def DEVICE_AIC8800D80X2_def
      sdio_class_WLAN_def)

text \<open>
  The BSP driver and the probe fit together: registration on an empty registry succeeds, a
  second one is refused with -16 and changes nothing, and with the driver registered the probe
  of every product the BSP knows succeeds; without it, it fails with -19.
\<close>

theorem bsp_driver_probes_every_product:
  "register_aicbsp_sdio_driver None = (ok (), Some AicBspSdioDriver) \<and>
   register_aicbsp_sdio_driver (Some drv) = (err (-16), Some drv) \<and>
   sdio_try_probe (Some AicBspSdioDriver) (BspSdioFuncRef m h delay_ms d num) w = (ok (), w) \<and>
   sdio_try_probe (unregister_aicbsp_sdio_driver reg) (BspSdioFuncRef m h delay_ms d num) w = (err (-19), w)"
  using id_table_matches [of m h delay_ms d num]
  by (simp add: register_aicbsp_sdio_driver_def sdio_register_driver_def sdio_try_probe_def driver_matches_def
      AicBspSdioDriver_def unregister_aicbsp_sdio_driver_def sdio_unregister_driver_def Let_def)

end
