(* ===== verification/Flow.thy ===== *)
theory Flow
  imports Ipc Sd1_Power Bsp_Func
begin

text \<open>
  The life cycle of the driver (\<open>driver/bsp/src/sdio/flow.rs\<close> from \<open>aicbsp_sdio_init\<close> on, with
  \<open>driver/bsp/src/lib.rs\<close>, \<open>export.rs\<close> and \<open>sync.rs\<close>): bringing up the card, downloading and
  starting the firmware, shutting down, and the entry points \<open>aicbsp_set_subsys\<close>,
  \<open>aicbsp_init\<close>, \<open>aicbsp_exit\<close>. The state adds the global \<open>BSP_INFO\<close> and the registry of the
  \<open>mmc\<close> crate to the cells of \<open>Ipc\<close>.
\<close>

section \<open>State\<close>

datatype bsp_subsys = Bluetooth | Wifi
datatype bsp_pwr_state = PwrOff | PwrOn
datatype cp_mode = Work | Test | MaxMode

fun cp_mode_repr :: "cp_mode \<Rightarrow> u8" where
  "cp_mode_repr Work = 0" | "cp_mode_repr Test = 1" | "cp_mode_repr MaxMode = 2"

record bsp_info =
  info_cpmode :: u8
  info_hwinfo_r :: int
  info_hwinfo :: int
  info_chip_rev :: u8
  info_fwlog_en :: bool

definition bsp_info_default :: bsp_info where
  "bsp_info_default = \<lparr>info_cpmode = 0, info_hwinfo_r = 0, info_hwinfo = 0, info_chip_rev = 0, info_fwlog_en = False\<rparr>"

record 'w bsp_sys =
  sys_info :: bsp_info
  sys_registry :: "'w registry"
  sys_bsp :: "'w bsp"

text \<open>The platform: physical registers, 8-bit writes to the controller, and the environment.\<close>

record 'w platform =
  plat_phys :: "'w mmio"
  plat_write8 :: "nat \<Rightarrow> u8 \<Rightarrow> 'w \<Rightarrow> 'w"
  plat_env :: "'w bsp_env"
  plat_fuel :: nat

definition on_bsp :: "('w bsp, 'a) io \<Rightarrow> ('w bsp_sys, 'a) io" where
  "on_bsp f s = (case f (sys_bsp s) of (r, b) \<Rightarrow> (r, s\<lparr>sys_bsp := b\<rparr>))"

definition on_world :: "('w, 'a) io \<Rightarrow> ('w bsp, 'a) io" where
  "on_world f b = (case f (world b) of (r, w) \<Rightarrow> (r, b\<lparr>world := w\<rparr>))"

abbreviation bad_state :: rust_error where "bad_state \<equiv> Ax BadState"

section \<open>Probe\<close>

definition probe_reset :: "'w bsp \<Rightarrow> 'w bsp" where "probe_reset b = b\<lparr>probe_done := False\<rparr>"
definition probe_signal :: "'w bsp \<Rightarrow> 'w bsp" where "probe_signal b = b\<lparr>probe_done := True\<rparr>"

definition aicbsp_sdio_probe :: "product_id \<Rightarrow> 'w bsp \<Rightarrow> 'w bsp" where
  "aicbsp_sdio_probe pid b = probe_signal (b\<lparr>current_product_id := ucast (product_repr pid)\<rparr>)"

definition probe_from_sdio_cis :: "'w sdio_ops \<Rightarrow> u8 \<Rightarrow> ('w bsp, unit) io" where
  "probe_from_sdio_cis ops func_num =
     io_bind (on_world (identify_chip_from_cis ops func_num)) (\<lambda>pid. io_do (aicbsp_sdio_probe pid))"

section \<open>Bringing up the card\<close>

definition IO_READY_POLL_MS :: nat where "IO_READY_POLL_MS = 2"

text \<open>The IO_READY loop: \<open>k\<close> rounds of 2 ms are left; a last read follows a timeout.\<close>

fun io_ready_loop :: "'w sdio_host \<Rightarrow> (nat \<Rightarrow> 'w \<Rightarrow> 'w) \<Rightarrow> u8 \<Rightarrow> nat \<Rightarrow> ('w, unit) io" where
  "io_ready_loop h delay_ms mask_bits 0 =
     io_bind (io_unwrap_or (host_read_byte h 0x03) 0) (\<lambda>_. io_return ())"
| "io_ready_loop h delay_ms mask_bits (Suc k) =
     io_bind (io_unwrap_or (host_read_byte h 0x03) 0) (\<lambda>io_ready.
       if io_ready AND mask_bits \<noteq> 0 \<or> io_ready AND 0x10 \<noteq> 0 then io_return ()
       else io_bind (io_do (delay_ms IO_READY_POLL_MS)) (\<lambda>_. io_ready_loop h delay_ms mask_bits k))"

definition enable_io_function :: "'w sdio_host \<Rightarrow> (nat \<Rightarrow> 'w \<Rightarrow> 'w) \<Rightarrow> u8 \<Rightarrow> ('w, unit) io" where
  "enable_io_function h delay_ms fbit =
     io_bind (io_map_err (host_read_byte h 0x02) bad_state) (\<lambda>io_enable.
     io_bind (io_map_err (host_write_byte h 0x02 (io_enable OR fbit)) bad_state) (\<lambda>_.
       io_ready_loop h delay_ms fbit 50))"

definition setup_f1_8801 :: "'w mmio \<Rightarrow> 'w sdio_host \<Rightarrow> ('w, unit) io" where
  "setup_f1_8801 m h =
     io_bind (io_map_err (set_block_size m 1 512) bad_state) (\<lambda>_.
     io_bind (io_do (host_delay_us h 100)) (\<lambda>_.
     io_bind (io_map_err (host_write_byte h (0x100 + ucast REG_REGISTER_BLOCK) 1) bad_state) (\<lambda>_.
       io_map_err (host_write_byte h (0x100 + ucast REG_BYTEMODE_ENABLE) 1) bad_state)))"

definition setup_f2_other :: "'w mmio \<Rightarrow> 'w sdio_host \<Rightarrow> ('w, unit) io" where
  "setup_f2_other m h =
     io_bind (enable_4bit_bus m) (\<lambda>_.
     io_bind (io_do (mmio_sleep_ms m 10)) (\<lambda>_.
     io_bind (enable_io_function h (mmio_sleep_ms m) 0x04) (\<lambda>_.
       io_map_err (set_block_size m 2 512) bad_state)))"

text \<open>Steps 1 to 4: enumeration, speed, function 1, CIS, function set-up.\<close>

definition sdio_init_card :: "'w platform \<Rightarrow> ('w bsp, product_id) io" where
  "sdio_init_card p =
     (let m = sd1_mmio (plat_phys p); h = env_host (plat_env p) in
      io_bind (io_map_err (on_world (new_sd1_with_card_init (plat_phys p) (plat_write8 p))) bad_state) (\<lambda>rca.
      io_bind (on_world (read_reg m R_PRESENT_STS)) (\<lambda>_.
      io_bind (on_world (io_unwrap_or (enable_sdio_high_speed m) ())) (\<lambda>_.
      io_bind (on_world (set_clock m 25000000)) (\<lambda>_.
      io_bind (on_world (io_do (mmio_sleep_ms m 2))) (\<lambda>_.
      io_bind (on_world (enable_io_function h (mmio_sleep_ms m) 0x02)) (\<lambda>_.
      io_bind (io_map_err (probe_from_sdio_cis (CisReadOps h) 1) bad_state) (\<lambda>_.
      io_bind (\<lambda>b. (case aicbsp_current_product_id b of None \<Rightarrow> Inl bad_state | Some pid \<Rightarrow> ok pid, b)) (\<lambda>pid.
      io_bind (on_world (if pid = Aic8801 then setup_f1_8801 m h else setup_f2_other m h)) (\<lambda>_.
        io_return pid))))))))))"

text \<open>F1 \<open>INTR_CONFIG\<close> = 7 through \<open>with_sdio\<close>; \<open>claim_irq\<close> only registers the handler.\<close>

definition write_intr_config :: "'w bsp_env \<Rightarrow> 'w bsp \<Rightarrow> unit result option \<times> 'w bsp" where
  "write_intr_config env = with_sdio (\<lambda>d. sd_write_byte (env_host env) (0x100 + ucast REG_INTR_CONFIG) 0x07)"

text \<open>Steps 5 and 5.1: the device object, and the probe of the registered driver.\<close>

definition sdio_init_attach :: "'w platform \<Rightarrow> product_id \<Rightarrow> ('w bsp_sys, unit) io" where
  "sdio_init_attach p pid s =
     (let reg = snd (register_aicbsp_sdio_driver (sys_registry s));
          func = BspSdioFuncRef (sd1_mmio (plat_phys p)) (env_host (plat_env p))
                   (\<lambda>ms. mmio_sleep_ms (plat_phys p) (unat ms)) (Aic8800Sdio_new pid) 1
      in on_bsp (on_world (io_unwrap_or (sdio_try_probe reg func) ()))
           (s\<lparr>sys_registry := reg, sys_bsp := (sys_bsp s)\<lparr>sdio_device := Some (Aic8800Sdio_new pid)\<rparr>\<rparr>))"

text \<open>The command manager, the transmit thread (step 6) and the interrupt of the 8801 (step 7).\<close>

definition sdio_init_bus :: "'w bsp_env \<Rightarrow> product_id \<Rightarrow> ('w bsp, unit) io" where
  "sdio_init_bus env pid =
     io_bind (io_do (\<lambda>b. b\<lparr>cmd_mgr_cell := Some CmdMgr_new\<rparr>)) (\<lambda>_.
     io_bind (io_do (ensure_bustx_thread_started env)) (\<lambda>_ b.
       if pid = Aic8801
       then (case write_intr_config env b of
               (Some (Inl (Panic x)), b') \<Rightarrow> (panic x, b') | (Some (Inl Hang), b') \<Rightarrow> (Inl Hang, b')
             | (_, b') \<Rightarrow> (ok (), b'))
       else (ok (), b)))"

definition aicbsp_sdio_init :: "'w platform \<Rightarrow> ('w bsp_sys, unit) io" where
  "aicbsp_sdio_init p =
     io_bind (io_do (\<lambda>s. s\<lparr>sys_registry := snd (register_aicbsp_sdio_driver (sys_registry s))\<rparr>)) (\<lambda>_.
     io_bind (on_bsp (sdio_init_card p)) (\<lambda>pid.
     io_bind (sdio_init_attach p pid) (\<lambda>_. on_bsp (sdio_init_bus (plat_env p) pid))))"

section \<open>Firmware download\<close>

definition AICBSP_SYSCFG_TBL_8801 :: "(u32 \<times> u32) list" where
  "AICBSP_SYSCFG_TBL_8801 =
     [(0x40500014, 0x00000101), (0x40500018, 0x00000109), (0x40500004, 0x00000010), (0x40040000, 0x00001AC8),
      (0x40040084, 0x00011580), (0x40040080, 0x00000001), (0x40100058, 0x00000000), (0x50000000, 0x03220204),
      (0x50019150, 0x00000002), (0x50017008, 0x00000000)]"

definition aicbsp_system_config_8801 :: "(u32 \<Rightarrow> u32 \<Rightarrow> ('s, unit) io) \<Rightarrow> ('s, unit) io" where
  "aicbsp_system_config_8801 send_one = io_for (\<lambda>(addr, dat). send_one addr dat) AICBSP_SYSCFG_TBL_8801"

definition SYSCFG_TBL_MASKED_8801 :: "(u32 \<times> u32 \<times> u32) list" where
  "SYSCFG_TBL_MASKED_8801 = [(0x40506024, 0x000000FF, 0x000000DF)]"

definition RF_TBL_MASKED_8801 :: "(u32 \<times> u32 \<times> u32) list" where
  "RF_TBL_MASKED_8801 = [(0x40344058, 0x00800000, 0x00000000)]"

definition RD_PATCH_ADDR_8801 :: u32 where "RD_PATCH_ADDR_8801 = RAM_FMAC_FW_ADDR + 0x0180"
definition PATCH_START_ADDR_8801 :: u32 where "PATCH_START_ADDR_8801 = 0x1e6000"
definition PATCH_ADDR_REG_8801 :: u32 where "PATCH_ADDR_REG_8801 = 0x1e5318"
definition PATCH_NUM_REG_8801 :: u32 where "PATCH_NUM_REG_8801 = 0x1e531c"

definition PATCH_TBL_8801 :: "(u32 \<times> u32) list" where
  "PATCH_TBL_8801 = [(0x0104, 0x00000000), (0x004c, 0x0000004B), (0x0050, 0x0011FC00)]"

text \<open>
  The writes of the patch table once \<open>config_base\<close> is known: \<open>write\<close> sends one of them. The sums
  are the checked 32-bit additions of the source.
\<close>

definition patch_entry :: "(u32 \<Rightarrow> u32 \<Rightarrow> ('s, unit) io) \<Rightarrow> u32 \<Rightarrow> nat \<times> u32 \<times> u32 \<Rightarrow> ('s, unit) io" where
  "patch_entry write config_base = (\<lambda>(cnt, off, val).
     let addr = PATCH_START_ADDR_8801 + of_nat cnt * 8 in
     io_bind (io_lift (add_checked off config_base)) (\<lambda>dst.
     io_bind (write addr dst) (\<lambda>_. write (addr + 4) val)))"

definition patch_writes :: "(u32 \<Rightarrow> u32 \<Rightarrow> ('s, unit) io) \<Rightarrow> u32 \<Rightarrow> ('s, unit) io" where
  "patch_writes write config_base =
     io_bind (write PATCH_ADDR_REG_8801 PATCH_START_ADDR_8801) (\<lambda>_.
     io_bind (write PATCH_NUM_REG_8801 (of_nat (length PATCH_TBL_8801 * 2))) (\<lambda>_.
       io_for (patch_entry write config_base) (zip [0..<length PATCH_TBL_8801] PATCH_TBL_8801)))"

definition aicwifi_patch_config_8801_init :: "'w bsp_env \<Rightarrow> product_id \<Rightarrow> u32 \<Rightarrow> ('w bsp, unit) io" where
  "aicwifi_patch_config_8801_init env pid timeout_ms =
     io_bind (send_dbg_mem_read_direct env RD_PATCH_ADDR_8801 timeout_ms pid)
       (patch_writes (\<lambda>addr dat. send_dbg_mem_write_direct env addr dat timeout_ms pid))"

definition aicwifi_patch_config_8801 ::
  "(lmac_msg \<Rightarrow> ('w, unit) io) \<Rightarrow> u32 \<Rightarrow> (cmd_mgr \<times> 'w \<Rightarrow> cmd_mgr \<times> 'w) \<Rightarrow> (nat \<Rightarrow> 'w \<Rightarrow> 'w) \<Rightarrow> ('w \<Rightarrow> 'w)
   \<Rightarrow> (cmd_mgr \<times> 'w, unit) io" where
  "aicwifi_patch_config_8801 tx_fn timeout_ms poll delay idle =
     io_bind (send_dbg_mem_read tx_fn RD_PATCH_ADDR_8801 timeout_ms poll None delay idle)
       (patch_writes (\<lambda>addr dat. send_dbg_mem_write tx_fn addr dat timeout_ms poll None idle))"

definition aicwifi_sys_config_8801 ::
  "(lmac_msg \<Rightarrow> ('w, unit) io) \<Rightarrow> u32 \<Rightarrow> (cmd_mgr \<times> 'w \<Rightarrow> cmd_mgr \<times> 'w) \<Rightarrow> ('w \<Rightarrow> 'w) \<Rightarrow> (cmd_mgr \<times> 'w, unit) io" where
  "aicwifi_sys_config_8801 tx_fn timeout_ms poll idle =
     io_bind (io_for (\<lambda>(addr, msk, dat). send_dbg_mem_mask_write tx_fn addr msk dat timeout_ms poll idle)
                SYSCFG_TBL_MASKED_8801) (\<lambda>_.
       io_for (\<lambda>(addr, msk, dat). send_dbg_mem_mask_write tx_fn addr msk dat timeout_ms poll idle)
         RF_TBL_MASKED_8801)"

subsection \<open>The closures of aicbsp_driver_fw_init\<close>

definition fw_tx_fn :: "'w bsp_env \<Rightarrow> nat \<Rightarrow> product_id \<Rightarrow> lmac_msg \<Rightarrow> ('w bsp, unit) io" where
  "fw_tx_fn env fuel pid msg =
     io_bind (io_lift (serialize_for pid msg (replicate 1536 0))) (\<lambda>(len, buf).
       let send_len = (if pid = Aic8801 then ipc_send_len_8801 len else len) in
       io_bind (io_lift (fill_range len send_len buf)) (\<lambda>buf'.
         if pid = Aic8801
         then io_bind (io_lift (slice_get 0 len buf')) (\<lambda>b. submit_cmd_tx_and_wait_tx_done env fuel b len)
         else (\<lambda>s. case sdio_send env buf' send_len s of
                      (None, s') \<Rightarrow> (err (-5), s')
                    | (Some (Inr _), s') \<Rightarrow> (ok (), s')
                    | (Some (Inl e), s') \<Rightarrow> (Inl e, s'))))"

text \<open>\<open>poll\<close>, called with the manager the caller holds.\<close>

definition fw_poll :: "'w bsp_env \<Rightarrow> cmd_mgr \<times> 'w bsp \<Rightarrow> cmd_mgr \<times> 'w bsp" where
  "fw_poll env = (\<lambda>(m, s).
     case sdio_device s of
       None \<Rightarrow> (m, s)
     | Some d \<Rightarrow>
         (case poll_rx_one (env_host env) d (rx_cbs_of s) (m, world s) of
            (_, (m', w')) \<Rightarrow> (m', s\<lparr>world := w'\<rparr>)))"

definition fw_poll_impl :: "'w bsp_env \<Rightarrow> 'w bsp \<Rightarrow> 'w bsp" where
  "fw_poll_impl env s =
     (case cmd_mgr_cell s of
        None \<Rightarrow> s
      | Some m \<Rightarrow> (case fw_poll env (m, s) of (m', s') \<Rightarrow> s'\<lparr>cmd_mgr_cell := Some m'\<rparr>))"

definition fw_push_fn :: "'w bsp \<Rightarrow> nat option \<times> 'w bsp" where
  "fw_push_fn s = (case with_cmd_mgr (mgr_push DBG_MEM_BLOCK_WRITE_CFM) s of (t, s') \<Rightarrow> (Option.bind t (\<lambda>x. x), s'))"

definition fw_wait_fn :: "'w bsp_env \<Rightarrow> nat \<Rightarrow> ('w bsp, unit) io" where
  "fw_wait_fn env token =
     io_bind (wait_token env 500 (Some (log_f1_block_cnt_flow_ctrl env)) (Some (fw_poll_impl env)) (Some 100) token)
       (\<lambda>_. io_do (\<lambda>s. snd (take_token token (replicate 16 0) s)))"

definition fw_send_one :: "'w bsp_env \<Rightarrow> nat \<Rightarrow> u32 \<Rightarrow> u32 \<Rightarrow> ('w bsp, unit) io" where
  "fw_send_one env fuel addr dat =
     io_bind (io_lift (serialize_8801 (build_dbg_mem_write_req addr dat) (replicate PENDING_CMD_TX_CAP 0))) (\<lambda>(len, buf).
       let send_len = ipc_send_len_8801 len in
       if send_len > length buf then io_fail (Errno (-22))
       else
         io_bind (io_lift (if send_len > len
                           then bind_res (fill_range len (len + TAIL_LEN) buf) (\<lambda>b. fill_range (len + TAIL_LEN) send_len b)
                           else ok buf)) (\<lambda>buf'.
         io_bind (\<lambda>s. case with_cmd_mgr (\<lambda>m. case mgr_push DBG_MEM_WRITE_CFM m of (t, m') \<Rightarrow> (ok_or t (-12), m')) s of
                        (None, s') \<Rightarrow> (err (-5), s') | (Some r, s') \<Rightarrow> (r, s')) (\<lambda>token.
         io_bind (io_lift (slice_get 0 send_len buf')) (\<lambda>b.
         io_bind (submit_cmd_tx_and_wait_tx_done env fuel b send_len) (\<lambda>_.
         io_bind (wait_token env 3000 (Some (log_f1_block_cnt_flow_ctrl env)) None (Some 500) token) (\<lambda>_.
         io_bind (io_do (\<lambda>s. snd (take_token token (replicate 16 0) s))) (\<lambda>_.
           io_do (env_sleep env 10))))))))"

subsection \<open>aicbsp_driver_fw_init\<close>

text \<open>The chip revision and the H flag in the word at \<open>CHIP_REV_MEM_ADDR\<close>.\<close>

fun chip_rev_of :: "product_id \<Rightarrow> u32 \<Rightarrow> u8 \<times> bool" where
  "chip_rev_of Aic8801 memdata = (ucast (drop_bit 16 memdata), False)"
| "chip_rev_of Aic8800D80X2 memdata = (ucast (drop_bit 16 memdata AND 0x3F), False)"
| "chip_rev_of _ memdata = (ucast (drop_bit 16 memdata AND 0x3F), drop_bit 16 memdata AND 0xC0 = 0xC0)"

definition CMD_TIMEOUT_MS :: u32 where "CMD_TIMEOUT_MS = 2000"

text \<open>Start of the threads, the interrupt of the 8801 and the read of the chip revision.\<close>

definition fw_init_start :: "'w bsp_env \<Rightarrow> nat \<Rightarrow> ('w bsp, product_id \<times> u32) io" where
  "fw_init_start env fuel =
     io_bind (\<lambda>s. (case aicbsp_current_product_id s of None \<Rightarrow> Inl bad_state | Some pid \<Rightarrow> ok pid, s)) (\<lambda>pid.
     io_bind (\<lambda>s. (if sdio_device s = None then Inl bad_state else ok (), s)) (\<lambda>_.
     io_bind (io_do (ensure_bustx_thread_started env)) (\<lambda>_.
     io_bind (io_do (ensure_busrx_thread_started env)) (\<lambda>_.
     io_bind (if pid = Aic8801
              then (\<lambda>s. case write_intr_config env s of
                          (Some (Inl (Errno e)), s') \<Rightarrow> (Inl bad_state, s')
                        | (Some (Inl x), s') \<Rightarrow> (Inl x, s')
                        | (_, s') \<Rightarrow> (ok (), s'))
              else io_return ()) (\<lambda>_.
     io_bind (io_do (env_sleep env 200)) (\<lambda>_.
     io_bind (io_map_err
                (send_dbg_mem_read_busrx env fuel CHIP_REV_MEM_ADDR CMD_TIMEOUT_MS
                   (if pid = Aic8801
                    then Some (\<lambda>s. snd (with_sdio (\<lambda>d. read_f1_status (env_host env) [0x102, 0x112, 0x10A]) s))
                    else None)) bad_state) (\<lambda>memdata.
       io_return (pid, memdata))))))))"

text \<open>Steps 2.5 to 3c: system configuration, firmware, patch and patch table.\<close>

definition fw_upload_named :: "'w bsp_env \<Rightarrow> nat \<Rightarrow> product_id \<Rightarrow> string \<Rightarrow> u32 \<Rightarrow> ('w bsp, unit) io" where
  "fw_upload_named env fuel pid name addr s =
     (case get_firmware_by_name (env_embedded env) (wifi_firmware_store s) name of
        None \<Rightarrow> (ok (), s)
      | Some dat \<Rightarrow>
          io_map_err (fw_upload_blocks (fw_tx_fn env fuel pid) addr dat fw_push_fn (fw_wait_fn env)) bad_state s)"

definition RAM_FMAC_FW_PATCH_NAME :: string where "RAM_FMAC_FW_PATCH_NAME = ''fmacfw_patch.bin''"

definition fw_init_load :: "'w bsp_env \<Rightarrow> nat \<Rightarrow> product_id \<Rightarrow> bsp_firmware \<Rightarrow> ('w bsp, unit) io" where
  "fw_init_load env fuel pid fw =
     io_bind (if pid = Aic8801
              then io_map_err (aicbsp_system_config_8801 (fw_send_one env fuel)) bad_state
              else io_return ()) (\<lambda>_.
     io_bind (fw_upload_named env fuel pid (fw_wl_fw fw) RAM_FMAC_FW_ADDR) (\<lambda>_.
     io_bind (if pid = Aic8801
              then fw_upload_named env fuel pid RAM_FMAC_FW_PATCH_NAME RAM_FMAC_FW_PATCH_ADDR
              else io_return ()) (\<lambda>_.
       if pid = Aic8801
       then io_map_err (aicwifi_patch_config_8801_init env pid CMD_TIMEOUT_MS) bad_state
       else io_return ())))"

text \<open>
  Steps 4 and 5 run with \<open>CMD_MGR\<close> locked: the manager is taken out of the cell, where no other
  thread can reach it, and put back at the end.
\<close>

definition with_locked_mgr :: "(cmd_mgr \<times> 'w bsp, 'a) io \<Rightarrow> ('w bsp, 'a) io" where
  "with_locked_mgr f s =
     (case cmd_mgr_cell s of
        None \<Rightarrow> (Inl bad_state, s)
      | Some m \<Rightarrow>
          (case f (m, s\<lparr>cmd_mgr_cell := None\<rparr>) of (r, (m', s')) \<Rightarrow> (r, s'\<lparr>cmd_mgr_cell := Some m'\<rparr>)))"

definition fw_init_finish :: "'w bsp_env \<Rightarrow> nat \<Rightarrow> product_id \<Rightarrow> ('w bsp, unit) io" where
  "fw_init_finish env fuel pid =
     with_locked_mgr
       (io_bind (if pid = Aic8801
                 then io_map_err (aicwifi_sys_config_8801 (fw_tx_fn env fuel pid) CMD_TIMEOUT_MS (fw_poll env) (env_idle env)) bad_state
                 else io_return ()) (\<lambda>_.
        io_map_err (fw_start_app (fw_tx_fn env fuel pid) RAM_FMAC_FW_ADDR HOST_START_APP_AUTO CMD_TIMEOUT_MS
                      (fw_poll env) (env_idle env)) bad_state))"

definition aicbsp_driver_fw_init :: "'w bsp_env \<Rightarrow> nat \<Rightarrow> ('w bsp_sys, unit) io" where
  "aicbsp_driver_fw_init env fuel =
     io_bind (on_bsp (fw_init_start env fuel)) (\<lambda>(pid, memdata).
       let (chip_rev, is_chip_id_h) = chip_rev_of pid memdata in
       io_bind (io_do (\<lambda>s. s\<lparr>sys_info := (sys_info s)\<lparr>info_chip_rev := chip_rev\<rparr>\<rparr>)) (\<lambda>_.
       io_bind (io_lift (case get_firmware_list pid chip_rev is_chip_id_h of
                           None \<Rightarrow> Inl bad_state | Some l \<Rightarrow> ok l)) (\<lambda>fw_list.
       io_bind (\<lambda>s. let cpmode = min (unat (info_cpmode (sys_info s))) 1
                    in (if cpmode < length fw_list then ok (fw_list ! cpmode) else panic IndexRange, s)) (\<lambda>fw.
       io_bind (on_bsp (fw_init_load env fuel pid fw)) (\<lambda>_.
         on_bsp (fw_init_finish env fuel pid))))))"

section \<open>Shutting down\<close>

definition aicbsp_sdio_release :: "('w, unit) io" where
  "aicbsp_sdio_release = io_return ()"

text \<open>
  The threads are told to stop, the driver's \<open>remove\<close> runs, the driver is unregistered, both
  functions are switched off in the card, and the cells are emptied. The two \<open>Once\<close> cells that
  record the start of the threads stay set.
\<close>

definition disable_io_functions :: "'w sdio_host \<Rightarrow> ('w, unit) io" where
  "disable_io_functions h w =
     (case host_read_byte h 0x02 w of
        (Inr io_enable, w') \<Rightarrow>
          io_unwrap_or (host_write_byte h 0x02 (io_enable AND NOT 0x02 AND NOT 0x04)) () w'
      | (Inl (Errno _), w') \<Rightarrow> (ok (), w')
      | (Inl x, w') \<Rightarrow> (Inl x, w'))"

definition exit_clear :: "'w bsp \<Rightarrow> 'w bsp" where
  "exit_clear b = b\<lparr>current_product_id := PRODUCT_ID_NONE, sdio_device := None, cmd_mgr_cell := None\<rparr>"

definition aicbsp_sdio_exit :: "'w platform \<Rightarrow> ('w bsp_sys, unit) io" where
  "aicbsp_sdio_exit p =
     io_bind (on_bsp (io_do (\<lambda>b. b\<lparr>bustx_running := False, busrx_running := False\<rparr>))) (\<lambda>_.
     io_bind (\<lambda>s. on_bsp (\<lambda>b. case sdio_device b of
                       None \<Rightarrow> (ok (), b)
                     | Some d \<Rightarrow> on_world (io_unwrap_or (sdio_driver_remove (sys_registry s)
                         (BspSdioFuncRef (sd1_mmio (plat_phys p)) (env_host (plat_env p))
                            (\<lambda>ms. mmio_sleep_ms (plat_phys p) (unat ms)) d 1)) ()) b) s) (\<lambda>_.
     io_bind (io_do (\<lambda>s. s\<lparr>sys_registry := unregister_aicbsp_sdio_driver (sys_registry s)\<rparr>)) (\<lambda>_.
     io_bind (on_bsp (\<lambda>b. case sdio_device b of
                         None \<Rightarrow> (ok (), b)
                       | Some d \<Rightarrow> on_world (disable_io_functions (env_host (plat_env p))) b)) (\<lambda>_.
       on_bsp (io_do exit_clear)))))"

section \<open>Minimal IPC test\<close>

text \<open>The tick of the wait: three registers are read, and data in the FIFO is received.\<close>

definition minimal_tick :: "'w bsp_env \<Rightarrow> u32 \<Rightarrow> 'w bsp \<Rightarrow> 'w bsp" where
  "minimal_tick env waited_ms s =
     (case with_sdio (\<lambda>d.
              io_bind (io_unwrap_or (sd_read_byte (env_host env) 0x112) 0xff) (\<lambda>bc.
              io_bind (read_f1_status (env_host env) [0x102, 0x10A]) (\<lambda>_. io_return bc))) s of
        (Some (Inr bc), s1) \<Rightarrow> if bc > 0 then snd (run_poll_rx_one env (env_sleep env 1 s1)) else s1
      | (_, s1) \<Rightarrow> s1)"

definition minimal_exchange :: "'w bsp_env \<Rightarrow> nat \<Rightarrow> ('w bsp, unit) io" where
  "minimal_exchange env fuel =
     io_bind (io_map_err (push_token DBG_MEM_READ_CFM) bad_state) (\<lambda>token.
     io_bind (io_lift (serialize_8801 (build_dbg_mem_read_req CHIP_REV_MEM_ADDR) (replicate 512 0))) (\<lambda>(len, buf).
     io_bind (io_lift (slice_get 0 len buf)) (\<lambda>b.
     io_bind (io_map_err (submit_cmd_tx_and_wait_tx_done env fuel b len) bad_state) (\<lambda>_.
     io_bind (io_do (ensure_busrx_thread_started env)) (\<lambda>_.
     io_bind (io_do (env_sleep env 100)) (\<lambda>_.
     io_bind (io_map_err (wait_token env 1500 (Some (minimal_tick env)) (Some (\<lambda>s. snd (run_poll_rx_one env s))) None token)
                bad_state) (\<lambda>_ s.
       case take_token token (replicate 16 0) s of (r, s') \<Rightarrow>
         (case r of
            None \<Rightarrow> (Inl bad_state, s')
          | Some (n, cfm_buf) \<Rightarrow>
              (bind_res (slice_get 0 n cfm_buf) (\<lambda>p.
                 case parse_dbg_mem_read_cfm_with_addr p CHIP_REV_MEM_ADDR of
                   None \<Rightarrow> Inl bad_state | Some memdata \<Rightarrow> ok ()), s')))))))))"

definition aicbsp_minimal_ipc_verify :: "'w platform \<Rightarrow> nat \<Rightarrow> ('w bsp_sys, unit) io" where
  "aicbsp_minimal_ipc_verify p stable_ms =
     io_bind (on_bsp (io_do probe_reset)) (\<lambda>_.
     io_bind (on_bsp (on_world (aicbsp_power_on_with_stable_ms (plat_phys p) stable_ms))) (\<lambda>_.
     io_bind (aicbsp_sdio_init p) (\<lambda>_.
     io_bind (on_bsp (io_do (env_sleep (plat_env p) 500))) (\<lambda>_.
       on_bsp (io_bind (\<lambda>b. (if aicbsp_current_product_id b = Some Aic8801 then ok () else Inl bad_state, b)) (\<lambda>_.
         io_bind (io_do (ensure_bustx_thread_started (plat_env p))) (\<lambda>_.
           minimal_exchange (plat_env p) (plat_fuel p))))))))"

section \<open>Entry points\<close>

definition LOOPS_PER_MS :: u32 where "LOOPS_PER_MS = 1000"

definition saturating_mul :: "u32 \<Rightarrow> u32 \<Rightarrow> u32" where
  "saturating_mul a b = (if unat a * unat b < 2 ^ 32 then a * b else - 1)"

text \<open>The busy delays: so many turns of \<open>spin\<close>.\<close>

definition delay_spin_ms :: "('w \<Rightarrow> 'w) \<Rightarrow> u32 \<Rightarrow> 'w \<Rightarrow> 'w" where
  "delay_spin_ms spin ms = spin ^^ unat (saturating_mul ms LOOPS_PER_MS)"

definition delay_spin_us :: "('w \<Rightarrow> 'w) \<Rightarrow> u32 \<Rightarrow> 'w \<Rightarrow> 'w" where
  "delay_spin_us spin us = spin ^^ unat (max (saturating_mul us LOOPS_PER_MS div 1000) 1)"

text \<open>The busy wait for the probe signal; \<open>spin\<close> is one turn, in which other threads may run.\<close>

fun probe_wait_loop :: "('w bsp \<Rightarrow> 'w bsp) \<Rightarrow> nat \<Rightarrow> 'w bsp \<Rightarrow> bool \<times> 'w bsp" where
  "probe_wait_loop spin 0 b = (False, b)"
| "probe_wait_loop spin (Suc k) b = (if probe_done b then (True, b) else probe_wait_loop spin k (spin b))"

definition probe_wait_timeout_ms :: "('w bsp \<Rightarrow> 'w bsp) \<Rightarrow> u32 \<Rightarrow> 'w bsp \<Rightarrow> bool \<times> 'w bsp" where
  "probe_wait_timeout_ms spin timeout_ms = probe_wait_loop spin (unat (saturating_mul timeout_ms LOOPS_PER_MS))"

definition aicbsp_resv_mem_init :: "('w, unit) io" where "aicbsp_resv_mem_init = io_return ()"
definition aicbsp_resv_mem_deinit :: "('w, unit) io" where "aicbsp_resv_mem_deinit = io_return ()"
definition aicbsp_platform_init :: "('w, unit) io" where "aicbsp_platform_init = io_return ()"
definition aicbsp_platform_deinit :: "('w, unit) io" where "aicbsp_platform_deinit = io_return ()"

text \<open>The caller's \<open>info\<close> is passed in and returned.\<close>

definition aicbsp_init :: "bsp_info \<Rightarrow> cp_mode \<Rightarrow> ('w bsp_sys, bsp_info) io" where
  "aicbsp_init info testmode =
     (let info' = info\<lparr>info_cpmode := cp_mode_repr testmode\<rparr> in
      io_bind (io_do (\<lambda>s. s\<lparr>sys_info := info'\<rparr>)) (\<lambda>_.
      io_bind aicbsp_resv_mem_init (\<lambda>_.
      io_bind (on_bsp (io_do probe_reset)) (\<lambda>_. io_return info'))))"

definition aicbsp_init_gpio_test :: "'w platform \<Rightarrow> ('w bsp_sys, unit) io" where
  "aicbsp_init_gpio_test p =
     io_bind (on_bsp (io_do probe_reset)) (\<lambda>_. on_bsp (on_world (aicbsp_power_on (plat_phys p))))"

definition aicbsp_exit :: "'w platform \<Rightarrow> bsp_info \<Rightarrow> ('w bsp_sys, bsp_info) io" where
  "aicbsp_exit p info =
     io_bind (aicbsp_sdio_exit p) (\<lambda>_.
     io_bind aicbsp_resv_mem_deinit (\<lambda>_. io_return bsp_info_default))"

definition aicbsp_set_subsys :: "'w platform \<Rightarrow> bsp_subsys \<Rightarrow> bsp_pwr_state \<Rightarrow> ('w bsp_sys, unit) io" where
  "aicbsp_set_subsys p subsys st =
     (if subsys \<noteq> Wifi then io_return ()
      else if st = PwrOn
      then io_bind (on_bsp (on_world (aicbsp_power_on (plat_phys p)))) (\<lambda>_.
           io_bind (aicbsp_sdio_init p) (\<lambda>_.
             aicbsp_driver_fw_init (plat_env p) (plat_fuel p)))
      else aicbsp_sdio_exit p)"

section \<open>The slots of the 8801 download\<close>

text \<open>
  \<open>fills k f\<close>: if \<open>f\<close> succeeds, at least \<open>k\<close> further slots of the command manager are occupied
  after it.
\<close>

definition fills :: "nat \<Rightarrow> ('w bsp, 'a) io \<Rightarrow> bool" where
  "fills k f \<longleftrightarrow> (\<forall>s m x s'. cmd_mgr_cell s = Some m \<and> mgr_wf m \<and> f s = (ok x, s') \<longrightarrow>
     (\<exists>m'. cmd_mgr_cell s' = Some m' \<and> mgr_wf m' \<and> occupied m + k \<le> occupied m'))"

lemma fills_bind:
  assumes "fills j f" and "\<And>x. fills k (g x)"
  shows "fills (j + k) (io_bind f g)"
  unfolding fills_def
proof (intro allI impI, elim conjE)
  fix s m x s'
  assume m: "cmd_mgr_cell s = Some m" "mgr_wf m" and r: "io_bind f g s = (ok x, s')"
  from r obtain y s1 where 1: "f s = (ok y, s1)" "g y s1 = (ok x, s')" by (rule io_bind_InrE)
  from assms(1) m 1 obtain m1 where m1: "cmd_mgr_cell s1 = Some m1" "mgr_wf m1" "occupied m + j \<le> occupied m1"
    unfolding fills_def by blast
  from assms(2) [of y] m1 1 obtain m2 where "cmd_mgr_cell s' = Some m2" "mgr_wf m2" "occupied m1 + k \<le> occupied m2"
    unfolding fills_def by blast
  with m1 show "\<exists>m'. cmd_mgr_cell s' = Some m' \<and> mgr_wf m' \<and> occupied m + (j + k) \<le> occupied m'" by auto
qed

lemma fills_pure: "fills 0 (io_return x)" "fills 0 (io_lift r)"
  by (simp_all add: fills_def)

lemma fills_for:
  assumes "\<And>x. fills k (f x)"
  shows "fills (length xs * k) (io_for f xs)"
proof (induction xs)
  case (Cons x xs)
  with assms fills_bind [of k "f x" "length xs * k" "\<lambda>_. io_for f xs"] show ?case by simp
qed (simp add: fills_def)

lemma patch_writes_fills:
  assumes w: "\<And>a d. fills 1 (write a d)"
  shows "fills 8 (patch_writes write config_base)"
proof -
  have e: "fills 2 (patch_entry write config_base x)" for x
  proof -
    obtain cnt off val where x: "x = (cnt, off, val)" by (metis prod_cases3)
    have "fills (0 + (1 + 1)) (patch_entry write config_base x)"
      unfolding patch_entry_def x prod.case Let_def by (intro fills_bind fills_pure w)
    then show ?thesis by (simp add: numeral_2_eq_2)
  qed
  have "fills (1 + (1 + 3 * 2)) (patch_writes write config_base)"
    unfolding patch_writes_def
    using fills_for [OF e, of "zip [0..<length PATCH_TBL_8801] PATCH_TBL_8801"]
    by (intro fills_bind w) (simp add: PATCH_TBL_8801_def)
  then show ?thesis by simp
qed

context driver_threads
begin

lemma fills_write_direct: "fills 1 (send_dbg_mem_write_direct env a d timeout_ms pid)"
  unfolding fills_def
proof (intro allI impI, elim conjE)
  fix s :: "'w bsp" and m x s'
  assume m: "cmd_mgr_cell s = Some m" "mgr_wf m"
    and r: "send_dbg_mem_write_direct env a d timeout_ms pid s = (ok x, s')"
  from mem_write_direct_slots [OF m, of a d timeout_ms pid] r
  show "\<exists>m'. cmd_mgr_cell s' = Some m' \<and> mgr_wf m' \<and> occupied m + 1 \<le> occupied m'"
    by (auto split: if_splits)
qed

lemma patch_config_init_fills:
  assumes "live s" and r: "aicwifi_patch_config_8801_init env pid timeout_ms s = (ok (), s')"
  obtains m where "cmd_mgr_cell s' = Some m" "mgr_wf m" "occupied m = 8"
proof -
  from r obtain cb s1 where 1: "send_dbg_mem_read_direct env RD_PATCH_ADDR_8801 timeout_ms pid s = (ok cb, s1)"
    "patch_writes (\<lambda>addr dat. send_dbg_mem_write_direct env addr dat timeout_ms pid) cb s1 = (ok (), s')"
    unfolding aicwifi_patch_config_8801_init_def by (rule io_bind_InrE)
  from mem_read_direct_live [of RD_PATCH_ADDR_8801 timeout_ms pid] assms(1) 1 have "live s1"
    unfolding stays_live_def by (metis snd_conv)
  then obtain m where m: "cmd_mgr_cell s1 = Some m" "mgr_wf m" by (auto simp: live_def)
  have "fills 8 (patch_writes (\<lambda>addr dat. send_dbg_mem_write_direct env addr dat timeout_ms pid) cb)"
    by (intro patch_writes_fills fills_write_direct)
  with m 1 obtain m' where m': "cmd_mgr_cell s' = Some m'" "mgr_wf m'" "occupied m + 8 \<le> occupied m'"
    unfolding fills_def by blast
  with occupied_le [of m'] have "occupied m' = 8" by simp
  with m' that show ?thesis by blast
qed

text \<open>The steps before the patch table keep the manager live.\<close>

lemma after_same_others:
  assumes "current_product_id s' = current_product_id s" "sdio_device s' = sdio_device s"
    "cmd_mgr_cell s' = cmd_mgr_cell s"
  shows "others_step s (env_sleep env n s')"
  using others_step_same [OF assms] sleep_others others_step_trans by blast

lemma start_bustx_others: "others_step s (ensure_bustx_thread_started env s)"
  unfolding ensure_bustx_thread_started_def by (auto intro: after_same_others)

lemma start_busrx_others: "others_step s (ensure_busrx_thread_started env s)"
  unfolding ensure_busrx_thread_started_def by (auto intro: after_same_others)

lemma fw_poll_impl_others: "others_step s (fw_poll_impl env s)"
proof (cases "cmd_mgr_cell s = None \<or> sdio_device s = None")
  case True
  then show ?thesis by (auto simp: fw_poll_impl_def fw_poll_def intro: others_step_same split: option.splits)
next
  case False
  then obtain m d where md: "cmd_mgr_cell s = Some m" "sdio_device s = Some d" by auto
  obtain r m' w' where p: "poll_rx_one (env_host env) d (rx_cbs_of s) (m, world s) = (r, (m', w'))"
    by (metis prod_cases3)
  with cfm_io_poll [of "env_host env" d "rx_cbs_of s"] obtain cs where
    "m' = fold (\<lambda>(i, p). on_cfm i p) cs m" unfolding cfm_io_def by (metis fst_conv snd_conv)
  with md p show ?thesis by (auto simp: fw_poll_impl_def fw_poll_def others_step_def)
qed

lemma fw_tx_keeps: "keeps (fw_tx_fn env fuel pid msg)"
proof -
  have "keeps (\<lambda>s. case sdio_send env buf n s of
                (None, s') \<Rightarrow> (err (-5), s')
              | (Some (Inr _), s') \<Rightarrow> (ok (), s')
              | (Some (Inl e), s') \<Rightarrow> (Inl e, s'))" for buf n
    unfolding keeps_def using sdio_send_others [of _ env buf n]
    by (auto split: prod.splits option.splits sum.splits) (metis snd_conv)+
  then show ?thesis
    unfolding fw_tx_fn_def Let_def by (auto intro!: keeps_intros submit_keeps split: prod.splits)
qed

lemma fw_push_live: "live s \<Longrightarrow> live (snd (fw_push_fn s))"
  using mgr_push_wf by (auto simp: fw_push_fn_def with_cmd_mgr_def live_def case_prod_unfold)

lemma fw_wait_live: "stays_live (fw_wait_fn env token)"
  unfolding fw_wait_fn_def
  by (rule wait_then_take_live [where out = "replicate 16 0"], rule wait_token_keeps)
    (auto intro: log_f1_others fw_poll_impl_others)

lemma fw_send_one_live: "stays_live (fw_send_one env fuel addr dat)"
proof -
  have push: "stays_live (\<lambda>s. case with_cmd_mgr (\<lambda>m. case mgr_push DBG_MEM_WRITE_CFM m of (t, m') \<Rightarrow> (ok_or t (-12), m')) s of
                        (None, s') \<Rightarrow> (err (-5), s' :: 'w bsp) | (Some r, s') \<Rightarrow> (r, s'))"
    unfolding stays_live_def using mgr_push_wf
    by (auto simp: with_cmd_mgr_def live_def case_prod_unfold)
  have wait: "stays_live (io_bind (wait_token env 3000 (Some (log_f1_block_cnt_flow_ctrl env)) None (Some 500) token) (\<lambda>_.
         io_bind (io_do (\<lambda>s. snd (take_token token (replicate 16 0) s))) (\<lambda>_. io_do (env_sleep env 10))))" for token
    by (rule wait_then_take_live [where out = "replicate 16 0"], rule wait_token_keeps)
      (auto simp: io_bind_def intro: log_f1_others others_step_live sleep_others)
  show ?thesis
    unfolding fw_send_one_def Let_def
    by (auto intro!: stays_live_bind push wait stays_live_keeps [OF submit_keeps] stays_live_keeps [OF keeps_lift]
        stays_live_keeps [OF keeps_fail] split: prod.splits)
qed

lemma upload_loop_live:
  assumes tx: "\<And>msg. keeps (tx msg)" and push: "\<And>s. live s \<Longrightarrow> live (snd (push s))"
    and wait: "\<And>t. stays_live (wait t)"
  shows "live s \<Longrightarrow> live (snd (upload_loop tx dat push wait addr off s))"
  using assms
proof (induction tx dat push wait addr off s rule: upload_loop.induct)
  case (1 tx dat push wait addr off s)
  define len where "len = min (length dat - off) UPLOAD_BLOCK"
  show ?case
  proof (cases "off < length dat")
    case True
    show ?thesis
    proof (cases "build_dbg_mem_block_write_req addr (of_nat len) (take len (drop off dat))")
      case None
      with True "1.prems" show ?thesis by (subst upload_loop.simps) (simp add: Let_def len_def)
    next
      case (Some msg)
      obtain t s1 where p: "push s = (t, s1)" by fastforce
      then have l1: "live s1" using "1.prems"(1,3) by (metis snd_conv)
      show ?thesis
      proof (cases t)
        case None
        with True Some p l1 show ?thesis by (subst upload_loop.simps) (simp add: Let_def len_def)
      next
        case (Some token)
        have "stays_live (io_bind (io_map_err (tx msg) (Errno (-5))) (\<lambda>_. wait token))"
          using "1.prems"(2,4) by (auto intro!: stays_live_bind stays_live_map_err intro: stays_live_keeps)
        moreover obtain r s2 where r: "io_bind (io_map_err (tx msg) (Errno (-5))) (\<lambda>_. wait token) s1 = (r, s2)"
          by fastforce
        ultimately have l2: "live s2" using l1 unfolding stays_live_def by (metis snd_conv)
        note ih = "1.IH" [OF True len_def refl \<open>build_dbg_mem_block_write_req _ _ _ = Some msg\<close> p [symmetric] Some r [symmetric]]
        show ?thesis
          using True \<open>build_dbg_mem_block_write_req _ _ _ = Some msg\<close> p Some r l2 ih "1.prems"
          by (subst upload_loop.simps) (auto simp: Let_def len_def split: sum.splits)
      qed
    qed
  qed (use "1.prems" in \<open>simp add: upload_loop.simps\<close>)
qed

lemma fw_upload_named_live: "stays_live (fw_upload_named env fuel pid name addr)"
proof -
  have "stays_live (fw_upload_blocks (fw_tx_fn env fuel pid) addr dat fw_push_fn (fw_wait_fn env))" for dat
    unfolding stays_live_def fw_upload_blocks_def
    by (intro allI impI upload_loop_live fw_tx_keeps fw_push_live fw_wait_live)
  from stays_live_map_err [OF this] show ?thesis
    unfolding stays_live_def fw_upload_named_def by (auto split: option.splits)
qed

lemma fw_init_start_live: "stays_live (fw_init_start env fuel)"
proof -
  have look: "stays_live (\<lambda>s :: 'w bsp. (r s, s))" for r :: "'w bsp \<Rightarrow> 'b result"
    by (simp add: stays_live_def)
  have "others_step s (snd (write_intr_config env s))" for s
    unfolding write_intr_config_def by (rule with_sdio_others)
  then have "keeps (\<lambda>s. case write_intr_config env s of
                          (Some (Inl (Errno e)), s') \<Rightarrow> (Inl bad_state, s')
                        | (Some (Inl x), s') \<Rightarrow> (Inl x, s')
                        | (_, s') \<Rightarrow> (ok (), s'))"
    unfolding keeps_def by (auto split: prod.splits option.splits sum.splits rust_error.splits) (metis snd_conv)+
  then show ?thesis
    unfolding fw_init_start_def
    by (intro stays_live_bind look stays_live_keeps [OF keeps_do] start_bustx_others start_busrx_others
        sleep_others stays_live_map_err mem_read_busrx_live stays_live_keeps [OF keeps_return])
      (auto intro: stays_live_keeps keeps_return with_sdio_others split: if_splits)
qed

end

lemma fw_init_finish_full:
  assumes "cmd_mgr_cell s = Some m" and "mgr_wf m" and "occupied m = 8"
  shows "fw_init_finish env fuel Aic8801 s = (Inl bad_state, s)"
proof -
  have "mgr_push c m = (None, m)" for c using mgr_push_full [OF assms(2)] assms(3) by blast
  then show ?thesis
    using assms(1)
    by (simp add: fw_init_finish_def with_locked_mgr_def aicwifi_sys_config_8801_def SYSCFG_TBL_MASKED_8801_def
        send_dbg_mem_mask_write_def send_and_wait_def push_cmd_def io_bind_def io_map_err_def)
qed

lemma fw_init_start_pid:
  assumes "fw_init_start env fuel s = (ok (pid, memdata), s')"
  shows "aicbsp_current_product_id s = Some pid"
  using assms unfolding fw_init_start_def
  by (auto simp: io_bind_Inr_iff split: option.splits if_splits)

lemma io_bind_okD:
  assumes "fst (io_bind f g s) = ok x"
  obtains y s1 where "f s = (ok y, s1)" and "fst (g y s1) = ok x"
  using assms by (auto simp: io_bind_def split: prod.splits sum.splits)

lemma on_bsp_Inr: "on_bsp f s = (r, s') \<Longrightarrow> f (sys_bsp s) = (r, sys_bsp s')"
  by (cases "f (sys_bsp s)") (auto simp: on_bsp_def)

context driver_threads
begin

text \<open>A successful load of the 8801 leaves no free slot.\<close>

lemma fw_init_load_fills:
  assumes "live s" and "fw_init_load env fuel Aic8801 fw s = (ok (), s')"
  obtains m where "cmd_mgr_cell s' = Some m" "mgr_wf m" "occupied m = 8"
proof -
  from assms(2) obtain s1 s2 s3 where
    1: "io_map_err (aicbsp_system_config_8801 (fw_send_one env fuel)) bad_state s = (ok (), s1)" and
    2: "fw_upload_named env fuel Aic8801 (fw_wl_fw fw) RAM_FMAC_FW_ADDR s1 = (ok (), s2)" and
    3: "fw_upload_named env fuel Aic8801 RAM_FMAC_FW_PATCH_NAME RAM_FMAC_FW_PATCH_ADDR s2 = (ok (), s3)" and
    4: "io_map_err (aicwifi_patch_config_8801_init env Aic8801 CMD_TIMEOUT_MS) bad_state s3 = (ok (), s')"
    unfolding fw_init_load_def by (auto elim!: io_bind_InrE)
  have "stays_live (io_map_err (aicbsp_system_config_8801 (fw_send_one env fuel)) bad_state)"
    unfolding aicbsp_system_config_8801_def
    by (auto intro!: stays_live_map_err stays_live_for fw_send_one_live split: prod.splits)
  with assms(1) 1 have "live s1" unfolding stays_live_def by (metis snd_conv)
  with 2 fw_upload_named_live have "live s2" unfolding stays_live_def by (metis snd_conv)
  with 3 fw_upload_named_live have "live s3" unfolding stays_live_def by (metis snd_conv)
  with 4 that show ?thesis by (auto simp: io_map_err_Inr_iff elim: patch_config_init_fills)
qed

lemma fw_init_8801_fails:
  assumes "live (sys_bsp s)" and "aicbsp_current_product_id (sys_bsp s) = Some Aic8801"
  shows "fst (aicbsp_driver_fw_init env fuel s) \<noteq> ok ()"
proof
  assume "fst (aicbsp_driver_fw_init env fuel s) = ok ()"
  then obtain pid memdata s1 i fw s3 where
    1: "on_bsp (fw_init_start env fuel) s = (ok (pid, memdata), s1)" and
    3: "on_bsp (fw_init_load env fuel pid fw) (s1\<lparr>sys_info := i\<rparr>) = (ok (), s3)" and
    4: "fst (on_bsp (fw_init_finish env fuel pid) s3) = ok ()"
    unfolding aicbsp_driver_fw_init_def
    by (auto elim!: io_bind_okD simp: Let_def split: prod.splits if_splits option.splits)
  from 1 have 1: "fw_init_start env fuel (sys_bsp s) = (ok (pid, memdata), sys_bsp s1)"
    by (rule on_bsp_Inr)
  with assms(2) have pid: "pid = Aic8801" using fw_init_start_pid by fastforce
  have "live (sys_bsp s1)" using 1 assms(1) fw_init_start_live unfolding stays_live_def by (metis snd_conv)
  with 3 pid obtain m where "cmd_mgr_cell (sys_bsp s3) = Some m" "mgr_wf m" "occupied m = 8"
    by (auto dest!: on_bsp_Inr elim: fw_init_load_fills)
  from fw_init_finish_full [OF this] 4 pid show False
    by (simp add: on_bsp_def)
qed

end

text \<open>
  (C17) The download for the 8801 cannot succeed, whatever the chip, the host and the other
  threads do: the eight register writes of the patch table keep their command slots, so when they
  have all been confirmed no slot is free and the masked writes that follow are refused.
\<close>

theorem fw_init_8801_never_succeeds:
  assumes "driver_threads env" and "live (sys_bsp s)"
    and "aicbsp_current_product_id (sys_bsp s) = Some Aic8801"
  shows "fst (aicbsp_driver_fw_init env fuel s) \<noteq> ok ()"
  using assms by (rule driver_threads.fw_init_8801_fails)

definition sample_sys_8801 :: "unit bsp_sys" where
  "sample_sys_8801 =
     \<lparr>sys_info = bsp_info_default, sys_registry = None,
      sys_bsp = sample_bsp\<lparr>current_product_id := 0, sdio_device := Some (Aic8800Sdio_new Aic8801),
                           cmd_mgr_cell := Some CmdMgr_new\<rparr>\<rparr>"

theorem fw_init_8801_never_succeeds_witness:
  "fst (aicbsp_driver_fw_init (thread_env noise_host 1 (\<lambda>_. None)) 1 sample_sys_8801) \<noteq> ok ()"
proof (rule fw_init_8801_never_succeeds)
  show "driver_threads (thread_env noise_host 1 (\<lambda>_. None))" by (rule threads.driver_threads_axioms)
  show "live (sys_bsp sample_sys_8801)" by (simp add: live_def sample_sys_8801_def mgr_wf_new)
  show "aicbsp_current_product_id (sys_bsp sample_sys_8801) = Some Aic8801"
    by (simp add: sample_sys_8801_def PRODUCT_ID_NONE_def aicbsp_current_product_id.simps)
qed

section \<open>Shutting down and starting again\<close>

lemma on_device_frame:
  assumes "on_bsp (\<lambda>b. case sdio_device b of None \<Rightarrow> (ok (), b) | Some d \<Rightarrow> on_world (f d) b) s = (r, s')"
  obtains w' where "s' = s\<lparr>sys_bsp := (sys_bsp s)\<lparr>world := w'\<rparr>\<rparr>"
proof (cases "sdio_device (sys_bsp s)")
  case None
  with assms have "s' = s\<lparr>sys_bsp := (sys_bsp s)\<lparr>world := world (sys_bsp s)\<rparr>\<rparr>" by (simp add: on_bsp_def)
  then show ?thesis by (rule that)
next
  case (Some d)
  with assms that show ?thesis by (auto simp: on_bsp_def on_world_def split: prod.splits)
qed


definition sample_platform :: "unit platform" where
  "sample_platform =
     \<lparr>plat_phys = \<lparr>mmio_read = (\<lambda>a w. (0, w)), mmio_write = (\<lambda>a v w. w), mmio_sleep_ms = (\<lambda>n w. w)\<rparr>,
      plat_write8 = (\<lambda>a v w. w), plat_env = thread_env noise_host 1 (\<lambda>_. None), plat_fuel = 1\<rparr>"


section \<open>What bringing up the card establishes\<close>

definition world_only :: "('w bsp, 'a) io \<Rightarrow> bool" where
  "world_only f \<longleftrightarrow> (\<forall>b. \<exists>w. snd (f b) = b\<lparr>world := w\<rparr>)"

lemma world_only_on_world: "world_only (on_world f)"
  by (auto simp: world_only_def on_world_def split: prod.splits)

lemma world_only_map_err: "world_only f \<Longrightarrow> world_only (io_map_err f e)"
  unfolding world_only_def io_map_err_def
  by (auto split: prod.splits sum.splits rust_error.splits) (metis snd_conv)+

lemma world_only_bind_ok:
  assumes "world_only f" and "io_bind f g b = (ok x, b')"
  obtains y w where "f b = (ok y, b\<lparr>world := w\<rparr>)" and "g y (b\<lparr>world := w\<rparr>) = (ok x, b')"
  using assms(2)
proof (rule io_bind_InrE)
  fix y b1
  assume "f b = (ok y, b1)" "g y b1 = (ok x, b')"
  moreover from assms(1) this obtain w where "b1 = b\<lparr>world := w\<rparr>" unfolding world_only_def by (metis snd_conv)
  ultimately show thesis using that by blast
qed

lemma current_product_probe: "aicbsp_current_product_id (aicbsp_sdio_probe pid b) = Some pid"
  by (cases pid) (simp_all add: aicbsp_sdio_probe_def probe_signal_def aicbsp_current_product_id.simps PRODUCT_ID_NONE_def)

lemma current_product_world [simp]: "aicbsp_current_product_id (b\<lparr>world := w\<rparr>) = aicbsp_current_product_id b"
  by (simp add: aicbsp_current_product_id.simps)

lemma probe_from_sdio_cis_ok:
  assumes "probe_from_sdio_cis ops n b = (ok (), b')"
  obtains pid w where "fst (identify_chip_from_cis ops n (world b)) = ok pid" "b' = aicbsp_sdio_probe pid (b\<lparr>world := w\<rparr>)"
  using assms unfolding probe_from_sdio_cis_def
  by (auto simp: on_world_def io_bind_def split: prod.splits sum.splits)

lemma sdio_init_card_ok:
  assumes "sdio_init_card p b = (ok pid, b')"
  obtains w w' where "b' = (aicbsp_sdio_probe pid (b\<lparr>world := w\<rparr>))\<lparr>world := w'\<rparr>"
proof -
  let ?m = "sd1_mmio (plat_phys p)" and ?h = "env_host (plat_env p)"
  note wo = world_only_on_world world_only_map_err [OF world_only_on_world]
  from assms obtain w where "io_bind (io_map_err (probe_from_sdio_cis (CisReadOps ?h) 1) bad_state) (\<lambda>_.
      io_bind (\<lambda>b. (case aicbsp_current_product_id b of None \<Rightarrow> Inl bad_state | Some pid \<Rightarrow> ok pid, b)) (\<lambda>pid.
      io_bind (on_world (if pid = Aic8801 then setup_f1_8801 ?m ?h else setup_f2_other ?m ?h)) (\<lambda>_.
        io_return pid))) (b\<lparr>world := w\<rparr>) = (ok pid, b')"
    unfolding sdio_init_card_def Let_def
    by (elim world_only_bind_ok [OF wo(1)] world_only_bind_ok [OF wo(2)]) simp
  then obtain b1 w' where 1: "probe_from_sdio_cis (CisReadOps ?h) 1 (b\<lparr>world := w\<rparr>) = (ok (), b1)"
    and 2: "aicbsp_current_product_id b1 = Some pid" "b' = b1\<lparr>world := w'\<rparr>"
    unfolding io_bind_Inr_iff io_map_err_Inr_iff
    by (auto simp: on_world_def split: option.splits prod.splits)
  from 1 obtain pid' w1 where b1: "b1 = aicbsp_sdio_probe pid' (b\<lparr>world := w\<rparr>\<lparr>world := w1\<rparr>)"
    by (rule probe_from_sdio_cis_ok)
  with 2 have "pid' = pid" by (simp add: current_product_probe)
  with b1 2 that show thesis by simp
qed

lemma on_bsp_on_world:
  "snd (on_bsp (on_world f) s) = s\<lparr>sys_bsp := (sys_bsp s)\<lparr>world := snd (f (world (sys_bsp s)))\<rparr>\<rparr>"
  by (cases "f (world (sys_bsp s))") (simp add: on_bsp_def on_world_def)

lemma sdio_init_attach_frame:
  assumes "sdio_init_attach p pid s = (r, s')"
  obtains w where "s' = s\<lparr>sys_registry := snd (register_aicbsp_sdio_driver (sys_registry s)),
     sys_bsp := (sys_bsp s)\<lparr>sdio_device := Some (Aic8800Sdio_new pid), world := w\<rparr>\<rparr>"
proof -
  have "s' = snd (sdio_init_attach p pid s)" using assms by simp
  then show thesis
    unfolding sdio_init_attach_def Let_def on_bsp_on_world by (rule that [OF trans]) simp
qed

context driver_threads
begin

lemma sdio_init_bus_others:
  "others_step (b\<lparr>cmd_mgr_cell := Some CmdMgr_new\<rparr>) (snd (sdio_init_bus env pid b))"
proof -
  have "others_step s (snd (write_intr_config env s))" for s
    unfolding write_intr_config_def by (rule with_sdio_others)
  then have "others_step s (snd (case write_intr_config env s of
               (Some (Inl (Panic x)), b') \<Rightarrow> (panic x, b') | (Some (Inl Hang), b') \<Rightarrow> (Inl Hang, b')
             | (_, b') \<Rightarrow> (ok (), b')))" for s
    by (auto split: prod.splits option.splits sum.splits rust_error.splits) (metis snd_conv)+
  with start_bustx_others [of "b\<lparr>cmd_mgr_cell := Some CmdMgr_new\<rparr>"] show ?thesis
    unfolding sdio_init_bus_def io_bind_def by (auto intro: others_step_trans)
qed

end

lemma sdio_init_post:
  assumes "driver_threads (plat_env p)" and "aicbsp_sdio_init p s = (ok (), s')"
  shows "\<exists>pid. aicbsp_current_product_id (sys_bsp s') = Some pid \<and>
    sdio_device (sys_bsp s') = Some (Aic8800Sdio_new pid) \<and> live (sys_bsp s') \<and> sys_registry s' \<noteq> None"
proof -
  have reg: "snd (register_aicbsp_sdio_driver r) \<noteq> None" for r :: "'a registry"
    by (cases r) (simp_all add: register_aicbsp_sdio_driver_def sdio_register_driver_def)
  from assms(2) obtain pid s1 s2 where
    1: "on_bsp (sdio_init_card p) (s\<lparr>sys_registry := snd (register_aicbsp_sdio_driver (sys_registry s))\<rparr>) = (ok pid, s1)" and
    2: "sdio_init_attach p pid s1 = (ok (), s2)" and
    3: "on_bsp (sdio_init_bus (plat_env p) pid) s2 = (ok (), s')"
    unfolding aicbsp_sdio_init_def io_bind_Inr_iff by auto
  from on_bsp_Inr [OF 1] obtain w w' where
    "sys_bsp s1 = (aicbsp_sdio_probe pid ((sys_bsp s)\<lparr>world := w\<rparr>))\<lparr>world := w'\<rparr>"
    by (auto elim: sdio_init_card_ok)
  then have s1: "aicbsp_current_product_id (sys_bsp s1) = Some pid" by (simp add: current_product_probe)
  from 2 obtain w2 where
    s2: "s2 = s1\<lparr>sys_registry := snd (register_aicbsp_sdio_driver (sys_registry s1)),
     sys_bsp := (sys_bsp s1)\<lparr>sdio_device := Some (Aic8800Sdio_new pid), world := w2\<rparr>\<rparr>" by (rule sdio_init_attach_frame)
  have o: "others_step ((sys_bsp s2)\<lparr>cmd_mgr_cell := Some CmdMgr_new\<rparr>) (sys_bsp s')"
    using driver_threads.sdio_init_bus_others [OF assms(1), of "sys_bsp s2" pid] on_bsp_Inr [OF 3] by simp
  have "live ((sys_bsp s2)\<lparr>cmd_mgr_cell := Some CmdMgr_new\<rparr>)" by (simp add: live_def mgr_wf_new)
  with o have "live (sys_bsp s')" by (rule others_step_live)
  moreover have "sys_registry s' = sys_registry s2" using 3 by (auto simp: on_bsp_def split: prod.splits)
  ultimately show ?thesis using o s1 s2 reg
    by (auto simp: others_step_def aicbsp_current_product_id.simps)
qed

text \<open>
  (C4) When \<open>aicbsp_sdio_init\<close> succeeds, the state is what the firmware download starts from: a
  product has been recognised, the device object is the one of that product, the command manager
  is there and well-formed, and a driver is registered.
\<close>

theorem sdio_init_establishes:
  assumes "driver_threads (plat_env p)" and "aicbsp_sdio_init p s = (ok (), s')"
  shows "\<exists>pid. aicbsp_current_product_id (sys_bsp s') = Some pid \<and>
    sdio_device (sys_bsp s') = Some (Aic8800Sdio_new pid) \<and> live (sys_bsp s') \<and> sys_registry s' \<noteq> None"
  using assms by (rule sdio_init_post)

text \<open>
  A controller with a card: commands complete at once, CMD5 answers that the card is ready, every
  other command answers 0; the world is the last command. The host reads a CIS of the 8801.
\<close>

definition sim_phys :: "u32 mmio" where
  "sim_phys =
     \<lparr>mmio_read = (\<lambda>a w. (if a = SD1_PHYS_BASE + R_INT_STS then 1
        else if a = SD1_PHYS_BASE + R_CLK_CTL_SWRST then 2
        else if a = SD1_PHYS_BASE + R_RESP31_0 \<and> w = CMD5_XFER_MODE then 0x80FF8000 else 0, w)),
      mmio_write = (\<lambda>a v w. if a = SD1_PHYS_BASE + R_XFER_MODE_AND_CMD then v else w),
      mmio_sleep_ms = (\<lambda>n w. w)\<rparr>"

definition sim_byte :: "u32 \<Rightarrow> byte" where
  "sim_byte a = (if a = 0x03 then 0x02 else if a = 0x0A then 0x10 else if a = 0x1000 then 0x20
     else if a = 0x1001 then 4 else if a = 0x1002 then 0x49 else if a = 0x1003 then 0x54
     else if a = 0x1004 then 0x45 else if a = 0x1005 then 0x01 else 0)"

definition sim_host :: "u32 sdio_host" where
  "sim_host =
     \<lparr>host_read_byte = (\<lambda>a. io_return (sim_byte a)), host_write_byte = (\<lambda>a v. io_return ()),
      host_read_byte_f0 = (\<lambda>a. io_return (sim_byte a)), host_read_byte_at_func = (\<lambda>f a. io_return (sim_byte a)),
      host_write_byte_at_func = (\<lambda>f a v. io_return ()),
      host_read_block = (\<lambda>a buf w. (ok (length buf), buf, w)),
      host_write_block = (\<lambda>a buf. io_return (length buf)), host_delay_us = (\<lambda>n w. w)\<rparr>"

lemma sim_regs [simp]:
  "read_reg (sd1_mmio sim_phys) off w = (ok (if off = R_INT_STS then 1 else if off = R_CLK_CTL_SWRST then 2
     else if off = R_RESP31_0 \<and> w = CMD5_XFER_MODE then 0x80FF8000 else 0), w)"
  "write_reg (sd1_mmio sim_phys) off v w = (ok (), if off = R_XFER_MODE_AND_CMD then v else w)"
  by (auto simp: read_reg_def write_reg_def sd1_mmio_def sim_phys_def)

lemma sim_sleep [simp]: "mmio_sleep_ms (sd1_mmio sim_phys) n w = w"
  by (simp add: sd1_mmio_def sim_phys_def)

lemma sim_phys_regs:
  "a < SD1_PHYS_BASE \<Longrightarrow> read_reg sim_phys a w = (ok 0, w)"
  "a < SD1_PHYS_BASE \<Longrightarrow> write_reg sim_phys a v w = (ok (), w)"
  by (auto simp: read_reg_def write_reg_def sim_phys_def)

lemma sim_loops:
  "0 < n \<Longrightarrow> inhibit_loop (sd1_mmio sim_phys) n w = (ok (), w)"
  "0 < n \<Longrightarrow> reset_poll (sd1_mmio sim_phys) 0x2000000 n w = (ok (), w)"
  "0 < n \<Longrightarrow> cmd_complete_loop (sd1_mmio sim_phys) n w = (ok (), w)"
  "0 < n \<Longrightarrow> no_crc_loop (sd1_mmio sim_phys) n w = (ok (), w)"
  "0 < n \<Longrightarrow> no_resp_loop (sd1_mmio sim_phys) n w = (ok (), w)"
  "0 < n \<Longrightarrow> reset_all_poll (sd1_mmio sim_phys) n w = (ok (), w)"
  "0 < n \<Longrightarrow> clk_stable_loop (sd1_mmio sim_phys) hs n w = (ok (), w)"
  by (cases n; simp add: io_bind_def int_cmd_defs sdmmc_reg_defs clear_int_status_def R_INT_STS_EN_def R_INT_SIG_EN_def
      set_host_high_speed_def Let_def)+

lemma sim_cmd52:
  "cmd52_read_func (sd1_mmio sim_phys) f r w = (ok 0, CMD52_XFER_MODE)"
  "cmd52_write_func (sd1_mmio sim_phys) f r v w = (ok (), CMD52_XFER_MODE)"
  by (simp_all add: cmd52_read_func_def cmd52_write_func_def wait_not_inhibit_def issue_cmd_def wait_cmd_complete_def
      io_bind_def sim_loops sdmmc_reg_defs r5_failed_def CMD52_XFER_MODE_def CMD5_XFER_MODE_def)

lemma sim_set_clock: "set_clock (sd1_mmio sim_phys) 400000 w = (ok (), w)"
  "set_clock (sd1_mmio sim_phys) 25000000 w = (ok (), w)"
  by (simp_all add: set_clock_def clock_divisor_def INT_CARD_CLK_HZ_def io_bind_def sim_loops sdmmc_reg_defs
      CMD_POLL_TIMEOUT_US_def)

lemma sim_card_init: "sdio_card_init (sd1_mmio sim_phys) w = (ok 0, CMD7_XFER_MODE)"
proof -
  have o: "0 < n \<Longrightarrow> ocr_loop (sd1_mmio sim_phys) ocr n w = (ok (), CMD5_XFER_MODE)" for ocr w n
    by (cases n)
      (simp_all add: cmd5_io_send_op_cond_def wait_not_inhibit_def issue_cmd_def wait_cmd_complete_no_crc_def io_bind_def
        sim_loops sdmmc_reg_defs CMD_POLL_TIMEOUT_US_def)
  have m: "CMD3_XFER_MODE \<noteq> CMD5_XFER_MODE" by (simp add: CMD3_XFER_MODE_def CMD5_XFER_MODE_def)
  show ?thesis
    by (simp add: sdio_card_init_def cmd0_go_idle_def reset_cmd_line_def reset_line_def wait_not_inhibit_def
        clear_int_status_def issue_cmd_def wait_cmd_complete_no_resp_def cmd5_io_send_op_cond_def
        wait_cmd_complete_no_crc_def cmd3_send_relative_addr_def wait_cmd_complete_def cmd7_select_card_def
        io_bind_def sim_loops o m sdmmc_reg_defs CMD_POLL_TIMEOUT_US_def)
qed

lemma sim_new_sd1: "new_sd1_with_card_init sim_phys (\<lambda>a v w. w) w = (ok 0, CMD7_XFER_MODE)"
proof -
  have "sd1_host_init sim_phys w = (ok (), w)"
    by (simp add: sd1_host_init_def io_bind_def sim_phys_regs SD1_PHYS_BASE_def RSTGEN_SOFT_RSTN_0_ADDR_def
        CLKGEN_CLK_EN_0_ADDR_def PINMUX_BASE_def PINMUX_WIFI_PWR_def SD1_PINMUX_def)
  moreover have "enable_sd_interface_clock (sd1_mmio sim_phys) (\<lambda>a v w. w) w = (ok (), w)"
    by (simp add: enable_sd_interface_clock_def reset_all_def io_bind_def sim_loops sim_set_clock Let_def
        sdmmc_reg_defs R_INT_STS_EN_def R_INT_SIG_EN_def R_P_VENDOR_SPECIFIC_AREA_def
        VENDOR_PHY_TX_RX_DLY_OFF_def VENDOR_PHY_CONFIG_OFF_def)
  ultimately show ?thesis by (simp add: new_sd1_with_card_init_def io_bind_def sim_card_init)
qed

lemma sim_identify: "identify_chip_from_cis (CisReadOps sim_host) 1 w = (ok Aic8801, w)"
proof -
  have rb: "ops_read_byte (CisReadOps sim_host) = (\<lambda>a. io_return (sim_byte a))"
    by (simp add: CisReadOps_def sim_host_def)
  have "0 < n \<Longrightarrow> cis_loop (\<lambda>a. io_return (sim_byte a)) n 0x1000 w = (ok (Some (0x5449, 0x0145)), w)" for n
    by (cases n) (simp_all add: sim_byte_def cis_consts io_bind_def from_le16_def)
  then have "read_vendor_device (CisReadOps sim_host) 1 w = (ok (0x5449, 0x0145), w)"
    by (simp add: read_vendor_device_def read_cccr_cis_ptr_def read_ptr24_def rb parse_cis_for_manfid_def
        MAX_TUPLES_def io_bind_def cis_consts sim_byte_def)
  then show ?thesis
    by (simp add: identify_chip_from_cis_def io_bind_def is_known_aic_sdio_def aicwf_sdio_chipmatch_def
        chipmatch_def sdio_ids_defs)
qed

definition sim_platform :: "u32 platform" where
  "sim_platform =
     \<lparr>plat_phys = sim_phys, plat_write8 = (\<lambda>a v w. w), plat_env = thread_env sim_host 1 (\<lambda>_. None), plat_fuel = 1\<rparr>"

definition sim_sys :: "u32 bsp_sys" where
  "sim_sys =
     \<lparr>sys_info = bsp_info_default, sys_registry = None,
      sys_bsp =
        \<lparr>current_product_id = PRODUCT_ID_NONE, sdio_device = None, cmd_mgr_cell = None,
         busrx_running = False, bustx_running = False, busrx_started = False, bustx_started = False,
         pending_cmd_tx = None, tx_result = None, e2a_indication_cb = None, rx_data_indication_cb = None,
         probe_done = False, wifi_firmware_store = [], world = 0\<rparr>\<rparr>"

lemma sim_env_host: "env_host (plat_env sim_platform) = sim_host"
  by (simp add: sim_platform_def thread_env_def Let_def)

lemma sim_enable_f1: "enable_io_function sim_host delay 0x02 w = (ok (), w)"
proof -
  have "0 < n \<Longrightarrow> io_ready_loop sim_host delay 0x02 n w = (ok (), w)" for n
    by (cases n) (simp_all add: sim_host_def io_bind_def io_unwrap_or_def sim_byte_def)
  then show ?thesis by (simp add: enable_io_function_def sim_host_def io_bind_def io_map_err_def)
qed

lemma sim_init_card:
  "sdio_init_card sim_platform b = (ok Aic8801, (aicbsp_sdio_probe Aic8801 b)\<lparr>world := CMD52_XFER_MODE\<rparr>)"
proof -
  have hs: "enable_sdio_high_speed (sd1_mmio sim_phys) w = (ok (), CMD52_XFER_MODE)" for w
    by (simp add: enable_sdio_high_speed_def bk_read_byte_def cmd52_read_def io_bind_def sim_cmd52)
  have f1: "setup_f1_8801 (sd1_mmio sim_phys) sim_host w = (ok (), CMD52_XFER_MODE)" for w
    by (simp add: setup_f1_8801_def set_block_size_def io_bind_def io_map_err_def sim_cmd52 sim_host_def)
  have pid: "aicbsp_current_product_id (aicbsp_sdio_probe Aic8801 x) = Some Aic8801" for x :: "u32 bsp"
    by (rule current_product_probe)
  show ?thesis
    unfolding sdio_init_card_def sim_env_host
    by (simp add: Let_def io_bind_def io_map_err_def io_unwrap_or_def on_world_def sim_platform_def sim_new_sd1
        hs sim_set_clock sim_enable_f1 probe_from_sdio_cis_def sim_identify pid f1)
      (simp add: aicbsp_sdio_probe_def probe_signal_def)
qed

lemma sim_init_bus: "fst (sdio_init_bus (plat_env sim_platform) Aic8801 b) = ok ()"
proof -
  have w: "sd_write_byte sim_host a v = io_return ()" for a v
    by (simp add: sd_write_byte_def sim_host_def Let_def)
  have "fst (write_intr_config (plat_env sim_platform) s) \<in> {None, Some (ok ())}" for s
    by (auto simp: write_intr_config_def with_sdio_def sim_env_host w split: option.splits)
  then show ?thesis
    by (auto simp: sdio_init_bus_def io_bind_def split: prod.splits option.splits sum.splits rust_error.splits)
      (metis fst_conv insert_iff option.distinct(1) option.inject singletonD sum.distinct(1))+
qed

lemma sim_attach: "fst (sdio_init_attach sim_platform pid s) = ok ()" if "sys_registry s = Some AicBspSdioDriver"
  using that id_table_matches
  by (simp add: sdio_init_attach_def Let_def on_bsp_def on_world_def register_aicbsp_sdio_driver_def
      sdio_register_driver_def sdio_try_probe_def driver_matches_def AicBspSdioDriver_def io_unwrap_or_def)

lemma sim_init:
  assumes "sys_registry s = None"
  obtains s' where "aicbsp_sdio_init sim_platform s = (ok (), s')" "aicbsp_current_product_id (sys_bsp s') = Some Aic8801"
proof -
  let ?s1 = "s\<lparr>sys_registry := Some AicBspSdioDriver,
    sys_bsp := (aicbsp_sdio_probe Aic8801 (sys_bsp s))\<lparr>world := CMD52_XFER_MODE\<rparr>\<rparr>"
  obtain s2 where a: "sdio_init_attach sim_platform Aic8801 ?s1 = (ok (), s2)"
    using sim_attach [of ?s1 Aic8801] by (cases "sdio_init_attach sim_platform Aic8801 ?s1") simp
  obtain b where b: "sdio_init_bus (plat_env sim_platform) Aic8801 (sys_bsp s2) = (ok (), b)"
    using sim_init_bus [of "sys_bsp s2"] by (cases "sdio_init_bus (plat_env sim_platform) Aic8801 (sys_bsp s2)") simp
  have d: "driver_threads (plat_env sim_platform)"
    by (simp add: sim_platform_def threads.driver_threads_axioms)
  have "others_step ((sys_bsp s2)\<lparr>cmd_mgr_cell := Some CmdMgr_new\<rparr>) b"
    using driver_threads.sdio_init_bus_others [OF d, of "sys_bsp s2" Aic8801] b by simp
  moreover have "aicbsp_current_product_id (sys_bsp s2) = Some Aic8801"
    using a by (auto elim!: sdio_init_attach_frame simp: aicbsp_current_product_id.simps aicbsp_sdio_probe_def
        probe_signal_def PRODUCT_ID_NONE_def)
  ultimately have "aicbsp_current_product_id b = Some Aic8801"
    by (simp add: others_step_def aicbsp_current_product_id.simps)
  moreover have "aicbsp_sdio_init sim_platform s = (ok (), s2\<lparr>sys_bsp := b\<rparr>)"
    using assms a b by (simp add: aicbsp_sdio_init_def io_bind_def on_bsp_def sim_init_card
        register_aicbsp_sdio_driver_def sdio_register_driver_def)
  ultimately show thesis using that by simp
qed

theorem sdio_init_establishes_witness:
  "\<exists>s'. aicbsp_sdio_init sim_platform sim_sys = (ok (), s') \<and> live (sys_bsp s')"
proof -
  have d: "driver_threads (plat_env sim_platform)"
    by (simp add: sim_platform_def threads.driver_threads_axioms)
  obtain s' where s': "aicbsp_sdio_init sim_platform sim_sys = (ok (), s')"
    using sim_init [of sim_sys] by (auto simp: sim_sys_def)
  with sdio_init_establishes [OF d s'] show ?thesis by blast
qed

end
