(* ===== verification/Lifecycle.thy ===== *)
theory Lifecycle
  imports Flow
begin

text \<open>
  Properties of the entry points of \<open>driver/bsp/src/lib.rs\<close> that span the components: the errors
  they return, and switching the WiFi subsystem on.
\<close>

section \<open>Errors of the entry points\<close>

text \<open>A computation of type \<open>AxResult\<close>: its errors are \<open>AxError\<close> values, never raw codes.\<close>

definition ax_typed :: "('s, 'a) io \<Rightarrow> bool" where
  "ax_typed f \<longleftrightarrow> (\<forall>s e. fst (f s) \<noteq> err e)"

lemma ax_typedI: "(\<And>s e. fst (f s) \<noteq> err e) \<Longrightarrow> ax_typed f"
  by (simp add: ax_typed_def)

lemma ax_typedD: "ax_typed f \<Longrightarrow> fst (f s) \<noteq> err e"
  by (simp add: ax_typed_def)

named_theorems ax_intros "computations whose errors are AxErrors"

lemma ax_return [ax_intros]: "ax_typed (io_return x)"
  by (simp add: ax_typed_def)

lemma ax_do [ax_intros]: "ax_typed (io_do f)"
  by (simp add: ax_typed_def)

lemma ax_fail [ax_intros]: "ax_typed (io_fail (Ax e))"
  by (simp add: ax_typed_def)

lemma ax_lift [ax_intros]: "(\<And>e. r \<noteq> err e) \<Longrightarrow> ax_typed (io_lift r)"
  by (simp add: ax_typed_def)

lemma ax_bind [ax_intros]:
  assumes "ax_typed f" and "\<And>x. ax_typed (g x)"
  shows "ax_typed (io_bind f g)"
  unfolding ax_typed_def io_bind_def
proof (intro allI)
  fix s e
  show "fst (case f s of (Inl e, w') \<Rightarrow> (Inl e, w') | (Inr x, w') \<Rightarrow> g x w') \<noteq> err e"
    using assms unfolding ax_typed_def by (cases "f s"; cases "fst (f s)") (auto, metis fst_conv)
qed

lemma ax_map_err [ax_intros]: "ax_typed (io_map_err f (Ax e))"
  by (auto simp: ax_typed_def io_map_err_def split: prod.splits sum.splits rust_error.splits)

lemma ax_unwrap_or [ax_intros]: "ax_typed (io_unwrap_or f d)"
  by (auto simp: ax_typed_def io_unwrap_or_def split: prod.splits sum.splits rust_error.splits)

lemma ax_on_bsp [ax_intros]: "ax_typed f \<Longrightarrow> ax_typed (on_bsp f)"
  unfolding ax_typed_def on_bsp_def by (auto split: prod.splits) (metis fst_conv)

lemma ax_on_world [ax_intros]: "ax_typed f \<Longrightarrow> ax_typed (on_world f)"
  unfolding ax_typed_def on_world_def by (auto split: prod.splits) (metis fst_conv)

lemma ax_for [ax_intros]: "(\<And>x. ax_typed (f x)) \<Longrightarrow> ax_typed (io_for f xs)"
  by (induction xs) (auto intro: ax_intros)

lemma ax_regs [ax_intros]: "ax_typed (read_reg m a)" "ax_typed (write_reg m a v)"
  by (auto simp: ax_typed_def read_reg_def write_reg_def split: prod.splits)

lemma ax_if [ax_intros]: "ax_typed f \<Longrightarrow> ax_typed g \<Longrightarrow> ax_typed (if c then f else g)"
  by simp

lemma ax_gpio [ax_intros]:
  "ax_typed (gpio_set_output m b pin)" "ax_typed (gpio_set_pin m b pin high)" "ax_typed (gpio_get_pin m b pin)"
  unfolding gpio_set_output_def gpio_set_pin_def gpio_get_pin_def by (intro ax_intros)+

lemma ax_power_on [ax_intros]: "ax_typed (aicbsp_power_on_with_stable_ms phys n)"
  unfolding aicbsp_power_on_with_stable_ms_def set_wifi_power_pinmux_to_gpio_def wifi_gpio_init_def
    power_on_and_reset_def wifi_power_on_def set_sd1_sdio_pinmux_after_power_def
  by (intro ax_intros) (auto simp: WifiGpioControl_new_def GpioController_new_def bind_res_def)

lemma ax_set_clock [ax_intros]: "ax_typed (set_clock m hz)"
proof -
  have hs: "ax_typed (set_host_high_speed m b)" for b
    unfolding set_host_high_speed_def Let_def by (intro ax_intros)
  have "ax_typed (clk_stable_loop m b n)" for b n
    by (induction n) (auto intro!: ax_intros hs)
  moreover have "clock_divisor hz \<noteq> err e" for e by (simp add: clock_divisor_def)
  ultimately show ?thesis unfolding set_clock_def by (intro ax_intros hs) auto
qed

lemma ax_init_card [ax_intros]: "ax_typed (sdio_init_card p)"
proof -
  have "ax_typed (io_ready_loop h d b n)" for h :: "'a sdio_host" and d b n
    by (induction n) (auto intro!: ax_intros)
  then have f: "ax_typed (enable_io_function h d b)" for h :: "'a sdio_host" and d b
    unfolding enable_io_function_def by (intro ax_intros) auto
  have w4: "ax_typed (enable_4bit_bus m)" for m :: "'a mmio"
    unfolding enable_4bit_bus_def set_bus_width_def
    by (intro ax_intros)
      (auto simp: ax_typed_def io_unwrap_or_def split: prod.splits sum.splits rust_error.splits)
  have "ax_typed (setup_f1_8801 m h)" "ax_typed (setup_f2_other m h)" for m and h :: "'a sdio_host"
    unfolding setup_f1_8801_def setup_f2_other_def by (intro ax_intros f w4)+
  moreover have "ax_typed (\<lambda>b :: 'a bsp. (case aicbsp_current_product_id b of None \<Rightarrow> Inl bad_state | Some pid \<Rightarrow> ok pid, b))"
    by (simp add: ax_typed_def split: option.splits)
  ultimately show ?thesis
    unfolding sdio_init_card_def Let_def by (intro ax_intros f) auto
qed

lemma ax_sdio_init [ax_intros]: "ax_typed (aicbsp_sdio_init p)"
proof -
  have "ax_typed (sdio_init_attach p pid)" for pid
    by (rule ax_typedI, unfold sdio_init_attach_def Let_def, rule ax_typedD) (intro ax_intros)
  moreover have "ax_typed (\<lambda>b :: 'a bsp. if pid = Aic8801
       then (case write_intr_config env b of
               (Some (Inl (Panic x)), b') \<Rightarrow> (panic x, b') | (Some (Inl Hang), b') \<Rightarrow> (Inl Hang, b')
             | (_, b') \<Rightarrow> (ok (), b'))
       else (ok (), b))" for env pid
    unfolding ax_typed_def by (auto split: prod.splits option.splits sum.splits rust_error.splits)
  then have "ax_typed (sdio_init_bus env pid)" for env :: "'a bsp_env" and pid
    unfolding sdio_init_bus_def by (intro ax_bind ax_do) auto
  ultimately show ?thesis unfolding aicbsp_sdio_init_def by (intro ax_intros) auto
qed

lemma ax_sdio_exit [ax_intros]: "ax_typed (aicbsp_sdio_exit p)"
proof -
  have "ax_typed (\<lambda>s. on_bsp (\<lambda>b. case sdio_device b of None \<Rightarrow> (ok (), b)
                     | Some d \<Rightarrow> on_world (io_unwrap_or (f s d) ()) b) s)" for f :: "'a bsp_sys \<Rightarrow> aic8800_sdio \<Rightarrow> ('a, unit) io"
    by (auto simp: ax_typed_def on_bsp_def on_world_def io_unwrap_or_def
        split: prod.splits option.splits sum.splits rust_error.splits)
  moreover have "ax_typed (\<lambda>b. case sdio_device b of None \<Rightarrow> (ok (), b)
                       | Some d \<Rightarrow> on_world (disable_io_functions h) b)" for h :: "'a sdio_host"
    by (auto simp: ax_typed_def on_world_def disable_io_functions_def io_unwrap_or_def
        split: prod.splits option.splits sum.splits rust_error.splits)
  ultimately show ?thesis
    unfolding aicbsp_sdio_exit_def by (intro ax_bind ax_on_bsp ax_do) auto
qed

lemma ax_locked_mgr [ax_intros]: "ax_typed f \<Longrightarrow> ax_typed (with_locked_mgr f)"
  unfolding ax_typed_def with_locked_mgr_def by (auto split: option.splits prod.splits) (metis fst_conv)

lemma ax_fw_init [ax_intros]: "ax_typed (aicbsp_driver_fw_init env fuel)"
proof -
  have look: "ax_typed (\<lambda>s. (r s, s))" if "\<And>s e. r s \<noteq> err e" for r :: "'a bsp \<Rightarrow> 'b result"
    using that by (simp add: ax_typed_def)
  have "ax_typed (\<lambda>s. case write_intr_config env s of
                          (Some (Inl (Errno e)), s') \<Rightarrow> (Inl bad_state, s')
                        | (Some (Inl x), s') \<Rightarrow> (Inl x, s')
                        | (_, s') \<Rightarrow> (ok (), s'))"
    unfolding ax_typed_def by (auto split: prod.splits option.splits sum.splits rust_error.splits)
  then have "ax_typed (fw_init_start env fuel)"
    unfolding fw_init_start_def by (intro ax_intros look) (auto split: option.splits if_splits)
  moreover have "ax_typed (fw_upload_named env fuel pid name addr)" for pid name addr
    by (rule ax_typedI) (auto simp: fw_upload_named_def split: option.splits dest: ax_typedD [OF ax_map_err, THEN notE])
  then have "ax_typed (fw_init_load env fuel pid fw)" for pid fw
    unfolding fw_init_load_def by (intro ax_intros) auto
  moreover have "ax_typed (fw_init_finish env fuel pid)" for pid
    unfolding fw_init_finish_def by (intro ax_intros)
  moreover have "ax_typed (\<lambda>s :: 'a bsp_sys. let cpmode = min (unat (info_cpmode (sys_info s))) 1
                    in (if cpmode < length l then ok (l ! cpmode) else panic IndexRange, s))" for l :: "bsp_firmware list"
    by (simp add: ax_typed_def Let_def)
  ultimately show ?thesis
    unfolding aicbsp_driver_fw_init_def
    by (intro ax_intros) (auto intro!: ax_intros split: prod.splits option.splits)
qed


section \<open>Switching WiFi on\<close>

lemma sim_power_on: "aicbsp_power_on sim_phys w = (ok (), w)"
  by (simp add: aicbsp_power_on_def aicbsp_power_on_with_stable_ms_def set_wifi_power_pinmux_to_gpio_def
      WifiGpioControl_new_def GpioController_new_def wifi_gpio_init_def power_on_and_reset_def wifi_power_on_def
      verify_after_power_on_def gpio_set_output_def gpio_set_pin_def gpio_get_pin_def WIFI_POWER_EN_def
      set_sd1_sdio_pinmux_after_power_def SD1_PINMUX_def io_bind_def io_unwrap_or_def sim_phys_regs SD1_PHYS_BASE_def
      GPIO0_BASE_def SWPORTA_DR_def SWPORTA_DDR_def PINMUX_BASE_def PINMUX_WIFI_PWR_def)
    (simp add: sim_phys_def)

text \<open>
  Switching the WiFi subsystem on fails for every 8801, even when power-up and bringing up
  the card succeed.
\<close>

theorem wifi_on_fails_for_8801:
  assumes "driver_threads (plat_env p)"
    and "aicbsp_power_on (plat_phys p) (world (sys_bsp s)) = (ok (), w)"
    and "aicbsp_sdio_init p (s\<lparr>sys_bsp := (sys_bsp s)\<lparr>world := w\<rparr>\<rparr>) = (ok (), s2)"
    and "aicbsp_current_product_id (sys_bsp s2) = Some Aic8801"
  shows "fst (aicbsp_set_subsys p Wifi PwrOn s) \<noteq> ok ()"
proof -
  from sdio_init_post [OF assms(1,3)] have "live (sys_bsp s2)" by blast
  from driver_threads.fw_init_8801_fails [OF assms(1) this assms(4)] assms(2,3) show ?thesis
    by (simp add: aicbsp_set_subsys_def io_bind_def on_bsp_def on_world_def)
qed

theorem wifi_on_fails_for_8801_witness:
  "fst (aicbsp_set_subsys sim_platform Wifi PwrOn sim_sys) \<noteq> ok ()"
proof -
  let ?s1 = "sim_sys\<lparr>sys_bsp := (sys_bsp sim_sys)\<lparr>world := world (sys_bsp sim_sys)\<rparr>\<rparr>"
  obtain s2 where s2: "aicbsp_sdio_init sim_platform ?s1 = (ok (), s2)"
    "aicbsp_current_product_id (sys_bsp s2) = Some Aic8801"
    using sim_init [of ?s1] by (auto simp: sim_sys_def)
  have "driver_threads (plat_env sim_platform)"
    by (simp add: sim_platform_def threads.driver_threads_axioms)
  moreover have "aicbsp_power_on (plat_phys sim_platform) (world (sys_bsp sim_sys)) = (ok (), world (sys_bsp sim_sys))"
    using sim_power_on by (simp add: sim_platform_def)
  ultimately show ?thesis using s2 by (rule wifi_on_fails_for_8801)
qed

end
