(* ===== verification/Ieee80211.thy ===== *)
theory Ieee80211
  imports Prelude
begin

text \<open>
  The 802.11 vocabulary of \<open>kernel/ieee80211\<close>: frame types (\<open>ieee80211.rs\<close>), the cipher tables,
  the data types of the cfg80211 and mac80211 interfaces and the interface \<open>Cfg80211Ops\<close>, a record
  of operations whose optional ones have defaults (\<open>cfg80211.rs\<close>, \<open>mac80211.rs\<close>).
\<close>

type_synonym u64 = "64 word"
type_synonym ifindex = u32
type_synonym mac_addr = "byte list"

section \<open>Channels and rates\<close>

datatype band = TwoGhz | FiveGhz | SixGhz

text \<open>\<open>i8\<close> and \<open>i32\<close> values are integers.\<close>

record channel =
  ch_center_freq :: u32
  ch_band :: band
  ch_max_power :: int

definition channel_new_2g :: "u32 \<Rightarrow> int \<Rightarrow> channel" where
  "channel_new_2g freq_mhz max_power_dbm =
     \<lparr>ch_center_freq = freq_mhz, ch_band = TwoGhz, ch_max_power = max_power_dbm\<rparr>"

definition channel_new_5g :: "u32 \<Rightarrow> int \<Rightarrow> channel" where
  "channel_new_5g freq_mhz max_power_dbm =
     \<lparr>ch_center_freq = freq_mhz, ch_band = FiveGhz, ch_max_power = max_power_dbm\<rparr>"

record rate =
  rate_bitrate_100kbps :: u16
  rate_hw_value :: u16
  rate_flags :: u16

section \<open>Frame control\<close>

datatype wlan_eid = EidSsid | EidSupportedRates | EidDsParams | EidHtCapability | EidVhtCapability | EidExtension

fun eid_as_u8 :: "wlan_eid \<Rightarrow> u8" where
  "eid_as_u8 EidSsid = 0"
| "eid_as_u8 EidSupportedRates = 1"
| "eid_as_u8 EidDsParams = 3"
| "eid_as_u8 EidHtCapability = 45"
| "eid_as_u8 EidVhtCapability = 191"
| "eid_as_u8 EidExtension = 255"

definition FC_TYPE_MGMT :: u16 where "FC_TYPE_MGMT = 0x0000"
definition FC_TYPE_CTL :: u16 where "FC_TYPE_CTL = 0x0004"
definition FC_TYPE_DATA :: u16 where "FC_TYPE_DATA = 0x0008"
definition FC_SUBTYPE_BEACON :: u16 where "FC_SUBTYPE_BEACON = 0x0080"
definition FC_SUBTYPE_ASSOC_REQ :: u16 where "FC_SUBTYPE_ASSOC_REQ = 0x0000"
definition FC_SUBTYPE_ASSOC_RESP :: u16 where "FC_SUBTYPE_ASSOC_RESP = 0x0010"
definition FC_SUBTYPE_REASSOC_REQ :: u16 where "FC_SUBTYPE_REASSOC_REQ = 0x0020"
definition FC_SUBTYPE_AUTH :: u16 where "FC_SUBTYPE_AUTH = 0x00B0"
definition FC_SUBTYPE_DEAUTH :: u16 where "FC_SUBTYPE_DEAUTH = 0x00C0"
definition FC_SUBTYPE_DISASSOC :: u16 where "FC_SUBTYPE_DISASSOC = 0x00A0"
definition FC_SUBTYPE_PROBE_REQ :: u16 where "FC_SUBTYPE_PROBE_REQ = 0x0040"
definition FC_SUBTYPE_PROBE_RESP :: u16 where "FC_SUBTYPE_PROBE_RESP = 0x0050"
definition FC_SUBTYPE_ACTION :: u16 where "FC_SUBTYPE_ACTION = 0x00D0"

lemmas fc_defs = FC_TYPE_MGMT_def FC_TYPE_CTL_def FC_TYPE_DATA_def FC_SUBTYPE_BEACON_def
  FC_SUBTYPE_ASSOC_REQ_def FC_SUBTYPE_ASSOC_RESP_def FC_SUBTYPE_REASSOC_REQ_def FC_SUBTYPE_AUTH_def
  FC_SUBTYPE_DEAUTH_def FC_SUBTYPE_DISASSOC_def FC_SUBTYPE_PROBE_REQ_def FC_SUBTYPE_PROBE_RESP_def
  FC_SUBTYPE_ACTION_def

definition frame_control :: "byte list \<Rightarrow> u16" where
  "frame_control buf = (if 2 \<le> length buf then from_le16 (buf ! 0) (buf ! 1) else 0)"

definition is_mgmt :: "u16 \<Rightarrow> bool" where "is_mgmt fc \<longleftrightarrow> fc AND 0x000C = FC_TYPE_MGMT"
definition is_beacon :: "u16 \<Rightarrow> bool" where "is_beacon fc \<longleftrightarrow> is_mgmt fc \<and> fc AND 0x00F0 = FC_SUBTYPE_BEACON"
definition is_assoc_req :: "u16 \<Rightarrow> bool" where
  "is_assoc_req fc \<longleftrightarrow> is_mgmt fc \<and> fc AND 0x00F0 = FC_SUBTYPE_ASSOC_REQ"
definition is_reassoc_req :: "u16 \<Rightarrow> bool" where
  "is_reassoc_req fc \<longleftrightarrow> is_mgmt fc \<and> fc AND 0x00F0 = FC_SUBTYPE_REASSOC_REQ"
definition is_auth :: "u16 \<Rightarrow> bool" where "is_auth fc \<longleftrightarrow> is_mgmt fc \<and> fc AND 0x00F0 = FC_SUBTYPE_AUTH"
definition is_deauth :: "u16 \<Rightarrow> bool" where "is_deauth fc \<longleftrightarrow> is_mgmt fc \<and> fc AND 0x00F0 = FC_SUBTYPE_DEAUTH"
definition is_disassoc :: "u16 \<Rightarrow> bool" where
  "is_disassoc fc \<longleftrightarrow> is_mgmt fc \<and> fc AND 0x00F0 = FC_SUBTYPE_DISASSOC"
definition is_probe_req :: "u16 \<Rightarrow> bool" where
  "is_probe_req fc \<longleftrightarrow> is_mgmt fc \<and> fc AND 0x00F0 = FC_SUBTYPE_PROBE_REQ"
definition is_action :: "u16 \<Rightarrow> bool" where "is_action fc \<longleftrightarrow> is_mgmt fc \<and> fc AND 0x00F0 = FC_SUBTYPE_ACTION"

lemmas is_frame_defs = is_mgmt_def is_beacon_def is_assoc_req_def is_reassoc_req_def is_auth_def is_deauth_def
  is_disassoc_def is_probe_req_def is_action_def

section \<open>Ciphers\<close>

definition CIPHER_WEP40 :: u32 where "CIPHER_WEP40 = 0x000FAC01"
definition CIPHER_WEP104 :: u32 where "CIPHER_WEP104 = 0x000FAC05"
definition CIPHER_TKIP :: u32 where "CIPHER_TKIP = 0x000FAC02"
definition CIPHER_CCMP :: u32 where "CIPHER_CCMP = 0x000FAC04"
definition CIPHER_AES_CMAC :: u32 where "CIPHER_AES_CMAC = 0x000FAC06"
definition CIPHER_GCMP :: u32 where "CIPHER_GCMP = 0x000FAC08"
definition CIPHER_GCMP_256 :: u32 where "CIPHER_GCMP_256 = 0x000FAC09"
definition CIPHER_CCMP_256 :: u32 where "CIPHER_CCMP_256 = 0x000FAC10"
definition CIPHER_BIP_GMAC_128 :: u32 where "CIPHER_BIP_GMAC_128 = 0x000FAC0B"
definition CIPHER_BIP_GMAC_256 :: u32 where "CIPHER_BIP_GMAC_256 = 0x000FAC0C"
definition CIPHER_BIP_CMAC_256 :: u32 where "CIPHER_BIP_CMAC_256 = 0x000FAC0D"

lemmas cipher_defs = CIPHER_WEP40_def CIPHER_WEP104_def CIPHER_TKIP_def CIPHER_CCMP_def CIPHER_AES_CMAC_def
  CIPHER_GCMP_def CIPHER_GCMP_256_def CIPHER_CCMP_256_def CIPHER_BIP_GMAC_128_def CIPHER_BIP_GMAC_256_def
  CIPHER_BIP_CMAC_256_def

datatype mac_cipher_suite =
  Wep40 | Tkip | Ccmp | Wep104 | WpiSms4 | BipCmac128 | Gcmp128 | Gcmp256 | Ccmp256
| BipGmac128 | BipGmac256 | BipCmac256 | InvalidCipher

fun mac_cipher_repr :: "mac_cipher_suite \<Rightarrow> u8" where
  "mac_cipher_repr Wep40 = 0" | "mac_cipher_repr Tkip = 1" | "mac_cipher_repr Ccmp = 2"
| "mac_cipher_repr Wep104 = 3" | "mac_cipher_repr WpiSms4 = 4" | "mac_cipher_repr BipCmac128 = 5"
| "mac_cipher_repr Gcmp128 = 6" | "mac_cipher_repr Gcmp256 = 7" | "mac_cipher_repr Ccmp256 = 8"
| "mac_cipher_repr BipGmac128 = 9" | "mac_cipher_repr BipGmac256 = 10" | "mac_cipher_repr BipCmac256 = 11"
| "mac_cipher_repr InvalidCipher = 0xFF"

definition wlan_cipher_to_mac :: "u32 \<Rightarrow> mac_cipher_suite option" where
  "wlan_cipher_to_mac cipher =
     (if cipher = CIPHER_WEP40 then Some Wep40 else if cipher = CIPHER_WEP104 then Some Wep104
      else if cipher = CIPHER_TKIP then Some Tkip else if cipher = CIPHER_CCMP then Some Ccmp
      else if cipher = CIPHER_AES_CMAC then Some BipCmac128 else if cipher = CIPHER_GCMP then Some Gcmp128
      else if cipher = CIPHER_GCMP_256 then Some Gcmp256 else if cipher = CIPHER_CCMP_256 then Some Ccmp256
      else if cipher = CIPHER_BIP_GMAC_128 then Some BipGmac128
      else if cipher = CIPHER_BIP_GMAC_256 then Some BipGmac256
      else if cipher = CIPHER_BIP_CMAC_256 then Some BipCmac256 else None)"

definition MAC_SEC_KEY_LEN :: nat where "MAC_SEC_KEY_LEN = 32"

section \<open>Types of the cfg80211 interface\<close>

datatype iftype = Unspecified | AdHoc | Station | Ap | ApVlan | Wds | Monitor | MeshPoint | P2pClient | P2pGo | P2pDevice

record scan_request =
  sr_channels :: "channel list"
  sr_ssids :: "byte list list"
  sr_ssid_lens :: "u8 list"

record connect_params =
  cp_bssid :: "mac_addr option"
  cp_ssid :: "byte list"
  cp_ssid_len :: nat
  cp_channel :: "channel option"
  cp_auth_type :: u32

record key_params =
  kp_cipher :: u32
  kp_key :: "byte list"
  kp_seq :: "byte list option"

record key_status =
  ks_present :: bool
  ks_cipher :: u32

record bss_info =
  bss_bssid :: mac_addr
  bss_freq :: u32
  bss_rssi :: int
  bss_ssid :: "byte list"
  bss_ssid_len :: u8

record station_info =
  si_filled :: u64
  si_rssi :: int
  si_tx_rate :: u32
  si_rx_rate :: u32
  si_tx_packets :: u64
  si_rx_packets :: u64
  si_tx_failed :: u32
  si_inactive_time_ms :: u32
  si_rx_bytes :: u64
  si_tx_bytes :: u64

definition station_info_default :: station_info where
  "station_info_default =
     \<lparr>si_filled = 0, si_rssi = 0, si_tx_rate = 0, si_rx_rate = 0, si_tx_packets = 0, si_rx_packets = 0,
      si_tx_failed = 0, si_inactive_time_ms = 0, si_rx_bytes = 0, si_tx_bytes = 0\<rparr>"

definition STA_INFO_TX_BITRATE :: u64 where "STA_INFO_TX_BITRATE = push_bit 0 1"
definition STA_INFO_SIGNAL :: u64 where "STA_INFO_SIGNAL = push_bit 2 1"
definition STA_INFO_TX_FAILED :: u64 where "STA_INFO_TX_FAILED = push_bit 5 1"
definition STA_INFO_RX_BITRATE :: u64 where "STA_INFO_RX_BITRATE = push_bit 1 1"
definition STA_INFO_TX_PACKETS :: u64 where "STA_INFO_TX_PACKETS = push_bit 3 1"
definition STA_INFO_RX_PACKETS :: u64 where "STA_INFO_RX_PACKETS = push_bit 4 1"
definition STA_INFO_INACTIVE_TIME :: u64 where "STA_INFO_INACTIVE_TIME = push_bit 6 1"
definition STA_INFO_RX_BYTES :: u64 where "STA_INFO_RX_BYTES = push_bit 7 1"
definition STA_INFO_TX_BYTES :: u64 where "STA_INFO_TX_BYTES = push_bit 8 1"

record beacon_data =
  bd_head :: "byte list"
  bd_tail :: "byte list"
  bd_beacon_ies :: "byte list"
  bd_proberesp_ies :: "byte list"

datatype chan_width = NoHT | TwentyMhz | FortyMhz | EightyMhz | EightyPlus80Mhz | OneSixtyMhz

record chan_def =
  cd_channel :: channel
  cd_width :: chan_width

record wiphy_params =
  wp_rts_threshold :: int
  wp_frag_threshold :: int

datatype tx_power_setting = TxAutomatic | TxLimited | TxFixed

record mgmt_tx_params =
  mt_channel :: "channel option"
  mt_offchan :: bool
  mt_wait_ms :: u32
  mt_buf :: "byte list"

record bss_params =
  bp_use_cts_prot :: "bool option"
  bp_use_short_preamble :: "bool option"
  bp_use_short_slot :: "bool option"

record external_auth_params =
  ea_bssid :: mac_addr
  ea_ssid :: "byte list"
  ea_action :: u8

record survey_info =
  sv_filled :: u64
  sv_channel :: "channel option"
  sv_noise :: int
  sv_time_busy :: u64
  sv_time_rx :: u64
  sv_time_tx :: u64

record txq_params =
  tq_ac :: u8
  tq_txop :: u16
  tq_cw_min :: u16
  tq_cw_max :: u16
  tq_aifs :: u8

section \<open>The cfg80211 operations\<close>

text \<open>
  The trait \<open>Cfg80211Ops\<close>: the methods an implementor must give are the fields of the record, the
  optional ones answer \<open>ENOSYS\<close>.
\<close>

record 's cfg80211_ops =
  co_add_virtual_intf :: "string \<Rightarrow> iftype \<Rightarrow> ('s, ifindex) io"
  co_del_virtual_intf :: "ifindex \<Rightarrow> ('s, unit) io"
  co_change_virtual_intf :: "ifindex \<Rightarrow> iftype \<Rightarrow> ('s, unit) io"
  co_scan :: "ifindex \<Rightarrow> scan_request \<Rightarrow> ('s, unit) io"
  co_connect :: "ifindex \<Rightarrow> connect_params \<Rightarrow> ('s, unit) io"
  co_disconnect :: "ifindex \<Rightarrow> u16 \<Rightarrow> ('s, unit) io"
  co_add_key :: "ifindex \<Rightarrow> u8 \<Rightarrow> key_params \<Rightarrow> ('s, unit) io"
  co_del_key :: "ifindex \<Rightarrow> u8 \<Rightarrow> ('s, unit) io"
  co_set_default_key :: "ifindex \<Rightarrow> u8 \<Rightarrow> ('s, unit) io"
  co_set_default_mgmt_key :: "ifindex \<Rightarrow> u8 \<Rightarrow> ('s, unit) io"
  co_add_station :: "ifindex \<Rightarrow> mac_addr \<Rightarrow> ('s, unit) io"
  co_del_station :: "ifindex \<Rightarrow> mac_addr option \<Rightarrow> u16 \<Rightarrow> ('s, unit) io"
  co_get_station :: "ifindex \<Rightarrow> mac_addr \<Rightarrow> ('s, station_info) io"
  co_mgmt_tx :: "ifindex \<Rightarrow> mgmt_tx_params \<Rightarrow> ('s, u64) io"
  co_start_ap :: "ifindex \<Rightarrow> beacon_data \<Rightarrow> chan_def \<Rightarrow> ('s, unit) io"
  co_change_beacon :: "ifindex \<Rightarrow> beacon_data \<Rightarrow> ('s, unit) io"
  co_stop_ap :: "ifindex \<Rightarrow> ('s, unit) io"
  co_set_wiphy_params :: "wiphy_params \<Rightarrow> ('s, unit) io"
  co_set_tx_power :: "ifindex \<Rightarrow> tx_power_setting \<Rightarrow> int \<Rightarrow> ('s, unit) io"
  co_get_tx_power :: "ifindex \<Rightarrow> ('s, int) io"
  co_set_power_mgmt :: "ifindex \<Rightarrow> bool \<Rightarrow> int \<Rightarrow> ('s, unit) io"
  co_get_channel :: "ifindex \<Rightarrow> ('s, chan_def) io"

definition ENOSYS :: int where "ENOSYS = -38"

definition default_start_p2p_device :: "ifindex \<Rightarrow> ('s, unit) io" where
  "default_start_p2p_device a = io_fail (Errno ENOSYS)"

definition default_stop_p2p_device :: "ifindex \<Rightarrow> ('s, unit) io" where
  "default_stop_p2p_device a = io_fail (Errno ENOSYS)"

definition default_sched_scan_start :: "ifindex \<Rightarrow> scan_request \<Rightarrow> ('s, unit) io" where
  "default_sched_scan_start a b = io_fail (Errno ENOSYS)"

definition default_sched_scan_stop :: "ifindex \<Rightarrow> ('s, unit) io" where
  "default_sched_scan_stop a = io_fail (Errno ENOSYS)"

definition default_get_key :: "ifindex \<Rightarrow> u8 \<Rightarrow> ('s, key_status) io" where
  "default_get_key a b = io_fail (Errno ENOSYS)"

definition default_change_station :: "ifindex \<Rightarrow> mac_addr \<Rightarrow> ('s, unit) io" where
  "default_change_station a b = io_fail (Errno ENOSYS)"

definition default_dump_station :: "ifindex \<Rightarrow> (mac_addr \<Rightarrow> station_info \<Rightarrow> bool) \<Rightarrow> ('s, unit) io" where
  "default_dump_station a b = io_fail (Errno ENOSYS)"

definition default_probe_client :: "ifindex \<Rightarrow> mac_addr \<Rightarrow> ('s, u64) io" where
  "default_probe_client a b = io_fail (Errno ENOSYS)"

definition default_set_monitor_channel :: "chan_def \<Rightarrow> ('s, unit) io" where
  "default_set_monitor_channel a = io_fail (Errno ENOSYS)"

definition default_set_txq_params :: "ifindex \<Rightarrow> txq_params \<Rightarrow> ('s, unit) io" where
  "default_set_txq_params a b = io_fail (Errno ENOSYS)"

definition default_remain_on_channel :: "ifindex \<Rightarrow> channel \<Rightarrow> u32 \<Rightarrow> ('s, u64) io" where
  "default_remain_on_channel a b c = io_fail (Errno ENOSYS)"

definition default_cancel_remain_on_channel :: "ifindex \<Rightarrow> u64 \<Rightarrow> ('s, unit) io" where
  "default_cancel_remain_on_channel a b = io_fail (Errno ENOSYS)"

definition default_dump_survey :: "ifindex \<Rightarrow> nat \<Rightarrow> ('s, survey_info) io" where
  "default_dump_survey a b = io_fail (Errno ENOSYS)"

definition default_start_radar_detection :: "ifindex \<Rightarrow> chan_def \<Rightarrow> ('s, unit) io" where
  "default_start_radar_detection a b = io_fail (Errno ENOSYS)"

definition default_reg_notifier :: "byte list \<Rightarrow> ('s, unit) io" where
  "default_reg_notifier a = io_fail (Errno ENOSYS)"

definition default_update_ft_ies :: "ifindex \<Rightarrow> byte list \<Rightarrow> ('s, unit) io" where
  "default_update_ft_ies a b = io_fail (Errno ENOSYS)"

definition default_set_cqm_rssi_config :: "ifindex \<Rightarrow> int \<Rightarrow> u32 \<Rightarrow> ('s, unit) io" where
  "default_set_cqm_rssi_config a b c = io_fail (Errno ENOSYS)"

definition default_channel_switch :: "ifindex \<Rightarrow> chan_def \<Rightarrow> u32 \<Rightarrow> ('s, unit) io" where
  "default_channel_switch a b c = io_fail (Errno ENOSYS)"

definition default_tdls_mgmt :: "ifindex \<Rightarrow> mac_addr \<Rightarrow> byte list \<Rightarrow> ('s, u64) io" where
  "default_tdls_mgmt a b c = io_fail (Errno ENOSYS)"

definition default_tdls_oper :: "ifindex \<Rightarrow> mac_addr \<Rightarrow> u8 \<Rightarrow> ('s, unit) io" where
  "default_tdls_oper a b c = io_fail (Errno ENOSYS)"

definition default_tdls_channel_switch :: "ifindex \<Rightarrow> mac_addr \<Rightarrow> u8 \<Rightarrow> ('s, unit) io" where
  "default_tdls_channel_switch a b c = io_fail (Errno ENOSYS)"

definition default_tdls_cancel_channel_switch :: "ifindex \<Rightarrow> mac_addr \<Rightarrow> ('s, unit) io" where
  "default_tdls_cancel_channel_switch a b = io_fail (Errno ENOSYS)"

definition default_change_bss :: "ifindex \<Rightarrow> bss_params \<Rightarrow> ('s, unit) io" where
  "default_change_bss a b = io_fail (Errno ENOSYS)"

definition default_external_auth :: "ifindex \<Rightarrow> external_auth_params \<Rightarrow> ('s, unit) io" where
  "default_external_auth a b = io_fail (Errno ENOSYS)"

section \<open>Types of the mac80211 interface\<close>

record ht_cap =
  ht_cap :: u16
  ht_ampdu_factor :: u8
  ht_ampdu_density :: u8
  ht_mcs :: "byte list"

record vht_cap =
  vht_cap :: u32
  vht_mcs :: "u16 list"

record supported_band =
  sb_band :: band
  sb_channels :: "channel list"
  sb_rates :: "rate list"
  sb_n_channels :: nat
  sb_n_bitrates :: nat
  sb_ht_cap :: "ht_cap option"
  sb_vht_cap :: "vht_cap option"

record hw_conf =
  conf_channel :: "channel option"
  conf_listen_interval :: u16
  conf_power_level :: int
  conf_flags :: u32

record 's hw =
  hw_conf_of :: "'s \<Rightarrow> hw_conf"
  hw_set_conf :: "hw_conf \<Rightarrow> ('s, unit) io"
  hw_band_2ghz :: "'s \<Rightarrow> supported_band option"
  hw_band_5ghz :: "'s \<Rightarrow> supported_band option"
  hw_report_scan_completed :: "bool \<Rightarrow> ('s, unit) io"
  hw_report_channel_switch :: "chan_def \<Rightarrow> ('s, unit) io"

definition default_report_channel_switch :: "chan_def \<Rightarrow> ('s, unit) io" where
  "default_report_channel_switch chandef = io_return ()"

section \<open>Properties\<close>

text \<open>The frame predicates exclude each other, and every frame they accept is a management frame.\<close>

lemma frame_predicates_exclusive:
  "length (filter (\<lambda>p. p fc) [is_beacon, is_assoc_req, is_reassoc_req, is_auth, is_deauth, is_disassoc,
     is_probe_req, is_action]) \<le> 1"
  by (auto simp: is_beacon_def is_assoc_req_def is_reassoc_req_def is_auth_def is_deauth_def is_disassoc_def
      is_probe_req_def is_action_def fc_defs)

text \<open>The cipher table is injective and gives hardware codes below 12.\<close>

lemma wlan_cipher_to_mac_inj:
  "wlan_cipher_to_mac c = Some s \<Longrightarrow> wlan_cipher_to_mac d = Some s \<Longrightarrow> c = d"
  by (auto simp: wlan_cipher_to_mac_def cipher_defs split: if_splits)

end
