(* ===== verification/Lmac_Cmd.thy ===== *)
theory Lmac_Cmd
  imports Fw_Load Ieee80211
begin

text \<open>
  The LMAC requests of the full driver and the parsers of its confirmations and indications
  (\<open>driver/fdrv/src/lmac_cmd.rs\<close>). A builder that writes its parameters at a running offset is a
  list of fields; a field has the number of bytes the code checks for, the number of bytes it
  advances and the bytes it writes.
\<close>

definition TASK_SCANU :: u16 where "TASK_SCANU = 4"
definition TASK_SM :: u16 where "TASK_SM = 6"
definition TASK_MM :: u16 where "TASK_MM = 0"
definition TASK_APM :: u16 where "TASK_APM = 7"
definition MAC_RATESET_LEN :: nat where "MAC_RATESET_LEN = 12"
definition MAC_BCST :: mac_addr where "MAC_BCST = replicate 6 0xff"
definition MAC_SSID_LEN :: nat where "MAC_SSID_LEN = 32"
definition SCAN_CHANNEL_MAX :: nat where "SCAN_CHANNEL_MAX = 42"
definition MAC_CHAN_DEF_SIZE :: nat where "MAC_CHAN_DEF_SIZE = 5"

lemmas lmac_consts = MAC_RATESET_LEN_def MAC_BCST_def MAC_SSID_LEN_def SCAN_CHANNEL_MAX_def
  MAC_CHAN_DEF_SIZE_def MAC_SEC_KEY_LEN_def

section \<open>Writing parameters\<close>

type_synonym field = "nat \<times> nat \<times> byte list"

text \<open>
  \<open>if off + need > out.len() { return 0; } out[off..off+n].copy_from_slice(bytes); off += adv;\<close>
  \<open>None\<close> is the early return; a write outside the buffer panics.
\<close>

definition put_field :: "field \<Rightarrow> nat \<times> byte list \<Rightarrow> (nat \<times> byte list) option result" where
  "put_field = (\<lambda>(need, adv, bs) (off, out).
     if length out < off + need then ok None
     else if length out < off + length bs then panic SliceRange
     else ok (Some (off + adv, take off out @ bs @ drop (off + length bs) out)))"

fun put_fields :: "field list \<Rightarrow> nat \<times> byte list \<Rightarrow> (nat \<times> byte list) option result" where
  "put_fields [] c = ok (Some c)"
| "put_fields (f # fs) c =
     bind_res (put_field f c) (\<lambda>r. case r of None \<Rightarrow> ok None | Some c' \<Rightarrow> put_fields fs c')"

text \<open>A field whose size is checked as a whole.\<close>

definition plain :: "byte list \<Rightarrow> field" where
  "plain bs = (length bs, length bs, bs)"

text \<open>\<open>LmacMsg::new(id, task, DRV_TASK_ID, plen)\<close> with the first \<open>plen\<close> bytes copied.\<close>

definition msg_of_param :: "u16 \<Rightarrow> u16 \<Rightarrow> (nat \<times> byte list) option result \<Rightarrow> lmac_msg option result" where
  "msg_of_param mid task r =
     bind_res r (\<lambda>c. case c of
        None \<Rightarrow> ok None
      | Some (plen, param) \<Rightarrow>
          bind_res (slice_get 0 plen param) (\<lambda>src.
            if plen \<le> LMAC_MSG_MAX_LEN
            then ok (Some (put_param 0 src (LmacMsg_new mid task DRV_TASK_ID (of_nat plen))))
            else panic SliceRange))"

section \<open>Requests\<close>

definition build_scanu_start_req_param :: "u8 \<Rightarrow> u32 \<Rightarrow> byte list \<Rightarrow> (nat \<times> byte list) option result" where
  "build_scanu_start_req_param vif_idx duration_us param_out =
     put_fields
       [plain (replicate (SCAN_CHANNEL_MAX * MAC_CHAN_DEF_SIZE) 0), plain (replicate (33 * 3) 0), plain MAC_BCST,
        plain (replicate 6 0), plain [vif_idx, 0, 0, 0], plain (le32 duration_us)] (0, param_out)"

definition build_scanu_start_req :: "u8 \<Rightarrow> u32 \<Rightarrow> lmac_msg option result" where
  "build_scanu_start_req vif_idx duration_us =
     msg_of_param SCANU_START_REQ TASK_SCANU (build_scanu_start_req_param vif_idx duration_us (replicate 400 0))"

definition build_sm_connect_req ::
  "u8 \<Rightarrow> byte list \<Rightarrow> mac_addr option \<Rightarrow> u16 option \<Rightarrow> lmac_msg option result" where
  "build_sm_connect_req vif_idx ssid bssid chan_freq =
     (let ssid_len = min (length ssid) MAC_SSID_LEN in
      msg_of_param SM_CONNECT_REQ TASK_SM
        (put_fields
           [(1 + MAC_SSID_LEN, 1 + MAC_SSID_LEN, of_nat ssid_len # take ssid_len ssid),
            (6, 6, case bssid of Some b \<Rightarrow> b | None \<Rightarrow> MAC_BCST),
            (4, 4, case chan_freq of Some f \<Rightarrow> le16 f @ [0, 0] | None \<Rightarrow> []),
            plain (replicate 10 0), plain [0, 0, 0, vif_idx], (256, 256, [])] (0, replicate 320 0)))"

datatype mac_vif_type = VifSta | VifIbss | VifAp | VifMeshPoint | VifMonitor | VifUnknown

fun vif_type_repr :: "mac_vif_type \<Rightarrow> u8" where
  "vif_type_repr VifSta = 0" | "vif_type_repr VifIbss = 1" | "vif_type_repr VifAp = 2"
| "vif_type_repr VifMeshPoint = 3" | "vif_type_repr VifMonitor = 4" | "vif_type_repr VifUnknown = 5"

definition build_mm_add_if_req :: "mac_vif_type \<Rightarrow> mac_addr \<Rightarrow> bool \<Rightarrow> lmac_msg" where
  "build_mm_add_if_req vif_type mac p2p =
     put_param 7 [if p2p then 1 else 0] (put_param 1 mac (put_param 0 [vif_type_repr vif_type]
       (LmacMsg_new MM_ADD_IF_REQ TASK_MM DRV_TASK_ID 8)))"

definition build_mm_remove_if_req :: "u8 \<Rightarrow> lmac_msg" where
  "build_mm_remove_if_req inst_nbr = put_param 0 [inst_nbr] (LmacMsg_new MM_REMOVE_IF_REQ TASK_MM DRV_TASK_ID 1)"

definition build_sm_disconnect_req :: "u8 \<Rightarrow> u16 \<Rightarrow> lmac_msg" where
  "build_sm_disconnect_req vif_idx reason_code =
     put_param 2 [vif_idx] (put_param 0 (le16 reason_code) (LmacMsg_new SM_DISCONNECT_REQ TASK_SM DRV_TASK_ID 3))"

definition build_mm_key_add_req_param ::
  "u8 \<Rightarrow> u8 \<Rightarrow> byte list \<Rightarrow> u8 \<Rightarrow> u8 \<Rightarrow> bool \<Rightarrow> byte list \<Rightarrow> (nat \<times> byte list) option result" where
  "build_mm_key_add_req_param key_idx sta_idx key cipher_suite inst_nbr pairwise_key param_out =
     (let key_len = min (length key) MAC_SEC_KEY_LEN in
      put_fields
        [(2 + 1 + MAC_SEC_KEY_LEN + 4, 3, [key_idx, sta_idx, of_nat key_len]),
         (0, MAC_SEC_KEY_LEN, take key_len key),
         (0, 4, [cipher_suite, inst_nbr, 0, if pairwise_key then 1 else 0])] (0, param_out))"

definition build_mm_key_add_req ::
  "u8 \<Rightarrow> u8 \<Rightarrow> u8 \<Rightarrow> byte list \<Rightarrow> mac_cipher_suite \<Rightarrow> bool \<Rightarrow> lmac_msg option result" where
  "build_mm_key_add_req vif_idx key_idx sta_idx key cipher_suite pairwise_key =
     msg_of_param MM_KEY_ADD_REQ TASK_MM
       (build_mm_key_add_req_param key_idx sta_idx key (mac_cipher_repr cipher_suite) vif_idx pairwise_key (replicate 64 0))"

definition build_mm_key_del_req :: "u8 \<Rightarrow> lmac_msg" where
  "build_mm_key_del_req hw_key_idx = put_param 0 [hw_key_idx] (LmacMsg_new MM_KEY_DEL_REQ TASK_MM DRV_TASK_ID 1)"

text \<open>An \<open>i8\<close> is an integer; \<open>as u8\<close> and \<open>as i8\<close> go through the two's complement.\<close>

definition build_mm_set_power_req :: "u8 \<Rightarrow> int \<Rightarrow> lmac_msg" where
  "build_mm_set_power_req inst_nbr power_dbm =
     put_param 0 [inst_nbr, word_of_int power_dbm] (LmacMsg_new MM_SET_POWER_REQ TASK_MM DRV_TASK_ID 2)"

definition build_mm_sta_add_req :: "u8 \<Rightarrow> mac_addr \<Rightarrow> lmac_msg" where
  "build_mm_sta_add_req inst_nbr mac =
     put_param 6 [inst_nbr] (put_param 0 mac (LmacMsg_new MM_STA_ADD_REQ TASK_MM DRV_TASK_ID 7))"

definition build_mm_sta_del_req :: "u8 \<Rightarrow> lmac_msg" where
  "build_mm_sta_del_req sta_idx = put_param 0 [sta_idx] (LmacMsg_new MM_STA_DEL_REQ TASK_MM DRV_TASK_ID 1)"

definition build_mm_get_sta_info_req :: "u8 \<Rightarrow> lmac_msg" where
  "build_mm_get_sta_info_req sta_idx = put_param 0 [sta_idx] (LmacMsg_new MM_GET_STA_INFO_REQ TASK_MM DRV_TASK_ID 1)"

definition build_apm_start_req_param ::
  "u8 \<Rightarrow> u16 \<Rightarrow> u8 \<Rightarrow> u16 \<Rightarrow> byte list \<Rightarrow> u32 \<Rightarrow> u16 \<Rightarrow> u16 \<Rightarrow> u8 \<Rightarrow> byte list
   \<Rightarrow> (nat \<times> byte list) option result" where
  "build_apm_start_req_param vif_idx chan_freq_mhz chan_band bcn_int basic_rates bcn_addr bcn_len tim_oft tim_len param_out =
     (let rate_len = min (length basic_rates) MAC_RATESET_LEN; cf1 = ucast chan_freq_mhz :: u32 in
      put_fields
        [(1 + MAC_RATESET_LEN, 1 + MAC_RATESET_LEN, of_nat rate_len # take rate_len basic_rates),
         (4, 5, le16 chan_freq_mhz @ [chan_band, 0, 20]),
         plain (le32 cf1 @ le32 cf1 @ [0]),
         plain (le32 bcn_addr @ le16 bcn_len @ le16 tim_oft @ le16 bcn_int),
         plain ([0, 0, 0, 0] @ le16 0x888E @ [tim_len, vif_idx])] (0, param_out))"

definition ieee80211_channel_to_freq :: "u8 \<Rightarrow> u16" where
  "ieee80211_channel_to_freq ch =
     (if 1 \<le> ch \<and> ch \<le> 13 then 2407 + ucast ch * 5
      else if 36 \<le> ch \<and> ch \<le> 165 then 5000 + ucast ch * 5
      else 2412)"

definition build_apm_start_req :: "u8 \<Rightarrow> u8 \<Rightarrow> u16 \<Rightarrow> byte list \<Rightarrow> lmac_msg option result" where
  "build_apm_start_req vif_idx channel beacon_interval basic_rates =
     msg_of_param APM_START_REQ TASK_APM
       (build_apm_start_req_param vif_idx (ieee80211_channel_to_freq channel) 0 beacon_interval basic_rates
          0 0 0 0 (replicate 128 0))"

definition build_apm_stop_req :: "u8 \<Rightarrow> lmac_msg" where
  "build_apm_stop_req vif_idx = put_param 0 [vif_idx] (LmacMsg_new APM_STOP_REQ TASK_APM DRV_TASK_ID 1)"

section \<open>Confirmations and indications\<close>

record mm_add_if_cfm =
  ai_status :: u8
  ai_inst_nbr :: u8

definition parse_mm_add_if_cfm :: "byte list \<Rightarrow> mm_add_if_cfm option" where
  "parse_mm_add_if_cfm param =
     (if length param < 2 then None else Some \<lparr>ai_status = param ! 0, ai_inst_nbr = param ! 1\<rparr>)"

record scanu_start_cfm =
  sc_vif_idx :: u8
  sc_status :: u8
  sc_result_cnt :: u8

definition parse_scanu_start_cfm_full :: "byte list \<Rightarrow> scanu_start_cfm option" where
  "parse_scanu_start_cfm_full param =
     (if length param < 3 then None
      else Some \<lparr>sc_vif_idx = param ! 0, sc_status = param ! 1, sc_result_cnt = param ! 2\<rparr>)"

definition parse_scanu_start_cfm :: "byte list \<Rightarrow> u8 option" where
  "parse_scanu_start_cfm param = map_option sc_status (parse_scanu_start_cfm_full param)"

record scanu_result_ind =
  sri_length :: u16
  sri_center_freq :: u16
  sri_rssi :: int
  sri_payload_offset :: nat

definition parse_scanu_result_ind :: "byte list \<Rightarrow> scanu_result_ind option" where
  "parse_scanu_result_ind param =
     (if length param < 10 then None
      else Some \<lparr>sri_length = from_le16 (param ! 0) (param ! 1), sri_center_freq = from_le16 (param ! 4) (param ! 5),
                 sri_rssi = sint (param ! 9), sri_payload_offset = 10\<rparr>)"

text \<open>
  The loop over the information elements from index \<open>i\<close>: the first SSID element of at most 32
  bytes, or none; a truncated element ends the search.
\<close>

definition WLAN_EID_SSID :: u8 where "WLAN_EID_SSID = 0"
definition BEACON_PROBERESP_FIXED :: nat where "BEACON_PROBERESP_FIXED = 22 + 8 + 2 + 2"

function ie_loop :: "byte list \<Rightarrow> nat \<Rightarrow> byte list option" where
  "ie_loop ies i =
     (if i + 2 \<le> length ies then
        let eid = ies ! i; len = unat (ies ! (i + 1)) in
        if length ies < i + 2 + len then None
        else if eid = WLAN_EID_SSID \<and> len \<le> 32 then Some (take len (drop (i + 2) ies))
        else ie_loop ies (i + 2 + len)
      else None)"
  by pat_completeness auto

termination
  by (relation "measure (\<lambda>(ies, i). length ies - i)") auto

declare ie_loop.simps [simp del]

text \<open>\<open>param.get(n..)?\<close>\<close>

definition get_from :: "nat \<Rightarrow> byte list \<Rightarrow> byte list option" where
  "get_from n xs = (if n \<le> length xs then Some (drop n xs) else None)"

definition parse_scan_result_to_bss_info :: "scanu_result_ind \<Rightarrow> byte list \<Rightarrow> bss_info option" where
  "parse_scan_result_to_bss_info ind param =
     Option.bind (get_from (sri_payload_offset ind) param) (\<lambda>payload.
       if length payload < 22 then None
       else
         Option.bind (get_from BEACON_PROBERESP_FIXED payload) (\<lambda>ie_start.
           let ssid = (case ie_loop ie_start 0 of None \<Rightarrow> [] | Some s \<Rightarrow> s) in
           Some \<lparr>bss_bssid = take 6 (drop 16 payload), bss_freq = ucast (sri_center_freq ind),
                 bss_rssi = sri_rssi ind, bss_ssid = ssid @ replicate (32 - length ssid) 0,
                 bss_ssid_len = of_nat (length ssid)\<rparr>))"

definition parse_sm_connect_cfm :: "byte list \<Rightarrow> u8 option" where
  "parse_sm_connect_cfm param = (if param = [] then None else Some (param ! 0))"

record sm_connect_ind =
  ci_status_code :: u16
  ci_bssid :: mac_addr
  ci_vif_idx :: u8
  ci_ap_idx :: u8

definition parse_sm_connect_ind :: "byte list \<Rightarrow> sm_connect_ind option" where
  "parse_sm_connect_ind param =
     (if length param < 2 + 6 + 1 + 1 + 1 then None
      else Some \<lparr>ci_status_code = from_le16 (param ! 0) (param ! 1), ci_bssid = take 6 (drop 2 param),
                 ci_vif_idx = param ! 9, ci_ap_idx = param ! 10\<rparr>)"

record sm_disconnect_ind =
  di_reason_code :: u16
  di_vif_idx :: u8

definition parse_sm_disconnect_ind :: "byte list \<Rightarrow> sm_disconnect_ind option" where
  "parse_sm_disconnect_ind param =
     (if length param < 3 then None
      else Some \<lparr>di_reason_code = from_le16 (param ! 0) (param ! 1), di_vif_idx = param ! 2\<rparr>)"

record mm_key_add_cfm =
  ka_status :: u8
  ka_hw_key_idx :: u8

definition parse_mm_key_add_cfm :: "byte list \<Rightarrow> mm_key_add_cfm option" where
  "parse_mm_key_add_cfm param =
     (if length param < 2 then None else Some \<lparr>ka_status = param ! 0, ka_hw_key_idx = param ! 1\<rparr>)"

record mm_set_power_cfm =
  sp_radio_idx :: u8
  sp_power :: int

definition parse_mm_set_power_cfm :: "byte list \<Rightarrow> mm_set_power_cfm option" where
  "parse_mm_set_power_cfm param =
     (if length param < 2 then None else Some \<lparr>sp_radio_idx = param ! 0, sp_power = sint (param ! 1)\<rparr>)"

record mm_ps_change_ind =
  ps_sta_idx :: u8
  ps_state :: u8

definition parse_mm_ps_change_ind :: "byte list \<Rightarrow> mm_ps_change_ind option" where
  "parse_mm_ps_change_ind param =
     (if length param < 2 then None else Some \<lparr>ps_sta_idx = param ! 0, ps_state = param ! 1\<rparr>)"

record mm_rssi_status_ind =
  rs_vif_index :: u8
  rs_rssi_status :: bool
  rs_rssi :: int

definition parse_mm_rssi_status_ind :: "byte list \<Rightarrow> mm_rssi_status_ind option" where
  "parse_mm_rssi_status_ind param =
     (if length param < 3 then None
      else Some \<lparr>rs_vif_index = param ! 0, rs_rssi_status = (param ! 1 \<noteq> 0), rs_rssi = sint (param ! 2)\<rparr>)"

definition parse_mm_sta_add_cfm :: "byte list \<Rightarrow> u8 option" where
  "parse_mm_sta_add_cfm param = (if param = [] then None else Some (param ! 0))"

definition parse_mm_sta_del_cfm :: "byte list \<Rightarrow> u8 option" where
  "parse_mm_sta_del_cfm param = (if param = [] then None else Some (param ! 0))"

record mm_get_sta_info_cfm =
  gs_rate_info :: u32
  gs_txfailed :: u32
  gs_rssi :: int
  gs_chan_time :: u32
  gs_chan_busy_time :: u32
  gs_ack_fail_stat :: u32
  gs_ack_succ_stat :: u32
  gs_chan_tx_busy_time :: u32

definition u32_at :: "byte list \<Rightarrow> nat \<Rightarrow> u32" where
  "u32_at param off = from_le32 (param ! off) (param ! (off + 1)) (param ! (off + 2)) (param ! (off + 3))"

definition parse_mm_get_sta_info_cfm :: "byte list \<Rightarrow> mm_get_sta_info_cfm option" where
  "parse_mm_get_sta_info_cfm param =
     (if length param < 4 + 4 + 1 + 3 + 4 * 5 then None
      else Some \<lparr>gs_rate_info = u32_at param 0, gs_txfailed = u32_at param 4, gs_rssi = sint (param ! 8),
                 gs_chan_time = u32_at param 12, gs_chan_busy_time = u32_at param 16,
                 gs_ack_fail_stat = u32_at param 20, gs_ack_succ_stat = u32_at param 24,
                 gs_chan_tx_busy_time = u32_at param 28\<rparr>)"

record apm_start_cfm =
  ap_status :: u8
  ap_vif_idx :: u8
  ap_ch_idx :: u8
  ap_bcmc_idx :: u8

definition parse_apm_start_cfm :: "byte list \<Rightarrow> apm_start_cfm option" where
  "parse_apm_start_cfm param =
     (if length param < 4 then None
      else Some \<lparr>ap_status = param ! 0, ap_vif_idx = param ! 1, ap_ch_idx = param ! 2, ap_bcmc_idx = param ! 3\<rparr>)"

section \<open>Layout of the requests\<close>

definition field_bytes :: "field \<Rightarrow> byte list" where
  "field_bytes = (\<lambda>(need, adv, bs). bs @ replicate (adv - length bs) 0)"

lemma field_bytes_plain [simp]: "field_bytes (plain bs) = bs"
  by (simp add: field_bytes_def plain_def)

text \<open>Every check of the fields looks at memory inside the \<open>N\<close> bytes.\<close>

fun fits :: "nat \<Rightarrow> nat \<Rightarrow> field list \<Rightarrow> bool" where
  "fits N off [] \<longleftrightarrow> off \<le> N"
| "fits N off ((need, adv, bs) # fs) \<longleftrightarrow> off + need \<le> N \<and> length bs \<le> adv \<and> fits N (off + adv) fs"

lemma fits_le: "fits N off fs \<Longrightarrow> off \<le> N"
  by (induction N off fs rule: fits.induct) auto

lemma put_fields_zeros:
  assumes "fits N (length pre) fs"
  shows "put_fields fs (length pre, pre @ replicate (N - length pre) 0) =
     ok (Some (length (pre @ concat (map field_bytes fs)),
               (pre @ concat (map field_bytes fs)) @ replicate (N - length (pre @ concat (map field_bytes fs))) 0))"
  using assms
proof (induction fs arbitrary: pre)
  case Nil
  then show ?case by simp
next
  case (Cons f fs)
  obtain need adv bs where f: "f = (need, adv, bs)" by (metis prod_cases3)
  have l: "length bs \<le> adv" "length pre + need \<le> N" "length pre + adv \<le> N"
    using Cons.prems fits_le [of N "length pre + adv" fs] by (auto simp: f)
  have "replicate (N - length pre - length bs) (0::byte) =
      replicate (adv - length bs) 0 @ replicate (N - (length pre + adv)) 0"
    using l by (simp flip: replicate_add)
  then have "put_field f (length pre, pre @ replicate (N - length pre) 0) =
      ok (Some (length (pre @ field_bytes f), (pre @ field_bytes f) @ replicate (N - length (pre @ field_bytes f)) 0))"
    using l by (simp add: f put_field_def field_bytes_def)
  moreover have "fits N (length (pre @ field_bytes f)) fs"
    using Cons.prems l by (simp add: f field_bytes_def)
  ultimately show ?case using Cons.IH [of "pre @ field_bytes f"] by (simp add: add.assoc)
qed

lemma msg_of_param_ok:
  assumes "length bytes \<le> LMAC_MSG_MAX_LEN"
  shows "msg_of_param mid task (ok (Some (length bytes, bytes @ rest))) =
     ok (Some \<lparr>m_header = \<lparr>h_id = mid, h_dest_id = task, h_src_id = DRV_TASK_ID, h_param_len = of_nat (length bytes)\<rparr>,
               m_param = bytes @ replicate (LMAC_MSG_MAX_LEN - length bytes) 0\<rparr>)"
  using assms by (simp add: msg_of_param_def slice_get_def put_param_def LmacMsg_new_def)

lemma msg_of_fields:
  assumes "fits N 0 fs" and "concat (map field_bytes fs) = bytes" and "N \<le> LMAC_MSG_MAX_LEN"
  shows "msg_of_param mid task (put_fields fs (0, replicate N 0)) =
     ok (Some \<lparr>m_header = \<lparr>h_id = mid, h_dest_id = task, h_src_id = DRV_TASK_ID, h_param_len = of_nat (length bytes)\<rparr>,
               m_param = bytes @ replicate (LMAC_MSG_MAX_LEN - length bytes) 0\<rparr>)"
proof -
  have "length bytes \<le> N"
    using assms(1) unfolding assms(2) [symmetric]
  proof -
    have "fits N off fs \<Longrightarrow> off + length (concat (map field_bytes fs)) \<le> N" for off
      by (induction fs arbitrary: off) (fastforce simp: field_bytes_def)+
    with assms(1) show "length (concat (map field_bytes fs)) \<le> N" by fastforce
  qed
  with put_fields_zeros [of N "[]" fs] msg_of_param_ok [of bytes mid task] assms show ?thesis by simp
qed

text \<open>A byte string cut or padded with zeros to \<open>n\<close> bytes.\<close>

definition padded :: "nat \<Rightarrow> byte list \<Rightarrow> byte list" where
  "padded n xs = take n xs @ replicate (n - length xs) 0"

lemma length_padded [simp]: "length (padded n xs) = n"
  by (simp add: padded_def)

lemma padded_field: "take (min (length xs) n) xs @ replicate (n - min (length xs) n) 0 @ ys = padded n xs @ ys"
  by (cases "length xs \<le> n") (simp_all add: padded_def min_def)

lemma zeros_append:
  "replicate m (0::byte) @ replicate n 0 = replicate (m + n) 0"
  "replicate m (0::byte) @ replicate n 0 @ xs = replicate (m + n) 0 @ xs"
  by (simp_all add: replicate_add)

lemma le_zero: "le16 0 = [0, 0]" "le32 0 = [0, 0, 0, 0]"
  by code_simp+

lemmas layout_defs = plain_def field_bytes_def lmac_consts LMAC_MSG_MAX_LEN_def

lemma zeros_list:
  "replicate 4 (0::byte) = [0, 0, 0, 0]" "replicate 9 (0::byte) = [0, 0, 0, 0, 0, 0, 0, 0, 0]"
  "replicate 10 (0::byte) = [0, 0, 0, 0, 0, 0, 0, 0, 0, 0]"
  "replicate 15 (0::byte) = [0, 0, 0, 0, 0, 0, 0, 0, 0, 0, 0, 0, 0, 0, 0]"
  by (simp_all add: numeral_eq_Suc)

lemma scanu_start_req_layout:
  "build_scanu_start_req vif dur = ok (Some \<lparr>
     m_header = \<lparr>h_id = SCANU_START_REQ, h_dest_id = TASK_SCANU, h_src_id = DRV_TASK_ID, h_param_len = 329\<rparr>,
     m_param = replicate 309 0 @ replicate 6 0xff @ replicate 6 0 @ [vif, 0, 0, 0] @ le32 dur @ replicate 703 0\<rparr>)"
  unfolding build_scanu_start_req_def build_scanu_start_req_param_def
  by (subst msg_of_fields [where bytes = "replicate 309 0 @ replicate 6 0xff @ replicate 6 0 @ [vif, 0, 0, 0] @ le32 dur"])
    (simp_all add: zeros_append layout_defs)

lemma sm_connect_req_layout:
  assumes "\<And>mac. bssid = Some mac \<Longrightarrow> length mac = 6"
  shows "build_sm_connect_req vif ssid bssid freq = ok (Some \<lparr>
     m_header = \<lparr>h_id = SM_CONNECT_REQ, h_dest_id = TASK_SM, h_src_id = DRV_TASK_ID, h_param_len = 313\<rparr>,
     m_param = [of_nat (min (length ssid) 32)] @ padded 32 ssid @ (case bssid of None \<Rightarrow> replicate 6 0xff | Some mac \<Rightarrow> mac) @
       (case freq of None \<Rightarrow> [0, 0] | Some f \<Rightarrow> le16 f) @ replicate 15 0 @ [vif] @ replicate 975 0\<rparr>)"
  unfolding build_sm_connect_req_def Let_def
  by (subst msg_of_fields [where bytes = "[of_nat (min (length ssid) 32)] @ padded 32 ssid @
        (case bssid of None \<Rightarrow> replicate 6 0xff | Some mac \<Rightarrow> mac) @ (case freq of None \<Rightarrow> [0, 0] | Some f \<Rightarrow> le16 f) @
        replicate 15 0 @ [vif] @ replicate 256 0"])
    (use assms in \<open>simp_all add: layout_defs padded_field zeros_list zeros_append split: option.splits\<close>)

lemma mm_key_add_req_layout:
  "build_mm_key_add_req vif kidx sidx key cs pw = ok (Some \<lparr>
     m_header = \<lparr>h_id = MM_KEY_ADD_REQ, h_dest_id = TASK_MM, h_src_id = DRV_TASK_ID, h_param_len = 39\<rparr>,
     m_param = [kidx, sidx, of_nat (min (length key) 32)] @ padded 32 key @
       [mac_cipher_repr cs, vif, 0, if pw then 1 else 0] @ replicate 993 0\<rparr>)"
  unfolding build_mm_key_add_req_def build_mm_key_add_req_param_def Let_def
  by (subst msg_of_fields [where bytes = "[kidx, sidx, of_nat (min (length key) 32)] @ padded 32 key @
        [mac_cipher_repr cs, vif, 0, if pw then 1 else 0]"])
    (simp_all add: layout_defs padded_field)

lemma apm_start_req_layout:
  "build_apm_start_req vif ch interval rates = ok (Some \<lparr>
     m_header = \<lparr>h_id = APM_START_REQ, h_dest_id = TASK_APM, h_src_id = DRV_TASK_ID, h_param_len = 45\<rparr>,
     m_param = [of_nat (min (length rates) 12)] @ padded 12 rates @
       le16 (ieee80211_channel_to_freq ch) @ [0, 0, 20] @
       le32 (ucast (ieee80211_channel_to_freq ch)) @ le32 (ucast (ieee80211_channel_to_freq ch)) @ replicate 9 0 @
       le16 interval @ replicate 4 0 @ le16 0x888E @ [0, vif] @ replicate 987 0\<rparr>)"
  unfolding build_apm_start_req_def build_apm_start_req_param_def Let_def
  by (subst msg_of_fields [where bytes = "[of_nat (min (length rates) 12)] @ padded 12 rates @
        le16 (ieee80211_channel_to_freq ch) @ [0, 0, 20] @
        le32 (ucast (ieee80211_channel_to_freq ch)) @ le32 (ucast (ieee80211_channel_to_freq ch)) @ replicate 9 0 @
        le16 interval @ replicate 4 0 @ le16 0x888E @ [0, vif]"])
    (simp_all add: layout_defs padded_field zeros_list le_zero)



section \<open>Scan results\<close>

text \<open>Information elements as they stand in a beacon, and a rest that holds no complete element.\<close>

definition ie_bytes :: "(u8 \<times> byte list) list \<Rightarrow> byte list" where
  "ie_bytes els = concat (map (\<lambda>(eid, body). eid # of_nat (length body) # body) els)"

definition cut_off :: "byte list \<Rightarrow> bool" where
  "cut_off rest \<longleftrightarrow> length rest < 2 \<or> length rest < 2 + unat (rest ! 1)"

lemma ie_loop_at:
  assumes "list_all (\<lambda>(eid, body). length body < 256) els" and "cut_off rest"
  shows "ie_loop (pre @ ie_bytes els @ rest) (length pre) =
     map_option snd (find (\<lambda>(eid, body). eid = WLAN_EID_SSID \<and> length body \<le> 32) els)"
  using assms(1)
proof (induction els arbitrary: pre)
  case Nil
  with assms(2) show ?case
    by (subst ie_loop.simps) (auto simp: ie_bytes_def cut_off_def nth_append Let_def)
next
  case (Cons el els)
  obtain eid body where el: "el = (eid, body)" by (cases el)
  let ?all = "pre @ ie_bytes (el # els) @ rest"
  have split_all: "?all = (pre @ eid # of_nat (length body) # body) @ ie_bytes els @ rest"
    by (simp add: el ie_bytes_def)
  have len: "unat (of_nat (length body) :: u8) = length body"
    using Cons.prems by (simp add: el unat_of_nat)
  have nths: "?all ! length pre = eid" "?all ! (length pre + 1) = of_nat (length body)"
    by (simp_all add: el ie_bytes_def nth_append)
  have room: "length pre + 2 + length body \<le> length ?all" by (simp add: el ie_bytes_def)
  have body: "take (length body) (drop (length pre + 2) ?all) = body"
    by (simp add: el ie_bytes_def)
  have "ie_loop ?all (length pre) =
      (if eid = WLAN_EID_SSID \<and> length body \<le> 32 then Some body else ie_loop ?all (length pre + 2 + length body))"
    using room by (subst ie_loop.simps) (simp only: nths len body Let_def, simp)
  moreover have "ie_loop ?all (length pre + 2 + length body) =
      map_option snd (find (\<lambda>(eid, body). eid = WLAN_EID_SSID \<and> length body \<le> 32) els)"
    using Cons.IH [of "pre @ eid # of_nat (length body) # body"] Cons.prems
    unfolding split_all by (simp add: el)
  ultimately show ?case by (simp add: el)
qed

definition bss_ssid_of :: "(u8 \<times> byte list) list \<Rightarrow> byte list" where
  "bss_ssid_of els = (case find (\<lambda>(eid, body). eid = WLAN_EID_SSID \<and> length body \<le> 32) els of
     None \<Rightarrow> [] | Some (_, body) \<Rightarrow> body)"



end
