(* ===== verification/Wiphy.thy ===== *)
theory Wiphy
  imports Ipc Lmac_Cmd
begin

text \<open>
  The control plane of the full driver (\<open>driver/fdrv/src/wiphy_impl.rs\<close> and \<open>wiphy.rs\<close>): the
  state of \<open>WiphyOpsImpl\<close> (hardware key indices, default keys, station table, transmit power,
  channel), the exchange of a request for its confirmation over the IPC layer, and the operations
  of \<open>WiphyOps\<close>. An operation acts on the pair of that state and the shared cells of the driver.
\<close>

section \<open>State\<close>

definition MAX_VIF :: nat where "MAX_VIF = 4"
definition MAX_KEYS_PER_VIF :: nat where "MAX_KEYS_PER_VIF = 8"
definition STA_TABLE_LEN :: nat where "STA_TABLE_LEN = 16"

lemmas wiphy_consts = MAX_VIF_def MAX_KEYS_PER_VIF_def STA_TABLE_LEN_def

record sta_entry =
  se_mac :: mac_addr
  se_sta_idx :: u8
  se_used :: bool

definition sta_entry_default :: sta_entry where
  "sta_entry_default = \<lparr>se_mac = replicate 6 0, se_sta_idx = 0, se_used = False\<rparr>"

record wiphy_state =
  key_hw :: "u8 option list list"
  default_key :: "u8 option list"
  default_mgmt_key :: "u8 option list"
  sta_table :: "sta_entry list"
  last_tx_power_dbm :: "int option list"
  current_channel :: "u8 option list"

definition WiphyOpsImpl_new :: wiphy_state where
  "WiphyOpsImpl_new =
     \<lparr>key_hw = replicate MAX_VIF (replicate MAX_KEYS_PER_VIF None), default_key = replicate MAX_VIF None,
      default_mgmt_key = replicate MAX_VIF None, sta_table = replicate STA_TABLE_LEN sta_entry_default,
      last_tx_power_dbm = replicate MAX_VIF None, current_channel = replicate MAX_VIF None\<rparr>"

section \<open>Requests and confirmations\<close>

text \<open>
  \<open>send_lmac_cmd_and_wait_cfm_with_buf\<close> with a zeroed confirmation buffer of \<open>cap\<close> bytes: the
  number of bytes and the buffer.
\<close>

definition send_lmac_cmd_and_wait_cfm_with_buf ::
  "'w bsp_env \<Rightarrow> nat \<Rightarrow> lmac_msg \<Rightarrow> u16 \<Rightarrow> u32 \<Rightarrow> nat \<Rightarrow> ('w bsp, nat \<times> byte list) io" where
  "send_lmac_cmd_and_wait_cfm_with_buf env fuel msg cfm_id timeout_ms cap =
     io_bind (\<lambda>s. (ok_or (aicbsp_current_product_id s) (-22), s)) (\<lambda>pid.
     io_bind (io_lift (serialize_for pid msg (replicate 512 0))) (\<lambda>(len, buf).
       let send_len = (if pid = Aic8801 then ipc_send_len_8801 len else len) in
       if send_len > length buf then io_fail (Errno (-22))
       else
         io_bind (io_lift (fill_range len send_len buf)) (\<lambda>buf'.
         io_bind (push_token cfm_id) (\<lambda>token.
         io_bind (io_lift (slice_get 0 send_len buf')) (\<lambda>b.
         io_bind (submit_cmd_tx_and_wait_tx_done env fuel b send_len) (\<lambda>_.
         io_bind (wait_done_until timeout_ms (token_done token) None
                    (Some (\<lambda>s. snd (sdio_poll_rx_once env s))) None (env_idle env)) (\<lambda>_ s.
           case take_token token (replicate cap 0) s of (r, s') \<Rightarrow> (ok_or r (-5), s'))))))))"

definition send_lmac_cmd_and_wait_cfm ::
  "'w bsp_env \<Rightarrow> nat \<Rightarrow> lmac_msg \<Rightarrow> u16 \<Rightarrow> u32 \<Rightarrow> ('w bsp, unit) io" where
  "send_lmac_cmd_and_wait_cfm env fuel msg cfm_id timeout_ms =
     io_bind (send_lmac_cmd_and_wait_cfm_with_buf env fuel msg cfm_id timeout_ms 64) (\<lambda>_. io_return ())"

text \<open>The confirmation as the callers read it: the whole buffer, or its first \<open>n\<close> bytes.\<close>

definition cfm_whole :: "'w bsp_env \<Rightarrow> nat \<Rightarrow> lmac_msg \<Rightarrow> u16 \<Rightarrow> nat \<Rightarrow> ('w bsp, byte list) io" where
  "cfm_whole env fuel msg cfm_id cap =
     io_bind (send_lmac_cmd_and_wait_cfm_with_buf env fuel msg cfm_id RWNX_80211_CMD_TIMEOUT_MS cap)
       (\<lambda>(n, buf). io_return buf)"

definition cfm_prefix :: "'w bsp_env \<Rightarrow> nat \<Rightarrow> lmac_msg \<Rightarrow> u16 \<Rightarrow> nat \<Rightarrow> ('w bsp, byte list) io" where
  "cfm_prefix env fuel msg cfm_id cap =
     io_bind (send_lmac_cmd_and_wait_cfm_with_buf env fuel msg cfm_id RWNX_80211_CMD_TIMEOUT_MS cap)
       (\<lambda>(n, buf). io_lift (slice_get 0 n buf))"

text \<open>A builder that may give up: \<open>.ok_or(-22)?\<close>\<close>

definition built :: "lmac_msg option result \<Rightarrow> lmac_msg result" where
  "built r = bind_res r (\<lambda>m. ok_or m (-22))"

section \<open>The station table\<close>

text \<open>The scan stops at the first unused entry or at the entry of this address.\<close>

fun register_scan :: "mac_addr \<Rightarrow> u8 \<Rightarrow> sta_entry list \<Rightarrow> sta_entry list" where
  "register_scan bssid ap_idx [] = []"
| "register_scan bssid ap_idx (e # es) =
     (if \<not> se_used e then \<lparr>se_mac = bssid, se_sta_idx = ap_idx, se_used = True\<rparr> # es
      else if se_mac e = bssid then e\<lparr>se_sta_idx := ap_idx\<rparr> # es
      else e # register_scan bssid ap_idx es)"

definition register_sta_from_connect_ind :: "u8 \<Rightarrow> mac_addr \<Rightarrow> u8 \<Rightarrow> wiphy_state \<Rightarrow> wiphy_state" where
  "register_sta_from_connect_ind vif_idx bssid ap_idx st = st\<lparr>sta_table := register_scan bssid ap_idx (sta_table st)\<rparr>"

fun unregister_scan :: "mac_addr \<Rightarrow> sta_entry list \<Rightarrow> sta_entry list" where
  "unregister_scan mac [] = []"
| "unregister_scan mac (e # es) =
     (if se_used e \<and> se_mac e = mac then e\<lparr>se_used := False\<rparr> # es else e # unregister_scan mac es)"

definition unregister_sta_by_mac :: "mac_addr \<Rightarrow> wiphy_state \<Rightarrow> wiphy_state" where
  "unregister_sta_by_mac mac st = st\<lparr>sta_table := unregister_scan mac (sta_table st)\<rparr>"

definition lookup_sta_idx :: "mac_addr \<Rightarrow> wiphy_state \<Rightarrow> u8 option" where
  "lookup_sta_idx mac st = map_option se_sta_idx (find (\<lambda>e. se_used e \<and> se_mac e = mac) (sta_table st))"

definition fill_station_info_from_cfm :: "mm_get_sta_info_cfm \<Rightarrow> station_info" where
  "fill_station_info_from_cfm cfm = station_info_default
     \<lparr>si_filled := STA_INFO_TX_BITRATE OR STA_INFO_TX_FAILED OR STA_INFO_SIGNAL, si_tx_failed := gs_txfailed cfm,
      si_rssi := gs_rssi cfm, si_tx_rate := gs_rate_info cfm, si_rx_rate := gs_rate_info cfm\<rparr>"

section \<open>Operations\<close>

type_synonym ('w, 'a) wop = "(wiphy_state \<times> 'w bsp, 'a) io"

definition upd_wiphy :: "(wiphy_state \<Rightarrow> wiphy_state) \<Rightarrow> ('w, unit) wop" where
  "upd_wiphy f = (\<lambda>(st, s). (ok (), (f st, s)))"

definition get_wiphy :: "(wiphy_state \<Rightarrow> 'a result) \<Rightarrow> ('w, 'a) wop" where
  "get_wiphy f = (\<lambda>(st, s). (f st, (st, s)))"

fun vif_type_of :: "iftype \<Rightarrow> mac_vif_type" where
  "vif_type_of Station = VifSta"
| "vif_type_of Ap = VifAp"
| "vif_type_of AdHoc = VifIbss"
| "vif_type_of Monitor = VifMonitor"
| "vif_type_of _ = VifSta"

definition add_interface :: "'w bsp_env \<Rightarrow> nat \<Rightarrow> iftype \<Rightarrow> ('w, ifindex) wop" where
  "add_interface env fuel iface_type =
     io_bind (on_snd (cfm_whole env fuel (build_mm_add_if_req (vif_type_of iface_type) (replicate 6 0) False) MM_ADD_IF_CFM 8))
       (\<lambda>cfm_buf.
     io_bind (io_lift (ok_or (parse_mm_add_if_cfm cfm_buf) (-5))) (\<lambda>cfm.
       if ai_status cfm \<noteq> 0 then io_fail (Errno (-5)) else io_return (ucast (ai_inst_nbr cfm))))"

definition del_interface :: "'w bsp_env \<Rightarrow> nat \<Rightarrow> ifindex \<Rightarrow> ('w, unit) wop" where
  "del_interface env fuel iface_id =
     on_snd (send_lmac_cmd_and_wait_cfm env fuel (build_mm_remove_if_req (ucast iface_id)) MM_REMOVE_IF_CFM RWNX_80211_CMD_TIMEOUT_MS)"

definition wiphy_scan :: "'w bsp_env \<Rightarrow> nat \<Rightarrow> ifindex \<Rightarrow> ('w, unit) wop" where
  "wiphy_scan env fuel iface_id =
     io_bind (io_lift (built (build_scanu_start_req (ucast iface_id) 0))) (\<lambda>msg.
       on_snd (send_lmac_cmd_and_wait_cfm env fuel msg SCANU_START_CFM RWNX_80211_CMD_TIMEOUT_MS))"

definition connect :: "'w bsp_env \<Rightarrow> nat \<Rightarrow> ifindex \<Rightarrow> byte list \<Rightarrow> mac_addr option \<Rightarrow> ('w, unit) wop" where
  "connect env fuel iface_id ssid bssid =
     io_bind (io_lift (built (build_sm_connect_req (ucast iface_id) ssid bssid None))) (\<lambda>msg.
     io_bind (on_snd (cfm_prefix env fuel msg SM_CONNECT_CFM 8)) (\<lambda>p.
       let status = (case parse_sm_connect_cfm p of None \<Rightarrow> 0xff | Some x \<Rightarrow> x) in
       if status = 0 then io_return ()
       else if status = 8 then io_fail (Errno (-115))
       else if status = 9 then io_fail (Errno (-114))
       else io_fail (Errno (-5))))"

definition disconnect :: "'w bsp_env \<Rightarrow> nat \<Rightarrow> ifindex \<Rightarrow> ('w, unit) wop" where
  "disconnect env fuel iface_id =
     on_snd (send_lmac_cmd_and_wait_cfm env fuel (build_sm_disconnect_req (ucast iface_id) 3) SM_DISCONNECT_CFM RWNX_80211_CMD_TIMEOUT_MS)"

definition start_ap :: "'w bsp_env \<Rightarrow> nat \<Rightarrow> ifindex \<Rightarrow> byte list \<Rightarrow> u8 \<Rightarrow> ('w, unit) wop" where
  "start_ap env fuel iface_id ssid channel =
     io_bind (io_lift (built (build_apm_start_req (ucast iface_id) channel 100 [0x82, 0x84, 0x8b, 0x96]))) (\<lambda>msg.
     io_bind (on_snd (cfm_whole env fuel msg APM_START_CFM 32)) (\<lambda>cfm_buf.
     io_bind (io_lift (ok_or (parse_apm_start_cfm cfm_buf) (-5))) (\<lambda>cfm.
       if ap_status cfm \<noteq> 0 then io_fail (Errno (-5))
       else
         io_bind (upd_wiphy (\<lambda>st.
           if unat (ap_bcmc_idx cfm) < STA_TABLE_LEN
           then st\<lparr>sta_table := (sta_table st)[unat (ap_bcmc_idx cfm) :=
                    \<lparr>se_mac = replicate 6 0xff, se_sta_idx = ap_bcmc_idx cfm, se_used = True\<rparr>]\<rparr>
           else st)) (\<lambda>_.
         upd_wiphy (\<lambda>st.
           if unat iface_id < MAX_VIF
           then st\<lparr>current_channel := (current_channel st)[unat iface_id := Some channel]\<rparr> else st)))))"

definition stop_ap :: "'w bsp_env \<Rightarrow> nat \<Rightarrow> ifindex \<Rightarrow> ('w, unit) wop" where
  "stop_ap env fuel iface_id =
     on_snd (send_lmac_cmd_and_wait_cfm env fuel (build_apm_stop_req (ucast iface_id)) APM_STOP_CFM RWNX_80211_CMD_TIMEOUT_MS)"

definition set_key_hw :: "nat \<Rightarrow> nat \<Rightarrow> u8 option \<Rightarrow> wiphy_state \<Rightarrow> wiphy_state" where
  "set_key_hw vif k x st = st\<lparr>key_hw := (key_hw st)[vif := (key_hw st ! vif)[k := x]]\<rparr>"

definition add_key :: "'w bsp_env \<Rightarrow> nat \<Rightarrow> ifindex \<Rightarrow> u8 \<Rightarrow> byte list \<Rightarrow> ('w, unit) wop" where
  "add_key env fuel iface_id key_index key_data =
     (let vif_idx = ucast iface_id :: u8 in
      io_bind (io_lift (ok_or (wlan_cipher_to_mac CIPHER_CCMP) (-22))) (\<lambda>mac_cipher.
      io_bind (io_lift (built (build_mm_key_add_req vif_idx key_index 0xFF key_data mac_cipher False))) (\<lambda>msg.
      io_bind (on_snd (cfm_prefix env fuel msg MM_KEY_ADD_CFM 8)) (\<lambda>p.
      io_bind (io_lift (ok_or (parse_mm_key_add_cfm p) (-5))) (\<lambda>cfm.
        if ka_status cfm \<noteq> 0 then io_fail (Errno (-5))
        else if unat vif_idx < MAX_VIF \<and> unat key_index < MAX_KEYS_PER_VIF
        then upd_wiphy (set_key_hw (unat vif_idx) (unat key_index) (Some (ka_hw_key_idx cfm)))
        else io_return ())))))"

definition del_key :: "'w bsp_env \<Rightarrow> nat \<Rightarrow> ifindex \<Rightarrow> u8 \<Rightarrow> ('w, unit) wop" where
  "del_key env fuel iface_id key_index =
     (if unat iface_id < MAX_VIF \<and> unat key_index < MAX_KEYS_PER_VIF then
        io_bind (get_wiphy (\<lambda>st. ok_or (key_hw st ! unat iface_id ! unat key_index) (-2))) (\<lambda>hw_key_idx.
        io_bind (on_snd (send_lmac_cmd_and_wait_cfm env fuel (build_mm_key_del_req hw_key_idx) MM_KEY_DEL_CFM
                   RWNX_80211_CMD_TIMEOUT_MS)) (\<lambda>_.
          upd_wiphy (set_key_hw (unat iface_id) (unat key_index) None)))
      else io_fail (Errno (-2)))"

definition set_default_key :: "ifindex \<Rightarrow> u8 \<Rightarrow> ('w, unit) wop" where
  "set_default_key iface_id key_index =
     (if unat iface_id < MAX_VIF
      then upd_wiphy (\<lambda>st. st\<lparr>default_key := (default_key st)[unat iface_id := Some key_index]\<rparr>)
      else io_return ())"

definition get_key :: "ifindex \<Rightarrow> u8 \<Rightarrow> ('w, key_status) wop" where
  "get_key iface_id key_index =
     (if unat iface_id \<ge> MAX_VIF \<or> unat key_index \<ge> MAX_KEYS_PER_VIF then io_fail (Errno (-22))
      else get_wiphy (\<lambda>st. ok \<lparr>ks_present = (key_hw st ! unat iface_id ! unat key_index \<noteq> None), ks_cipher = 0\<rparr>))"

definition set_default_mgmt_key :: "ifindex \<Rightarrow> u8 \<Rightarrow> ('w, unit) wop" where
  "set_default_mgmt_key iface_id key_index =
     (if unat iface_id \<ge> MAX_VIF then io_fail (Errno (-22))
      else upd_wiphy (\<lambda>st. st\<lparr>default_mgmt_key := (default_mgmt_key st)[unat iface_id := Some key_index]\<rparr>))"

definition get_station :: "'w bsp_env \<Rightarrow> nat \<Rightarrow> ifindex \<Rightarrow> mac_addr \<Rightarrow> ('w, station_info) wop" where
  "get_station env fuel iface_id mac =
     io_bind (get_wiphy (\<lambda>st. ok_or (lookup_sta_idx mac st) (-2))) (\<lambda>sta_idx.
     io_bind (on_snd (cfm_prefix env fuel (build_mm_get_sta_info_req sta_idx) MM_GET_STA_INFO_CFM 64)) (\<lambda>p.
     io_bind (io_lift (ok_or (parse_mm_get_sta_info_cfm p) (-5))) (\<lambda>cfm.
       io_return (fill_station_info_from_cfm cfm))))"

definition add_station :: "'w bsp_env \<Rightarrow> nat \<Rightarrow> ifindex \<Rightarrow> mac_addr \<Rightarrow> ('w, unit) wop" where
  "add_station env fuel iface_id mac =
     io_bind (on_snd (cfm_prefix env fuel (build_mm_sta_add_req (ucast iface_id) mac) MM_STA_ADD_CFM 8)) (\<lambda>p.
       let status = (case parse_mm_sta_add_cfm p of None \<Rightarrow> 0xff | Some x \<Rightarrow> x) in
       if status \<noteq> 0 then io_fail (Errno (-5)) else io_return ())"

definition del_station :: "'w bsp_env \<Rightarrow> nat \<Rightarrow> ifindex \<Rightarrow> u8 \<Rightarrow> ('w, unit) wop" where
  "del_station env fuel iface_id sta_idx =
     io_bind (on_snd (cfm_prefix env fuel (build_mm_sta_del_req sta_idx) MM_STA_DEL_CFM 8)) (\<lambda>p.
       let status = (case parse_mm_sta_del_cfm p of None \<Rightarrow> 0xff | Some x \<Rightarrow> x) in
       if status \<noteq> 0 then io_fail (Errno (-5)) else io_return ())"

text \<open>The requested power is an \<open>i32\<close>; division truncates towards zero and \<open>as i8\<close> keeps the low byte.\<close>

definition I32_MAX :: int where "I32_MAX = 2147483647"

definition as_i8 :: "int \<Rightarrow> int" where
  "as_i8 x = sint (word_of_int x :: 8 word)"

definition power_dbm_of :: "int \<Rightarrow> int" where
  "power_dbm_of pwr =
     (if pwr = I32_MAX \<or> pwr \<ge> 12700 then 0x7f
      else as_i8 (if pwr < 0 then - ((- pwr) div 100) else pwr div 100))"

definition set_tx_power :: "'w bsp_env \<Rightarrow> nat \<Rightarrow> ifindex \<Rightarrow> int \<Rightarrow> ('w, unit) wop" where
  "set_tx_power env fuel iface_id pwr =
     (if unat iface_id \<ge> MAX_VIF then io_fail (Errno (-22))
      else
        io_bind (on_snd (cfm_prefix env fuel (build_mm_set_power_req (ucast iface_id) (power_dbm_of pwr)) MM_SET_POWER_CFM 8)) (\<lambda>p.
        io_bind (io_lift (ok_or (parse_mm_set_power_cfm p) (-5))) (\<lambda>_.
          upd_wiphy (\<lambda>st. st\<lparr>last_tx_power_dbm := (last_tx_power_dbm st)[unat iface_id := Some (power_dbm_of pwr)]\<rparr>))))"

definition get_tx_power :: "ifindex \<Rightarrow> ('w, int) wop" where
  "get_tx_power iface_id =
     (if unat iface_id \<ge> MAX_VIF then io_fail (Errno (-22))
      else get_wiphy (\<lambda>st. ok ((case last_tx_power_dbm st ! unat iface_id of None \<Rightarrow> 0 | Some p \<Rightarrow> p) * 100)))"

definition get_channel :: "ifindex \<Rightarrow> ('w, u8) wop" where
  "get_channel iface_id =
     (if unat iface_id \<ge> MAX_VIF then io_fail (Errno (-22))
      else get_wiphy (\<lambda>st. ok_or (current_channel st ! unat iface_id) (-61)))"

definition set_power_mgmt :: "ifindex \<Rightarrow> bool \<Rightarrow> ('w, unit) wop" where
  "set_power_mgmt iface_id enabled = io_return ()"

definition set_wiphy_params :: "int option \<Rightarrow> int option \<Rightarrow> ('w, unit) wop" where
  "set_wiphy_params rts frag = io_fail (Errno (-38))"

section \<open>The operations as data\<close>

text \<open>The operations of \<open>WiphyOps\<close> as data, and the call with its value dropped.\<close>

datatype wiphy_call =
    AddInterface iftype | DelInterface ifindex | Scan ifindex | Connect ifindex "byte list" "mac_addr option"
  | Disconnect ifindex | StartAp ifindex "byte list" u8 | StopAp ifindex | AddKey ifindex u8 "byte list"
  | DelKey ifindex u8 | SetDefaultKey ifindex u8 | GetKey ifindex u8 | SetDefaultMgmtKey ifindex u8
  | GetStation ifindex mac_addr | AddStation ifindex mac_addr | DelStation ifindex u8 | SetTxPower ifindex int
  | GetTxPower ifindex | GetChannel ifindex | SetPowerMgmt ifindex bool | SetWiphyParams "int option" "int option"

definition io_void :: "('w, 'a) io \<Rightarrow> ('w, unit) io" where
  "io_void m = io_bind m (\<lambda>_. io_return ())"

fun wiphy_exec :: "'w bsp_env \<Rightarrow> nat \<Rightarrow> wiphy_call \<Rightarrow> ('w, unit) wop" where
  "wiphy_exec env fuel (AddInterface t) = io_void (add_interface env fuel t)"
| "wiphy_exec env fuel (DelInterface i) = del_interface env fuel i"
| "wiphy_exec env fuel (Scan i) = wiphy_scan env fuel i"
| "wiphy_exec env fuel (Connect i ssid bssid) = connect env fuel i ssid bssid"
| "wiphy_exec env fuel (Disconnect i) = disconnect env fuel i"
| "wiphy_exec env fuel (StartAp i ssid ch) = start_ap env fuel i ssid ch"
| "wiphy_exec env fuel (StopAp i) = stop_ap env fuel i"
| "wiphy_exec env fuel (AddKey i k key) = add_key env fuel i k key"
| "wiphy_exec env fuel (DelKey i k) = del_key env fuel i k"
| "wiphy_exec env fuel (SetDefaultKey i k) = set_default_key i k"
| "wiphy_exec env fuel (GetKey i k) = io_void (get_key i k)"
| "wiphy_exec env fuel (SetDefaultMgmtKey i k) = set_default_mgmt_key i k"
| "wiphy_exec env fuel (GetStation i mac) = io_void (get_station env fuel i mac)"
| "wiphy_exec env fuel (AddStation i mac) = add_station env fuel i mac"
| "wiphy_exec env fuel (DelStation i k) = del_station env fuel i k"
| "wiphy_exec env fuel (SetTxPower i p) = set_tx_power env fuel i p"
| "wiphy_exec env fuel (GetTxPower i) = io_void (get_tx_power i)"
| "wiphy_exec env fuel (GetChannel i) = io_void (get_channel i)"
| "wiphy_exec env fuel (SetPowerMgmt i b) = set_power_mgmt i b"
| "wiphy_exec env fuel (SetWiphyParams r f) = set_wiphy_params r f"

section \<open>The placeholder implementation\<close>

text \<open>\<open>WiphyOpsStub\<close> has no state and answers every call at once.\<close>

fun wiphy_stub :: "wiphy_call \<Rightarrow> unit result" where
  "wiphy_stub (AddInterface t) = ok ()"
| "wiphy_stub (DelInterface i) = ok ()"
| "wiphy_stub (Scan i) = err (-38)"
| "wiphy_stub (Connect i ssid bssid) = err (-38)"
| "wiphy_stub (Disconnect i) = ok ()"
| "wiphy_stub (StartAp i ssid ch) = err (-38)"
| "wiphy_stub (StopAp i) = ok ()"
| "wiphy_stub (AddKey i k key) = err (-38)"
| "wiphy_stub (DelKey i k) = err (-38)"
| "wiphy_stub (SetDefaultKey i k) = ok ()"
| "wiphy_stub (GetKey i k) = err (-38)"
| "wiphy_stub (SetDefaultMgmtKey i k) = ok ()"
| "wiphy_stub (GetStation i mac) = err (-38)"
| "wiphy_stub (AddStation i mac) = err (-38)"
| "wiphy_stub (DelStation i k) = err (-38)"
| "wiphy_stub (SetTxPower i p) = err (-38)"
| "wiphy_stub (GetTxPower i) = err (-38)"
| "wiphy_stub (GetChannel i) = err (-61)"
| "wiphy_stub (SetPowerMgmt i b) = ok ()"
| "wiphy_stub (SetWiphyParams r f) = err (-38)"

text \<open>\<open>WiphyOpsStub::add_interface\<close> hands out interface 0.\<close>

definition stub_add_interface :: "iftype \<Rightarrow> ifindex result" where
  "stub_add_interface t = ok 0"

section \<open>Scan results for the upper layers\<close>

text \<open>
  \<open>core::str::from_utf8\<close>: the well-formed byte sequences of Unicode. The string is kept as its
  bytes.
\<close>

definition utf8_cont :: "byte \<Rightarrow> bool" where
  "utf8_cont b \<longleftrightarrow> 0x80 \<le> b \<and> b \<le> 0xBF"

fun utf8_valid :: "byte list \<Rightarrow> bool" where
  "utf8_valid [] \<longleftrightarrow> True"
| "utf8_valid (a # bs) \<longleftrightarrow>
     (if a < 0x80 then utf8_valid bs
      else if 0xC2 \<le> a \<and> a \<le> 0xDF then
        (case bs of b # r \<Rightarrow> utf8_cont b \<and> utf8_valid r | _ \<Rightarrow> False)
      else if 0xE0 \<le> a \<and> a \<le> 0xEF then
        (case bs of b # c # r \<Rightarrow>
           utf8_cont b \<and> (a = 0xE0 \<longrightarrow> 0xA0 \<le> b) \<and> (a = 0xED \<longrightarrow> b \<le> 0x9F) \<and> utf8_cont c \<and> utf8_valid r
         | _ \<Rightarrow> False)
      else if 0xF0 \<le> a \<and> a \<le> 0xF4 then
        (case bs of b # c # d # r \<Rightarrow>
           utf8_cont b \<and> (a = 0xF0 \<longrightarrow> 0x90 \<le> b) \<and> (a = 0xF4 \<longrightarrow> b \<le> 0x8F) \<and> utf8_cont c \<and> utf8_cont d \<and> utf8_valid r
         | _ \<Rightarrow> False)
      else False)"

record scan_result =
  sres_ssid :: "byte list"
  sres_bssid :: mac_addr
  sres_freq :: u32
  sres_rssi :: int

definition from_bss_info :: "bss_info \<Rightarrow> scan_result result" where
  "from_bss_info b =
     bind_res (slice_get 0 (min (unat (bss_ssid_len b)) 32) (bss_ssid b)) (\<lambda>ssid.
       ok \<lparr>sres_ssid = (if utf8_valid ssid then ssid else []), sres_bssid = bss_bssid b, sres_freq = bss_freq b,
           sres_rssi = bss_rssi b\<rparr>)"

section \<open>The exchange\<close>

text \<open>The part of the exchange after the message is laid out.\<close>

definition exchange_tail ::
  "'w bsp_env \<Rightarrow> nat \<Rightarrow> byte list \<Rightarrow> u16 \<Rightarrow> u32 \<Rightarrow> nat \<Rightarrow> ('w bsp, nat \<times> byte list) io" where
  "exchange_tail env fuel b cfm_id timeout_ms cap =
     io_bind (push_token cfm_id) (\<lambda>token.
     io_bind (submit_cmd_tx_and_wait_tx_done env fuel b (length b)) (\<lambda>_.
     io_bind (wait_done_until timeout_ms (token_done token) None
                (Some (\<lambda>s. snd (sdio_poll_rx_once env s))) None (env_idle env)) (\<lambda>_ s.
       case take_token token (replicate cap 0) s of (r, s') \<Rightarrow> (ok_or r (-5), s'))))"

definition sendable :: "lmac_msg \<Rightarrow> bool" where
  "sendable msg \<longleftrightarrow> length (m_param msg) = LMAC_MSG_MAX_LEN \<and> unat (h_param_len (m_header msg)) \<le> 480"

lemma ipc_send_len_bounds: "n \<le> 496 \<Longrightarrow> n \<le> ipc_send_len_8801 n \<and> ipc_send_len_8801 n \<le> 512"
proof -
  assume n: "n \<le> 496"
  then have "n \<le> align4 n" "align4 n \<le> 496" unfolding align4_def by presburger+
  then show ?thesis
    by (auto simp: ipc_send_len_8801_def align4_def [symmetric] tx_len_defs Let_def
        intro: order_trans [OF _ div_times_less_eq_dividend])
qed

lemma serialize_for_ok:
  assumes "sendable msg"
  shows "\<exists>n out. serialize_for pid msg (replicate 512 0) = ok (n, out) \<and> length out = 512 \<and> n \<le> 496"
proof -
  let ?n = "unat (h_param_len (m_header msg))"
  from assms have n: "?n \<le> 480" "?n \<le> length (m_param msg)" by (auto simp: sendable_def LMAC_MSG_MAX_LEN_def)
  show ?thesis
    using n serialize_layout [of "replicate 512 0" msg] serialize_8801_layout [of "replicate 512 0" msg]
    by (cases "pid = Aic8801") (auto simp: serialize_for_def header_bytes_def frame_8801_head_def le16_def)
qed

lemma io_bind_lift: "io_bind (io_lift (ok x)) f = f x"
  by (simp add: io_bind_def fun_eq_iff)

lemma io_bind_assoc: "io_bind (io_bind m f) g = io_bind m (\<lambda>x. io_bind (f x) g)"
  by (auto simp: io_bind_def fun_eq_iff split: prod.splits sum.splits)

lemma exchange_prepared:
  assumes "sendable msg" and "aicbsp_current_product_id s = Some pid"
  shows "\<exists>b. length b \<le> 512 \<and> send_lmac_cmd_and_wait_cfm_with_buf env fuel msg cfm_id timeout_ms cap s =
     exchange_tail env fuel b cfm_id timeout_ms cap s"
proof -
  obtain n out where ser: "serialize_for pid msg (replicate 512 0) = ok (n, out)" "length out = 512" "n \<le> 496"
    using serialize_for_ok [OF assms(1)] by blast
  define l where "l = (if pid = Aic8801 then ipc_send_len_8801 n else n)"
  have l: "n \<le> l" "l \<le> 512" using ipc_send_len_bounds [OF ser(3)] ser(3) by (auto simp: l_def)
  obtain out' where f: "fill_range n l out = ok out'" "length out' = 512"
    using l ser(2) by (cases "n < l") (auto simp: fill_range_def slice_set_def)
  have "slice_get 0 l out' = ok (take l out')" "length (take l out') = l"
    using l f(2) by (simp_all add: slice_get_def)
  then show ?thesis
    using ser f l assms(2) unfolding send_lmac_cmd_and_wait_cfm_with_buf_def exchange_tail_def
    by (intro exI [of _ "take l out'"]) (simp add: io_bind_step(1) io_bind_lift l_def [symmetric])
qed

lemma wait_until_errD:
  "wait_done_until_loop timeout_ms condition tick poll log_every idle waited w = (Inl e, w') \<Longrightarrow> e = Errno (-62)"
proof (induction timeout_ms condition tick poll log_every idle waited w rule: wait_done_until_loop.induct)
  case (1 timeout_ms condition tick poll log_every idle waited w)
  obtain c w2 where c: "condition (case poll of None \<Rightarrow> w | Some pf \<Rightarrow> pf w) = (c, w2)" by fastforce
  show ?case
  proof (cases "waited < timeout_ms \<and> \<not> c")
    case False
    with "1.prems" c show ?thesis
      by (subst (asm) wait_done_until_loop.simps) (auto simp: Let_def split: if_splits)
  next
    case True
    with "1.IH" [OF _ refl c [symmetric] refl _ refl] "1.prems" c show ?thesis
      by (subst (asm) (2) wait_done_until_loop.simps) (auto simp: Let_def)
  qed
qed

lemma wait_done_until_token:
  "wait_done_until timeout_ms (token_done token) tick poll log_every (env_idle env) =
   wait_token env timeout_ms tick poll log_every token"
proof
  fix s :: "'a bsp"
  obtain r s' where r: "wait_done_until timeout_ms (token_done token) tick poll log_every (env_idle env) s = (r, s')" by fastforce
  then have "r = Inl e \<Longrightarrow> e = Errno (-62)" for e
    unfolding wait_done_until_def by (auto dest: wait_until_errD)
  with r show "wait_done_until timeout_ms (token_done token) tick poll log_every (env_idle env) s =
      wait_token env timeout_ms tick poll log_every token s"
    by (cases r) (auto simp: wait_token_def io_map_err_def)
qed

lemma take_cfm_done_occupied:
  assumes "mgr_wf m" and "is_done t m"
  shows "\<exists>n out' m'. take_cfm t out m = (Some (n, out'), m') \<and> n \<le> length out' \<and> length out' = length out \<and> mgr_wf m' \<and>
     Suc (occupied m') = occupied m \<and> mgr_state m' = mgr_state m"
proof -
  from assms(2) obtain s where t: "t < 8" "slots m ! t = Some s" "p_done s"
    by (auto simp: is_done_def CMD_MGR_MAX_PENDING_def split: if_splits option.splits)
  have "t < length (slots m)" using t(1) mgr_wfD(1) [OF assms(1)] by simp
  from filter_update_length [OF this, of "\<lambda>s. s \<noteq> None" None] t(2)
  have "Suc (occupied (m\<lparr>slots := (slots m)[t := None]\<rparr>)) = occupied m" by (simp add: occupied_def)
  moreover have "length (p_cfm_data s) \<ge> min (p_cfm_len s) (length out)"
    using mgr_wfD(4) [OF assms(1) t(1,2)] by (auto simp: pending_wf_def)
  ultimately show ?thesis
    using t take_cfm_wf [OF assms, of out] by (simp add: take_cfm_def CMD_MGR_MAX_PENDING_def Let_def)
qed


text \<open>
  Any exchange over a live manager: without a free slot it fails with -12 and changes nothing;
  otherwise a confirmed exchange gives its slot back and a failed one does not.
\<close>

context driver_threads
begin

lemma exchange_tail_slots:
  fixes b :: "byte list" and cfm_id :: u16 and timeout_ms :: u32 and cap fuel :: nat
  assumes c: "cmd_mgr_cell s = Some m" and wf: "mgr_wf m"
  defines "x \<equiv> exchange_tail env fuel b cfm_id timeout_ms cap s"
  shows "if mgr_state m = Crashed \<or> occupied m = 8 then x = (err (-12), s)
     else current_product_id (snd x) = current_product_id s \<and>
       (\<exists>m'. cmd_mgr_cell (snd x) = Some m' \<and> mgr_wf m' \<and> mgr_state m' = mgr_state m \<and>
         (case fst x of
            Inl _ \<Rightarrow> occupied m' = Suc (occupied m)
          | Inr (n, buf) \<Rightarrow> occupied m' = occupied m \<and> n \<le> length buf \<and> length buf = cap))"
proof (cases "mgr_state m = Crashed \<or> occupied m = 8")
  case True
  then show ?thesis using push_token_slots [OF c wf, of cfm_id] by (simp add: x_def exchange_tail_def io_bind_def)
next
  case False
  with push_token_slots [OF c wf, of cfm_id] obtain t m1 where
    p: "push_token cfm_id s = (ok t, s\<lparr>cmd_mgr_cell := Some m1\<rparr>)" and m1: "mgr_wf m1"
      "occupied m1 = Suc (occupied m)" "mgr_state m1 = mgr_state m" by auto
  let ?s1 = "s\<lparr>cmd_mgr_cell := Some m1\<rparr>"
  define wait where "wait = wait_token env timeout_ms None (Some (\<lambda>s. snd (sdio_poll_rx_once env s))) None t"
  have "keeps wait" unfolding wait_def
    by (rule wait_token_keeps) (auto simp: sdio_poll_rx_once_def poll_others)
  then have k: "keeps (io_bind (submit_cmd_tx_and_wait_tx_done env fuel b (length b)) (\<lambda>_. wait))"
    by (intro keeps_intros submit_keeps)
  obtain r s2 where r: "io_bind (submit_cmd_tx_and_wait_tx_done env fuel b (length b)) (\<lambda>_. wait) ?s1 = (r, s2)" by fastforce
  with k have o: "others_step ?s1 s2" unfolding keeps_def by (metis snd_conv)
  with others_step_frame [OF o _ m1(1)] obtain m2 where m2: "cmd_mgr_cell s2 = Some m2" "mgr_frame m1 m2" by auto
  have pid: "current_product_id s2 = current_product_id s" using o by (simp add: others_step_def)
  have x: "x = io_bind (io_bind (submit_cmd_tx_and_wait_tx_done env fuel b (length b)) (\<lambda>_. wait)) (\<lambda>_ s.
       case take_token t (replicate cap 0) s of (r, s') \<Rightarrow> (ok_or r (-5), s')) ?s1"
    using p by (simp add: x_def exchange_tail_def io_bind_step(1) io_bind_assoc wait_done_until_token wait_def)
  show ?thesis
  proof (cases r)
    case (Inl e)
    then show ?thesis using False m1 m2 pid x r by (auto simp: io_bind_step(2) mgr_frame_def)
  next
    case (Inr u)
    with r obtain s0 where "wait s0 = (ok (), s2)" by (auto simp: io_bind_Inr_iff)
    then have "token_done t s2 = (True, s2)" unfolding wait_def by (rule wait_token_okD)
    then have "is_done t m2" using m2(1) by (simp add: token_done_def with_cmd_mgr_def)
    with take_cfm_done_occupied [of m2 t "replicate cap 0"] m2 obtain n out' m' where
      "take_cfm t (replicate cap 0) m2 = (Some (n, out'), m')" "n \<le> length out'" "length out' = cap" "mgr_wf m'"
      "Suc (occupied m') = occupied m2" "mgr_state m' = mgr_state m2" by (auto simp: mgr_frame_def)
    then show ?thesis using False m1 m2 pid x r Inr
      by (simp add: io_bind_step(1) take_token_def with_cmd_mgr_def mgr_frame_def)
  qed
qed

end

section \<open>Every operation\<close>

text \<open>A MAC address is an array of six bytes.\<close>

fun call_typed :: "wiphy_call \<Rightarrow> bool" where
  "call_typed (Connect i ssid (Some mac)) \<longleftrightarrow> length mac = 6"
| "call_typed (GetStation i mac) \<longleftrightarrow> length mac = 6"
| "call_typed (AddStation i mac) \<longleftrightarrow> length mac = 6"
| "call_typed _ \<longleftrightarrow> True"

text \<open>The shapes of the arrays, and the range of an \<open>i8\<close>.\<close>

definition wiphy_wf :: "wiphy_state \<Rightarrow> bool" where
  "wiphy_wf st \<longleftrightarrow>
     length (key_hw st) = 4 \<and> (\<forall>ks\<in>set (key_hw st). length ks = 8) \<and> length (default_key st) = 4 \<and>
     length (default_mgmt_key st) = 4 \<and> length (sta_table st) = 16 \<and>
     length (last_tx_power_dbm st) = 4 \<and> (\<forall>p. Some p \<in> set (last_tx_power_dbm st) \<longrightarrow> -128 \<le> p \<and> p \<le> 127) \<and>
     length (current_channel st) = 4"

lemma wiphy_new_wf: "wiphy_wf WiphyOpsImpl_new"
  by (simp add: wiphy_wf_def WiphyOpsImpl_new_def wiphy_consts)

lemma as_i8_range: "-128 \<le> as_i8 x \<and> as_i8 x \<le> 127"
  using sint_range_size [of "word_of_int x :: 8 word"] by (auto simp: as_i8_def word_size)

lemma power_dbm_range: "-128 \<le> power_dbm_of x \<and> power_dbm_of x \<le> 127"
  using as_i8_range by (simp add: power_dbm_of_def)

text \<open>
  The contract of an operation on the pair of states: over a well-formed state and a live manager
  with a known chip it does not panic, keeps both well-formed, gives its slot back when it
  succeeds and leaves the control-plane state alone when it fails.
\<close>

definition wpre :: "wiphy_state \<times> 'w bsp \<Rightarrow> cmd_mgr \<Rightarrow> product_id \<Rightarrow> bool" where
  "wpre x m pid \<longleftrightarrow> wiphy_wf (fst x) \<and> cmd_mgr_cell (snd x) = Some m \<and> mgr_wf m \<and>
     aicbsp_current_product_id (snd x) = Some pid"

definition not_panic :: "'a result \<Rightarrow> bool" where
  "not_panic r \<longleftrightarrow> (\<forall>p. r \<noteq> panic p)"

lemma not_panic_simps [simp]:
  "not_panic (Inr x)" "not_panic (err e)" "not_panic (Inl Hang)" "not_panic (ok_or y e)"
  by (auto simp: not_panic_def ok_or_def split: option.splits)

definition kept :: "wiphy_state \<Rightarrow> cmd_mgr \<Rightarrow> 'a result \<Rightarrow> wiphy_state \<Rightarrow> cmd_mgr \<Rightarrow> bool" where
  "kept st m r st' m' \<longleftrightarrow> mgr_state m' = mgr_state m \<and>
     (case r of Inl _ \<Rightarrow> st' = st \<and> (occupied m' = occupied m \<or> occupied m' = Suc (occupied m))
      | Inr _ \<Rightarrow> occupied m' = occupied m)"

definition well_behaved :: "('w, 'a) wop \<Rightarrow> bool" where
  "well_behaved f \<longleftrightarrow> (\<forall>x m pid r x'. wpre x m pid \<longrightarrow> f x = (r, x') \<longrightarrow>
     not_panic r \<and> (\<exists>m'. wpre x' m' pid \<and> kept (fst x) m r (fst x') m'))"

definition quiet :: "('w, 'a) wop \<Rightarrow> bool" where
  "quiet f \<longleftrightarrow> well_behaved f \<and> (\<forall>x. fst (snd (f x)) = fst x)"

named_theorems wb "operations that meet the contract"

lemma well_behaved_quiet: "quiet f \<Longrightarrow> well_behaved f"
  by (simp add: quiet_def)

lemma quietD: "quiet f \<Longrightarrow> f x = (r, x1) \<Longrightarrow> fst x1 = fst x"
  unfolding quiet_def by (metis snd_conv)

lemma well_behavedI:
  assumes "\<And>x m pid r x'. wpre x m pid \<Longrightarrow> f x = (r, x') \<Longrightarrow>
      not_panic r \<and> (\<exists>m'. wpre x' m' pid \<and> kept (fst x) m r (fst x') m')"
  shows "well_behaved f"
  using assms unfolding well_behaved_def by blast

lemma well_behavedD:
  assumes "well_behaved f" and "wpre x m pid" and "f x = (r, x')"
  shows "not_panic r \<and> (\<exists>m'. wpre x' m' pid \<and> kept (fst x) m r (fst x') m')"
  using assms unfolding well_behaved_def by blast

lemma kept_trans: "kept st m (Inr y) st m1 \<Longrightarrow> kept st m1 r st' m' \<Longrightarrow> kept st m r st' m'"
  by (auto simp: kept_def split: sum.splits)

lemma quiet_bind [wb]:
  assumes q: "quiet f" and g: "\<And>x. well_behaved (g x)"
  shows "well_behaved (io_bind f g)"
proof (rule well_behavedI)
  fix x :: "wiphy_state \<times> 'a bsp" and m pid r x'
  assume pre: "wpre x m pid" and r: "io_bind f g x = (r, x')"
  obtain r1 x1 where r1: "f x = (r1, x1)" by (cases "f x")
  from well_behavedD [OF well_behaved_quiet [OF q] pre r1] obtain m1 where
    1: "not_panic r1" "wpre x1 m1 pid" "kept (fst x) m r1 (fst x1) m1" by blast
  show "not_panic r \<and> (\<exists>m'. wpre x' m' pid \<and> kept (fst x) m r (fst x') m')"
  proof (cases r1)
    case (Inl e)
    with r r1 have "r = Inl e" "x' = x1" by (simp_all add: io_bind_step(2))
    with 1 Inl show ?thesis by (auto simp: not_panic_def kept_def)
  next
    case (Inr y)
    with r r1 have "g y x1 = (r, x')" by (simp add: io_bind_step(1))
    from well_behavedD [OF g 1(2) this] kept_trans [OF 1(3) [unfolded Inr quietD [OF q r1]]] quietD [OF q r1]
    show ?thesis by auto
  qed
qed

lemma quiet_return [wb]: "quiet (io_return y)"
  by (auto simp: quiet_def well_behaved_def kept_def)

lemma quiet_fail [wb]: "quiet (io_fail (Errno e))"
  by (auto simp: quiet_def well_behaved_def kept_def)

lemma quiet_lift [wb]: "not_panic r \<Longrightarrow> quiet (io_lift r)"
  by (auto simp: quiet_def well_behaved_def kept_def split: sum.splits)

lemma quiet_get [wb]: "(\<And>st. not_panic (f st)) \<Longrightarrow> quiet (get_wiphy f)"
  by (auto simp: quiet_def well_behaved_def kept_def get_wiphy_def split: sum.splits)

lemma quiet_bind_quiet [wb]: "quiet f \<Longrightarrow> (\<And>x. quiet (g x)) \<Longrightarrow> quiet (io_bind f g)"
  unfolding quiet_def [of "io_bind f g"]
proof (intro conjI allI)
  fix x :: "wiphy_state \<times> 'a bsp"
  assume q: "quiet f" "\<And>x. quiet (g x)"
  then show "well_behaved (io_bind f g)" by (intro quiet_bind) (auto simp: quiet_def)
  obtain r x1 where r: "f x = (r, x1)" by (cases "f x")
  with quietD [OF q(1)] have s: "fst x1 = fst x" .
  have "fst (snd (g y x1)) = fst x1" for y using q(2) [of y] unfolding quiet_def by blast
  with r s show "fst (snd (io_bind f g x)) = fst x" by (cases r) (simp_all add: io_bind_def)
qed

lemmas [wb] = quiet_return [THEN well_behaved_quiet] quiet_fail [THEN well_behaved_quiet]
  quiet_lift [THEN well_behaved_quiet] quiet_get [THEN well_behaved_quiet]

lemma upd_well_behaved [wb]: "(\<And>st. wiphy_wf st \<Longrightarrow> wiphy_wf (f st)) \<Longrightarrow> well_behaved (upd_wiphy f)"
  by (auto simp: well_behaved_def kept_def upd_wiphy_def wpre_def)

lemma upd_upd: "io_bind (upd_wiphy f) (\<lambda>_. upd_wiphy g) = upd_wiphy (\<lambda>st. g (f st))"
  by (simp add: fun_eq_iff upd_wiphy_def io_bind_def split_beta)


text \<open>The exchange, for any confirmation identifier and buffer.\<close>

lemma submit_not_panic:
  assumes "length b \<le> 512"
  shows "not_panic (fst (submit_cmd_tx_and_wait_tx_done env fuel b (length b) s))"
proof -
  have "not_panic (fst (tx_done_loop env fuel elapsed s))" for elapsed and s :: "'a bsp"
    by (induction fuel arbitrary: elapsed s) (auto split: prod.splits option.splits)
  with assms show ?thesis
    by (simp add: submit_cmd_tx_and_wait_tx_done_def PENDING_CMD_TX_CAP_def slice_set_def)
qed

lemma exchange_tail_not_panic:
  assumes "length b \<le> 512"
  shows "not_panic (fst (exchange_tail env fuel b cfm_id timeout_ms cap s))"
proof -
  have w: "not_panic (fst (wait_done_until timeout_ms c tick poll l idle s))" for c tick poll l idle and s :: "'a bsp"
    by (cases "wait_done_until timeout_ms c tick poll l idle s"; cases "fst (wait_done_until timeout_ms c tick poll l idle s)")
      (auto simp: wait_done_until_def dest: wait_until_errD)
  have bind: "not_panic (fst (f s)) \<Longrightarrow> (\<And>x s. not_panic (fst (g x s))) \<Longrightarrow> not_panic (fst (io_bind f g s))"
    for f :: "('a bsp, 'b) io" and g :: "'b \<Rightarrow> ('a bsp, 'c) io" and s
    by (auto simp: io_bind_def not_panic_def split: prod.splits sum.splits)
  show ?thesis
    unfolding exchange_tail_def using assms
    by (intro bind w submit_not_panic) (auto simp: push_token_def split: prod.splits)
qed


lemma pid_cong: "current_product_id s' = current_product_id s \<Longrightarrow>
  aicbsp_current_product_id s' = aicbsp_current_product_id s"
  by (simp add: aicbsp_current_product_id.simps)

context driver_threads
begin

lemma exchange_spec:
  assumes snd: "sendable msg" and pre: "wpre (st, s) m pid"
    and x: "send_lmac_cmd_and_wait_cfm_with_buf env fuel msg cfm_id timeout_ms cap s = (r, s')"
  shows "not_panic r \<and> (\<exists>m'. wpre (st, s') m' pid \<and> kept st m r st m') \<and>
    (mgr_state m = Crashed \<or> occupied m = 8 \<longrightarrow> r = err (-12) \<and> s' = s) \<and>
    (\<forall>n buf. r = ok (n, buf) \<longrightarrow> n \<le> length buf \<and> length buf = cap)"
proof -
  from pre have s: "cmd_mgr_cell s = Some m" "mgr_wf m" "aicbsp_current_product_id s = Some pid"
    by (simp_all add: wpre_def)
  from exchange_prepared [OF snd s(3)] obtain b where b: "length b \<le> 512"
    "exchange_tail env fuel b cfm_id timeout_ms cap s = (r, s')" using x by metis
  show ?thesis
    using exchange_tail_slots [OF s(1,2), of fuel b cfm_id timeout_ms cap]
      exchange_tail_not_panic [OF b(1), of env fuel cfm_id timeout_ms cap s] b(2) pre pid_cong [of s' s]
    by (cases "mgr_state m = Crashed \<or> occupied m = 8"; cases r) (auto simp: wpre_def kept_def)
qed

lemma cfm_quiet:
  assumes "sendable msg" and f: "\<And>n buf. n \<le> length buf \<Longrightarrow> not_panic (f n buf)"
  shows "quiet (on_snd (io_bind (send_lmac_cmd_and_wait_cfm_with_buf env fuel msg cfm_id timeout_ms cap)
     (\<lambda>(n, buf). io_lift (f n buf))))"
  unfolding quiet_def
proof (intro conjI allI)
  let ?f = "io_bind (send_lmac_cmd_and_wait_cfm_with_buf env fuel msg cfm_id timeout_ms cap) (\<lambda>(n, buf). io_lift (f n buf))"
  show "well_behaved (on_snd ?f)"
  proof (rule well_behavedI)
    fix x :: "wiphy_state \<times> 'w bsp" and m pid r x'
    assume pre: "wpre x m pid" and r: "on_snd ?f x = (r, x')"
    obtain st s where xs: "x = (st, s)" by (cases x)
    obtain r1 s1 where r1: "send_lmac_cmd_and_wait_cfm_with_buf env fuel msg cfm_id timeout_ms cap s = (r1, s1)" by fastforce
    from exchange_spec [OF assms(1) pre [unfolded xs] r1] obtain m' where
      1: "not_panic r1" "wpre (st, s1) m' pid" "kept st m r1 st m'" "\<And>n buf. r1 = ok (n, buf) \<Longrightarrow> n \<le> length buf" by blast
    show "not_panic r \<and> (\<exists>m'. wpre x' m' pid \<and> kept (fst x) m r (fst x') m')"
    proof (cases r1)
      case (Inl e)
      with r r1 have "r = Inl e" "x' = (st, s1)" by (auto simp: xs on_snd_def io_bind_step(2))
      with 1 Inl show ?thesis by (auto simp: not_panic_def kept_def xs)
    next
      case (Inr y)
      obtain n buf where y: "y = (n, buf)" by (cases y)
      with r r1 Inr have "r = f n buf" "x' = (st, s1)" by (auto simp: xs on_snd_def io_bind_step(1))
      with 1 f [of n buf] Inr y show ?thesis by (auto simp: kept_def xs split: sum.split intro!: exI [of _ m'])
    qed
  qed
  show "fst (snd (on_snd ?f x)) = fst x" for x by (cases x) (simp add: on_snd_fst)
qed

lemma cfm_whole_quiet [wb]: "sendable msg \<Longrightarrow> quiet (on_snd (cfm_whole env fuel msg cfm_id cap))"
  using cfm_quiet [of msg "\<lambda>n buf. ok buf" fuel cfm_id RWNX_80211_CMD_TIMEOUT_MS cap]
  by (simp add: cfm_whole_def io_return_def io_lift_def)

lemma cfm_prefix_quiet [wb]: "sendable msg \<Longrightarrow> quiet (on_snd (cfm_prefix env fuel msg cfm_id cap))"
  using cfm_quiet [of msg "\<lambda>n buf. slice_get 0 n buf" fuel cfm_id RWNX_80211_CMD_TIMEOUT_MS cap]
  by (simp add: cfm_prefix_def slice_get_def)

lemma cfm_ignored_quiet [wb]: "sendable msg \<Longrightarrow> quiet (on_snd (send_lmac_cmd_and_wait_cfm env fuel msg cfm_id timeout_ms))"
  using cfm_quiet [of msg "\<lambda>n buf. ok ()" fuel cfm_id timeout_ms 64]
  by (simp add: send_lmac_cmd_and_wait_cfm_def io_return_def io_lift_def split_def)

lemmas [wb] = cfm_whole_quiet [THEN well_behaved_quiet] cfm_prefix_quiet [THEN well_behaved_quiet]
  cfm_ignored_quiet [THEN well_behaved_quiet]

end


section \<open>The requests can be sent\<close>

named_theorems sendables "messages that fit the wire buffer"

lemma sendable_put_param: "sendable msg \<Longrightarrow> off + length bs \<le> LMAC_MSG_MAX_LEN \<Longrightarrow> sendable (put_param off bs msg)"
  by (simp add: sendable_def put_param_def)

lemma sendable_new: "unat n \<le> 480 \<Longrightarrow> sendable (LmacMsg_new mid d s n)"
  by (simp add: sendable_def LmacMsg_new_def)

lemma requests_sendable [sendables]:
  "length mac = 6 \<Longrightarrow> sendable (build_mm_add_if_req t mac p)" "sendable (build_mm_remove_if_req v)"
  "sendable (build_sm_disconnect_req v why)" "sendable (build_mm_key_del_req v)" "sendable (build_mm_set_power_req v q)"
  "length mac = 6 \<Longrightarrow> sendable (build_mm_sta_add_req v mac)" "sendable (build_mm_sta_del_req v)"
  "sendable (build_mm_get_sta_info_req v)" "sendable (build_apm_stop_req v)"
  by (simp_all add: build_mm_add_if_req_def build_mm_remove_if_req_def build_sm_disconnect_req_def build_mm_key_del_req_def
      build_mm_set_power_req_def build_mm_sta_add_req_def build_mm_sta_del_req_def build_mm_get_sta_info_req_def
      build_apm_stop_req_def sendable_put_param sendable_new LMAC_MSG_MAX_LEN_def le16_def)

text \<open>The builders that may give up do not: they yield a message that can be sent.\<close>

lemma built_sendable:
  "\<exists>msg. built (build_scanu_start_req v d) = ok msg \<and> sendable msg"
  "(\<And>mac. bssid = Some mac \<Longrightarrow> length mac = 6) \<Longrightarrow> \<exists>msg. built (build_sm_connect_req v ssid bssid freq) = ok msg \<and> sendable msg"
  "\<exists>msg. built (build_mm_key_add_req v k i key cs pw) = ok msg \<and> sendable msg"
  "\<exists>msg. built (build_apm_start_req v ch interval rates) = ok msg \<and> sendable msg"
  by (auto simp: built_def scanu_start_req_layout sm_connect_req_layout mm_key_add_req_layout apm_start_req_layout
      sendable_def LMAC_MSG_MAX_LEN_def le32_def le16_def split: option.splits)


section \<open>The contract of the operations\<close>

lemma set_key_hw_wf: "wiphy_wf st \<Longrightarrow> v < 4 \<Longrightarrow> wiphy_wf (set_key_hw v k x st)"
  using set_update_subset_insert [of "key_hw st" v "(key_hw st ! v)[k := x]"]
  by (auto simp: wiphy_wf_def set_key_hw_def)

lemma set_power_wf:
  assumes "wiphy_wf st" and "-128 \<le> p \<and> p \<le> 127"
  shows "wiphy_wf (st\<lparr>last_tx_power_dbm := (last_tx_power_dbm st)[i := Some p]\<rparr>)"
  using assms set_update_subset_insert [of "last_tx_power_dbm st" i "Some p"] by (auto simp: wiphy_wf_def)

lemma wiphy_wf_simps:
  "wiphy_wf (st\<lparr>default_key := (default_key st)[i := x]\<rparr>) = wiphy_wf st"
  "wiphy_wf (st\<lparr>default_mgmt_key := (default_mgmt_key st)[i := x]\<rparr>) = wiphy_wf st"
  "wiphy_wf (st\<lparr>current_channel := (current_channel st)[i := y]\<rparr>) = wiphy_wf st"
  "wiphy_wf (st\<lparr>sta_table := (sta_table st)[i := e]\<rparr>) = wiphy_wf st"
  by (simp_all add: wiphy_wf_def)

lemma built_bind:
  assumes "\<exists>msg. built b = ok msg \<and> sendable msg" and "\<And>msg. sendable msg \<Longrightarrow> well_behaved (f msg)"
  shows "well_behaved (io_bind (io_lift (built b)) f)"
  using assms by (auto simp: io_bind_lift)

context driver_threads
begin

lemma exec_well_behaved: "call_typed call \<Longrightarrow> well_behaved (wiphy_exec env fuel call)"
proof (cases call)
  case (Connect i ssid bssid)
  assume "call_typed call"
  then have "bssid = Some mac \<Longrightarrow> length mac = 6" for mac using Connect by (cases bssid) auto
  then show ?thesis
    unfolding Connect wiphy_exec.simps connect_def
    by (intro built_bind built_sendable) (auto intro!: wb simp: Let_def)
next
  case (StartAp i ssid ch)
  then show ?thesis
    unfolding StartAp wiphy_exec.simps start_ap_def
    by (intro built_bind built_sendable) (auto simp: upd_upd wiphy_wf_simps intro!: wb)
next
  case (AddKey i k key)
  then show ?thesis
    unfolding AddKey wiphy_exec.simps add_key_def Let_def
    by (intro quiet_bind quiet_lift built_bind built_sendable) (auto simp: wiphy_consts intro!: wb set_key_hw_wf)
next
  case (DelKey i k)
  then show ?thesis
    by (auto simp: del_key_def wiphy_consts intro!: wb sendables set_key_hw_wf)
next
  case (Scan i)
  then show ?thesis
    unfolding Scan wiphy_exec.simps wiphy_scan_def by (intro built_bind built_sendable) (auto intro!: wb)
next
  case (SetTxPower i q)
  then show ?thesis
    by (auto simp: set_tx_power_def intro!: wb sendables set_power_wf power_dbm_range)
qed (auto simp: add_interface_def del_interface_def disconnect_def stop_ap_def set_default_key_def
    get_key_def set_default_mgmt_key_def get_station_def add_station_def del_station_def get_tx_power_def
    get_channel_def set_power_mgmt_def set_wiphy_params_def io_void_def Let_def wiphy_wf_simps
    intro!: wb sendables)

end

text \<open>
  (C2) Every operation of \<open>WiphyOps\<close>, with the driver's threads running: over a well-formed state,
  a live command manager and a known chip it never panics, keeps the arrays of the control plane
  and the manager well-formed, gives its command slot back when it succeeds, and leaves the
  control-plane state untouched when it fails.
\<close>

theorem wiphy_ops_contract:
  assumes "wiphy_wf st" and "cmd_mgr_cell s = Some m" and "mgr_wf m" and "aicbsp_current_product_id s = Some pid"
    and "call_typed call" and "wiphy_exec (thread_env h f embedded) fuel call (st, s) = (r, (st', s'))"
  shows "(\<forall>p. r \<noteq> panic p) \<and> wiphy_wf st' \<and>
    (\<exists>m'. cmd_mgr_cell s' = Some m' \<and> mgr_wf m' \<and> mgr_state m' = mgr_state m \<and>
      (case r of
         Inl _ \<Rightarrow> st' = st \<and> (occupied m' = occupied m \<or> occupied m' = Suc (occupied m))
       | Inr _ \<Rightarrow> occupied m' = occupied m))"
  using well_behavedD [OF threads.exec_well_behaved [OF assms(5)] _ assms(6), of m pid] assms(1-4)
  by (auto simp: wpre_def kept_def not_panic_def)

theorem wiphy_ops_contract_witness:
  "\<forall>p. fst (wiphy_exec (thread_env noise_host 5 (\<lambda>_. None)) 5 (StartAp 1 [0x61] 6)
      (WiphyOpsImpl_new, sample_bsp\<lparr>cmd_mgr_cell := Some CmdMgr_new\<rparr>)) \<noteq> panic p"
proof -
  let ?s = "sample_bsp\<lparr>cmd_mgr_cell := Some CmdMgr_new\<rparr>"
  obtain r st' s' where r: "wiphy_exec (thread_env noise_host 5 (\<lambda>_. None)) 5 (StartAp 1 [0x61] 6) (WiphyOpsImpl_new, ?s) =
      (r, (st', s'))" by (metis prod_cases3)
  have "aicbsp_current_product_id ?s = Some Aic8800Dc"
    by (simp add: aicbsp_current_product_id.simps sample_bsp_def PRODUCT_ID_NONE_def)
  from wiphy_ops_contract [OF wiphy_new_wf _ mgr_wf_new this _ r] r show ?thesis by simp
qed

section \<open>Command slots\<close>

context driver_threads
begin

lemma ignored_slots:
  assumes "sendable msg" and "wpre (st, s) m pid" and "mgr_state m \<noteq> Crashed"
    and x: "on_snd (send_lmac_cmd_and_wait_cfm env fuel msg cfm_id timeout_ms) (st, s) = (r, (st', s'))"
  shows "if occupied m = 8 then r = err (-12) \<and> s' = s
    else \<exists>m'. cmd_mgr_cell s' = Some m' \<and> mgr_wf m' \<and> mgr_state m' = mgr_state m \<and>
           occupied m' = (case r of Inr _ \<Rightarrow> occupied m | Inl _ \<Rightarrow> Suc (occupied m))"
proof -
  from assms(2) have s: "cmd_mgr_cell s = Some m" "mgr_wf m" "aicbsp_current_product_id s = Some pid"
    by (simp_all add: wpre_def)
  from exchange_prepared [OF assms(1) s(3)] obtain b where
    b: "send_lmac_cmd_and_wait_cfm_with_buf env fuel msg cfm_id timeout_ms 64 s =
        exchange_tail env fuel b cfm_id timeout_ms 64 s" by metis
  obtain q s1 where q: "exchange_tail env fuel b cfm_id timeout_ms 64 s = (q, s1)" by fastforce
  have "r = (case q of Inl e \<Rightarrow> Inl e | Inr _ \<Rightarrow> ok ())" "s' = s1"
    using x b q by (cases q; auto simp: on_snd_def send_lmac_cmd_and_wait_cfm_def io_bind_def)+
  then show ?thesis
    using exchange_tail_slots [OF s(1,2), of fuel b cfm_id timeout_ms 64] q assms(3) by (cases q) auto
qed

end

text \<open>
  (C12) Slot accounting of the requests whose confirmation is ignored: with all eight slots in use
  the call fails with -12 before anything is sent; otherwise a confirmed call leaves the number of
  used slots as it was, and every failed call, whatever the reason, uses up one slot for good. Eight
  failures thus disable all further commands.
\<close>

theorem failed_command_loses_slot:
  assumes "wiphy_wf st" and "cmd_mgr_cell s = Some m" and "mgr_wf m" and "mgr_state m \<noteq> Crashed"
    and "aicbsp_current_product_id s = Some pid"
    and "call \<in> {DelInterface i, Scan i, Disconnect i, StopAp i}"
    and "wiphy_exec (thread_env h f embedded) fuel call (st, s) = (r, (st', s'))"
  shows "if occupied m = 8 then r = err (-12) \<and> s' = s
    else \<exists>m'. cmd_mgr_cell s' = Some m' \<and> mgr_wf m' \<and>
           occupied m' = (case r of Inr _ \<Rightarrow> occupied m | Inl _ \<Rightarrow> Suc (occupied m))"
proof -
  have pre: "wpre (st, s) m pid" using assms(1-3,5) by (simp add: wpre_def)
  have "?thesis" if "sendable msg" and "wiphy_exec (thread_env h f embedded) fuel call =
      on_snd (send_lmac_cmd_and_wait_cfm (thread_env h f embedded) fuel msg cfm_id RWNX_80211_CMD_TIMEOUT_MS)" for msg cfm_id
    using threads.ignored_slots [OF that(1) pre assms(4) assms(7) [unfolded that(2)]] by (auto split: if_splits)
  note goal = this
  obtain msg where msg: "built (build_scanu_start_req (ucast i) 0) = ok msg" "sendable msg"
    using built_sendable(1) by blast
  from assms(6) consider "call = DelInterface i" | "call = Scan i" | "call = Disconnect i" | "call = StopAp i" by auto
  then show ?thesis
  proof cases
    case 1
    then show ?thesis by (intro goal [OF requests_sendable(2)]) (simp add: del_interface_def)
  next
    case 2
    with msg show ?thesis by (intro goal [of msg]) (simp_all add: wiphy_scan_def io_bind_lift)
  next
    case 3
    then show ?thesis by (intro goal [OF requests_sendable(3)]) (simp add: disconnect_def)
  next
    case 4
    then show ?thesis by (intro goal [OF requests_sendable(9)]) (simp add: stop_ap_def)
  qed
qed

text \<open>A manager with eight commands that were never taken.\<close>

definition full_mgr :: cmd_mgr where
  "full_mgr = ((\<lambda>m. on_cfm 7 [] (snd (mgr_push 7 m))) ^^ 8) CmdMgr_new"

lemma sample_pid: "aicbsp_current_product_id (sample_bsp\<lparr>cmd_mgr_cell := c\<rparr>) = Some Aic8800Dc"
  by (simp add: aicbsp_current_product_id.simps sample_bsp_def PRODUCT_ID_NONE_def)

theorem failed_command_loses_slot_witness:
  "fst (wiphy_exec (thread_env noise_host 5 (\<lambda>_. None)) 5 (Scan 1) (WiphyOpsImpl_new, sample_bsp\<lparr>cmd_mgr_cell := Some full_mgr\<rparr>))
   = err (-12)"
proof -
  let ?s = "sample_bsp\<lparr>cmd_mgr_cell := Some full_mgr\<rparr>"
  obtain r st' s' where r: "wiphy_exec (thread_env noise_host 5 (\<lambda>_. None)) 5 (Scan 1) (WiphyOpsImpl_new, ?s) =
      (r, (st', s'))" by (metis prod_cases3)
  have push: "mgr_wf (on_cfm 7 [] (snd (mgr_push 7 m))) \<and> mgr_state (on_cfm 7 [] (snd (mgr_push 7 m))) \<noteq> Crashed \<and>
      occupied (on_cfm 7 [] (snd (mgr_push 7 m))) = Suc (occupied m)"
    if m: "mgr_wf m" "mgr_state m \<noteq> Crashed" "occupied m < 8" for m
  proof -
    from m occupied_full [OF m(1)] mgr_push_None_iff [OF m(1), of 7] obtain t m' where p: "mgr_push 7 m = (Some t, m')"
      by (cases "mgr_push 7 m") fastforce
    from mgr_push_occupied [OF m(1) p] on_cfm_frame [of m' 7 "[]"] p m(2) show ?thesis by (simp add: mgr_frame_def)
  qed
  have "n \<le> 8 \<Longrightarrow> mgr_wf (((\<lambda>m. on_cfm 7 [] (snd (mgr_push 7 m))) ^^ n) CmdMgr_new) \<and>
      mgr_state (((\<lambda>m. on_cfm 7 [] (snd (mgr_push 7 m))) ^^ n) CmdMgr_new) \<noteq> Crashed \<and>
      occupied (((\<lambda>m. on_cfm 7 [] (snd (mgr_push 7 m))) ^^ n) CmdMgr_new) = n" for n
  proof (induction n)
    case 0
    show ?case by (simp add: mgr_wf_new) (simp add: CmdMgr_new_def occupied_def)
  next
    case (Suc n)
    then show ?case using push [of "((\<lambda>m. on_cfm 7 [] (snd (mgr_push 7 m))) ^^ n) CmdMgr_new"] by simp
  qed
  from this [of 8] have "mgr_wf full_mgr" "mgr_state full_mgr \<noteq> Crashed" "occupied full_mgr = 8"
    by (simp_all add: full_mgr_def)
  with failed_command_loses_slot [OF wiphy_new_wf _ _ _ sample_pid [of "Some full_mgr"] _ r, of full_mgr 1] r
  show ?thesis by simp
qed

end
