(* ===== verification/Wiphy_Laws.thy ===== *)
theory Wiphy_Laws
  imports Wiphy
begin

text \<open>
  What the operations of the control plane mean: the station table as a map from addresses to
  station indices, the key slots, the transmit power, and how the operations read a confirmation.
\<close>

section \<open>The station table\<close>

lemma find_register:
  "map_option se_sta_idx (find (\<lambda>e. se_used e \<and> se_mac e = mac') (register_scan mac i es)) =
     (if mac' = mac
      then if \<exists>e\<in>set es. \<not> se_used e \<or> se_mac e = mac then Some i else None
      else map_option se_sta_idx (find (\<lambda>e. se_used e \<and> se_mac e = mac') es))"
proof -
  let ?f = "\<lambda>mac' es. map_option se_sta_idx (find (\<lambda>e. se_used e \<and> se_mac e = mac') es)"
  have "mac' \<noteq> mac \<Longrightarrow> ?f mac' (register_scan mac i es) = ?f mac' es" by (induction es) auto
  moreover have "\<exists>e\<in>set es. \<not> se_used e \<or> se_mac e = mac \<Longrightarrow> ?f mac (register_scan mac i es) = Some i" by (induction es) auto
  moreover have "\<forall>e\<in>set es. se_used e \<and> se_mac e \<noteq> mac \<Longrightarrow> ?f mac (register_scan mac i es) = None" by (induction es) auto
  ultimately show ?thesis by auto
qed

text \<open>
  Registering a station: afterwards the table answers the new index for its address unless
  the table is full of other stations, and the answer for every other address is unchanged.
\<close>

theorem register_then_lookup:
  "lookup_sta_idx mac' (register_sta_from_connect_ind v mac i st) =
     (if mac' = mac
      then if \<exists>e\<in>set (sta_table st). \<not> se_used e \<or> se_mac e = mac then Some i else None
      else lookup_sta_idx mac' st)"
  unfolding lookup_sta_idx_def register_sta_from_connect_ind_def by (simp add: find_register)

theorem register_then_lookup_witness:
  "lookup_sta_idx [2, 0, 0, 0, 0, 1] (register_sta_from_connect_ind 0 [2, 0, 0, 0, 0, 1] 3 WiphyOpsImpl_new) = Some 3 \<and>
   lookup_sta_idx [2, 0, 0, 0, 0, 2] (register_sta_from_connect_ind 0 [2, 0, 0, 0, 0, 1] 3 WiphyOpsImpl_new) =
     lookup_sta_idx [2, 0, 0, 0, 0, 2] WiphyOpsImpl_new"
  unfolding register_then_lookup by (simp add: WiphyOpsImpl_new_def STA_TABLE_LEN_def sta_entry_default_def)

text \<open>
  A station that comes back while an earlier entry of the table is free gets a second entry,
  so that removing it leaves the old one: the table still answers the stale index.
\<close>

theorem stale_station_survives:
  assumes "a \<noteq> b"
  shows "lookup_sta_idx b
     (unregister_sta_by_mac b (register_sta_from_connect_ind v b i2
       (unregister_sta_by_mac a (register_sta_from_connect_ind v b i1
         (register_sta_from_connect_ind v a i0 WiphyOpsImpl_new))))) = Some i1"
proof -
  have "replicate STA_TABLE_LEN sta_entry_default =
      sta_entry_default # sta_entry_default # replicate 14 sta_entry_default"
    by (simp add: STA_TABLE_LEN_def numeral_eq_Suc)
  then show ?thesis
    using assms by (simp add: lookup_sta_idx_def register_sta_from_connect_ind_def unregister_sta_by_mac_def
        WiphyOpsImpl_new_def sta_entry_default_def)
qed

theorem stale_station_survives_witness:
  "lookup_sta_idx [2, 0, 0, 0, 0, 2]
     (unregister_sta_by_mac [2, 0, 0, 0, 0, 2] (register_sta_from_connect_ind 0 [2, 0, 0, 0, 0, 2] 5
       (unregister_sta_by_mac [2, 0, 0, 0, 0, 1] (register_sta_from_connect_ind 0 [2, 0, 0, 0, 0, 2] 4
         (register_sta_from_connect_ind 0 [2, 0, 0, 0, 0, 1] 3 WiphyOpsImpl_new))))) = Some 4"
  by (rule stale_station_survives) simp

section \<open>Confirmations\<close>

text \<open>The firmware answers the next request with \<open>a\<close>, whatever the request.\<close>

definition answers :: "'w bsp_env \<Rightarrow> nat \<Rightarrow> 'w bsp \<Rightarrow> byte list \<Rightarrow> bool" where
  "answers env fuel s a \<longleftrightarrow> (\<forall>msg cfm_id cap. sendable msg \<longrightarrow>
     (\<exists>s'. send_lmac_cmd_and_wait_cfm_with_buf env fuel msg cfm_id RWNX_80211_CMD_TIMEOUT_MS cap s =
        (ok (min (length a) cap, padded cap a), s')))"

lemma answersD:
  assumes "answers env fuel s a" and "sendable msg"
  shows "\<exists>s'. on_snd (cfm_whole env fuel msg cfm_id cap) (st, s) = (ok (padded cap a), (st, s'))"
    and "\<exists>s'. on_snd (cfm_prefix env fuel msg cfm_id cap) (st, s) = (ok (take cap a), (st, s'))"
proof -
  from assms obtain s' where x: "send_lmac_cmd_and_wait_cfm_with_buf env fuel msg cfm_id RWNX_80211_CMD_TIMEOUT_MS cap s =
      (ok (min (length a) cap, padded cap a), s')" unfolding answers_def by blast
  show "\<exists>s'. on_snd (cfm_whole env fuel msg cfm_id cap) (st, s) = (ok (padded cap a), (st, s'))"
    using x by (simp add: on_snd_def cfm_whole_def io_bind_step(1))
  have "slice_get 0 (min (length a) cap) (padded cap a) = ok (take cap a)"
    by (cases "length a \<le> cap") (simp_all add: slice_get_def padded_def)
  with x show "\<exists>s'. on_snd (cfm_prefix env fuel msg cfm_id cap) (st, s) = (ok (take cap a), (st, s'))"
    by (simp add: on_snd_def cfm_prefix_def io_bind_step(1))
qed

lemma io_bind_lift_err: "io_bind (io_lift (Inl e)) f = io_fail e"
  by (simp add: io_bind_def fun_eq_iff)

lemma add_key_answer:
  assumes "answers env fuel s a"
  shows "fst (add_key env fuel i k key (st, s)) = (if 2 \<le> length a \<and> a ! 0 = 0 then ok () else err (-5))"
proof -
  obtain mc where mc: "wlan_cipher_to_mac CIPHER_CCMP = Some mc" 
    by (cases "wlan_cipher_to_mac CIPHER_CCMP") (auto simp: wlan_cipher_to_mac_def split: if_splits)
  obtain msg where msg: "built (build_mm_key_add_req (ucast i) k 0xFF key mc False) = ok msg" "sendable msg"
    using built_sendable(3) by blast
  obtain s' where "on_snd (cfm_prefix env fuel msg MM_KEY_ADD_CFM 8) (st, s) = (ok (take 8 a), (st, s'))"
    using answersD(2) [OF assms msg(2), where st = st] by blast
  then show ?thesis
    by (auto simp: add_key_def mc msg io_bind_lift io_bind_step(1) parse_mm_key_add_cfm_def Let_def upd_wiphy_def
        io_bind_lift_err split: if_splits)
qed


text \<open>The confirmation of the command in the first slot.\<close>

definition reply :: "byte list \<Rightarrow> cmd_mgr \<Rightarrow> cmd_mgr" where
  "reply payload m = (case slots m ! 0 of None \<Rightarrow> m | Some c \<Rightarrow> on_cfm (p_reqid c) payload m)"

text \<open>An environment that answers the transmitted command at once.\<close>

definition reply_env :: "byte list \<Rightarrow> unit bsp_env" where
  "reply_env payload =
     \<lparr>env_host = noise_host, env_sleep = (\<lambda>_ s. s), env_idle = (\<lambda>s. s),
      env_wait_tx_done = (\<lambda>s. (False, s\<lparr>tx_result := Some 0, pending_cmd_tx := None,
                                        cmd_mgr_cell := map_option (reply payload) (cmd_mgr_cell s)\<rparr>)),
      env_wait_irq_work = (\<lambda>s. s), env_embedded = (\<lambda>_. None)\<rparr>"

definition idle_bsp :: "unit bsp" where
  "idle_bsp = sample_bsp\<lparr>cmd_mgr_cell := Some CmdMgr_new, sdio_device := None\<rparr>"

lemma reply_push:
  assumes "length payload \<le> 256"
  shows "\<exists>m. mgr_push cfm_id CmdMgr_new = (Some 0, m) \<and> is_done 0 (reply payload m) \<and>
     fst (take_cfm 0 out (reply payload m)) =
       Some (min (length payload) (length out), take (length out) payload @ drop (length payload) out)"
proof -
  define m where "m = snd (mgr_push cfm_id CmdMgr_new)"
  have p: "mgr_push cfm_id CmdMgr_new = (Some 0, m)"
    by (simp add: m_def mgr_push_def CmdMgr_new_def CMD_MGR_MAX_PENDING_def find_slot_replicate)
  have c: "\<forall>t. cmd_view CmdMgr_new t \<noteq> Some (cfm_id, None)"
    by (auto simp: cmd_view_def CmdMgr_new_def CMD_MGR_MAX_PENDING_def)
  with rwnx.exchange [OF mgr_wf_new p, of "[]" payload "[]"]
  have "cmd_view m 0 = Some (cfm_id, None)" by (simp add: rwnx.cfms_def)
  then have reply: "reply payload m = on_cfm cfm_id payload m"
    by (auto simp: reply_def cmd_view_def split: if_splits option.splits)
  from rwnx.exchange [OF mgr_wf_new p, of "[]" payload "[]"] assms c reply
  have v: "cmd_view (reply payload m) 0 = Some (cfm_id, Some payload)"
    by (simp add: rwnx.cfms_def RWNX_CMD_E2AMSG_LEN_MAX_def)
  have "mgr_wf m" using mgr_push_wf [OF mgr_wf_new, of cfm_id] p by simp
  with on_cfm_frame [of m cfm_id payload] have "mgr_wf (reply payload m)" by (simp add: mgr_frame_def reply)
  from take_cfm_view(1,2) [OF this v] p show ?thesis by blast
qed

lemma reply_exchange:
  assumes "sendable msg" and "length payload \<le> 256" and "0 < timeout_ms"
  shows "\<exists>s'. send_lmac_cmd_and_wait_cfm_with_buf (reply_env payload) (Suc g) msg cfm_id timeout_ms cap idle_bsp =
     (ok (min (length payload) cap, padded cap payload), s')"
proof -
  have pid: "aicbsp_current_product_id idle_bsp = Some Aic8800Dc"
    by (simp add: aicbsp_current_product_id.simps idle_bsp_def sample_bsp_def PRODUCT_ID_NONE_def)
  from exchange_prepared [OF assms(1) pid, of "reply_env payload" "Suc g" cfm_id timeout_ms cap] obtain b where
    b: "length b \<le> 512" "send_lmac_cmd_and_wait_cfm_with_buf (reply_env payload) (Suc g) msg cfm_id timeout_ms cap idle_bsp =
      exchange_tail (reply_env payload) (Suc g) b cfm_id timeout_ms cap idle_bsp" by blast
  obtain m where m: "mgr_push cfm_id CmdMgr_new = (Some 0, m)" "is_done 0 (reply payload m)"
    "fst (take_cfm 0 (replicate cap 0) (reply payload m)) =
       Some (min (length payload) cap, take cap payload @ replicate (cap - length payload) 0)"
    using reply_push [OF assms(2), of cfm_id "replicate cap 0"] by auto
  let ?s1 = "idle_bsp\<lparr>cmd_mgr_cell := Some m\<rparr>"
  let ?s2 = "idle_bsp\<lparr>cmd_mgr_cell := Some (reply payload m), tx_result := None, pending_cmd_tx := None\<rparr>"
  have "push_token cfm_id idle_bsp = (ok 0, ?s1)"
    using m(1) by (simp add: push_token_def with_cmd_mgr_def idle_bsp_def)
  moreover have "submit_cmd_tx_and_wait_tx_done (reply_env payload) (Suc g) b (length b) ?s1 = (ok (), ?s2)"
    using b(1) by (simp add: submit_cmd_tx_and_wait_tx_done_def PENDING_CMD_TX_CAP_def slice_set_def reply_env_def)
  moreover have "sdio_poll_rx_once (reply_env payload) ?s2 = (ok (), ?s2)"
    by (simp add: sdio_poll_rx_once_def run_poll_rx_one_def idle_bsp_def)
  then have "wait_done_until timeout_ms (token_done 0) None (Some (\<lambda>s. snd (sdio_poll_rx_once (reply_env payload) s))) None
      (env_idle (reply_env payload)) ?s2 = (ok (), ?s2)"
    unfolding wait_done_until_def using assms(3) m(2)
    by (subst wait_done_until_loop.simps) (simp add: token_done_def with_cmd_mgr_def)
  ultimately have "exchange_tail (reply_env payload) (Suc g) b cfm_id timeout_ms cap idle_bsp =
      (case take_token 0 (replicate cap 0) ?s2 of (r, s') \<Rightarrow> (ok_or r (-5), s'))"
    by (simp add: exchange_tail_def io_bind_step(1))
  with m(3) b(2) show ?thesis
    by (cases "take_cfm 0 (replicate cap 0) (reply payload m)") (simp add: take_token_def with_cmd_mgr_def padded_def)
qed


lemma reply_answers: "length payload \<le> 256 \<Longrightarrow> answers (reply_env payload) (Suc g) idle_bsp payload"
  by (simp add: answers_def reply_exchange RWNX_80211_CMD_TIMEOUT_MS_def)



section \<open>Transmit power\<close>

lemma as_i8_id: "-128 \<le> x \<Longrightarrow> x \<le> 127 \<Longrightarrow> as_i8 x = x"
  by (simp add: as_i8_def int_word_sint)

text \<open>
  (C23) Reading back the transmit power (in hundredths of dBm) after a successful \<open>set_tx_power\<close>:
  12700 and more give 12700; down to -12899 the value is the request rounded towards zero to a
  whole dBm; below, the \<open>i8\<close> wraps around, so that -12900 reads back as the maximum.
\<close>

theorem tx_power_readback:
  assumes "wiphy_wf st" and "set_tx_power env fuel i p (st, s) = (ok (), x)"
  shows "\<exists>v. get_tx_power i x = (ok v, x) \<and> (12700 \<le> p \<longrightarrow> v = 12700) \<and>
     (-12900 < p \<and> p < 12700 \<longrightarrow> \<bar>p - v\<bar> < 100 \<and> \<bar>v\<bar> \<le> \<bar>p\<bar> \<and> 100 dvd v) \<and> (p = -12900 \<longrightarrow> v = 12700)"
proof -
  have i: "unat i < 4" using assms(2) by (auto simp: set_tx_power_def wiphy_consts split: if_splits)
  define q where "q = power_dbm_of p"
  from assms(2) i have x: "\<exists>st' s'. x = (st', s') \<and> last_tx_power_dbm st' = (last_tx_power_dbm st)[unat i := Some q]"
    by (auto simp: set_tx_power_def wiphy_consts io_bind_Inr_iff upd_wiphy_def q_def on_snd_def split: prod.splits)
  have "length (last_tx_power_dbm st) = 4" using assms(1) by (simp add: wiphy_wf_def)
  with x i have "get_tx_power i x = (ok (q * 100), x)"
    by (auto simp: get_tx_power_def wiphy_consts get_wiphy_def)
  moreover have "12700 \<le> p \<Longrightarrow> q = 127" by (simp add: q_def power_dbm_of_def)
  moreover have "p = -12900 \<Longrightarrow> q = 127" by (simp add: q_def power_dbm_of_def as_i8_def I32_MAX_def)
  moreover have "\<bar>p - q * 100\<bar> < 100 \<and> \<bar>q * 100\<bar> \<le> \<bar>p\<bar>" if "-12900 < p" "p < 12700"
  proof (cases "p < 0")
    case True
    with that have "as_i8 (- ((- p) div 100)) = - ((- p) div 100)" by (intro as_i8_id) auto
    with True that have "q = - ((- p) div 100)" by (simp add: q_def power_dbm_of_def I32_MAX_def)
    with True show ?thesis by auto
  next
    case False
    with that have "as_i8 (p div 100) = p div 100" by (intro as_i8_id) auto
    with False that have "q = p div 100" by (simp add: q_def power_dbm_of_def I32_MAX_def)
    with False show ?thesis by auto
  qed
  ultimately show ?thesis by (intro exI [of _ "q * 100"]) auto
qed

theorem tx_power_readback_witness:
  "\<exists>x. set_tx_power (reply_env [0, 0]) 1 2 (-12900) (WiphyOpsImpl_new, idle_bsp) = (ok (), x) \<and>
     get_tx_power 2 x = (ok 12700, x)"
proof -
  obtain s' where "on_snd (cfm_prefix (reply_env [0, 0]) 1 (build_mm_set_power_req (ucast (2::ifindex)) (power_dbm_of (-12900))) MM_SET_POWER_CFM 8)
      (WiphyOpsImpl_new, idle_bsp) = (ok [0, 0], (WiphyOpsImpl_new, s'))"
    using answersD(2) [OF reply_answers [of "[0, 0]" 0] requests_sendable(5) [of "ucast (2::ifindex)" "power_dbm_of (-12900)"],
        of MM_SET_POWER_CFM 8 WiphyOpsImpl_new] by auto
  then obtain x where "set_tx_power (reply_env [0, 0]) 1 2 (-12900) (WiphyOpsImpl_new, idle_bsp) = (ok (), x)"
    by (simp add: set_tx_power_def wiphy_consts io_bind_step(1) parse_mm_set_power_cfm_def io_bind_lift upd_wiphy_def)
  with tx_power_readback [OF wiphy_new_wf this] show ?thesis by auto
qed


section \<open>Keys\<close>

text \<open>The hardware index behind a key slot.\<close>

definition key_at :: "wiphy_state \<Rightarrow> nat \<Rightarrow> nat \<Rightarrow> u8 option" where
  "key_at st v k = key_hw st ! v ! k"

lemma key_at_set:
  assumes "wiphy_wf st" and "v < 4" and "k < 8"
  shows "key_at (set_key_hw v k x st) v' k' = (if v' = v \<and> k' = k then x else key_at st v' k')"
proof -
  have "length (key_hw st) = 4" "length (key_hw st ! v) = 8" using assms by (auto simp: wiphy_wf_def)
  with assms show ?thesis
    by (cases "v' = v"; cases "k' = k") (auto simp: key_at_def set_key_hw_def)
qed

lemma get_key_at:
  "unat i < 4 \<Longrightarrow> unat k < 8 \<Longrightarrow>
   get_key i k (st, s) = (ok \<lparr>ks_present = (key_at st (unat i) (unat k) \<noteq> None), ks_cipher = 0\<rparr>, (st, s))"
  by (simp add: get_key_def get_wiphy_def key_at_def wiphy_consts)

lemma add_key_okD:
  assumes "add_key env fuel i k key (st, s) = (ok (), (st', s'))"
    and "unat (ucast i :: u8) < 4" and "unat k < 8"
  shows "\<exists>hw. st' = set_key_hw (unat (ucast i :: u8)) (unat k) (Some hw) st"
  using assms
  by (auto simp: add_key_def Let_def io_bind_Inr_iff wiphy_consts upd_wiphy_def on_snd_def split: if_splits prod.splits)

lemma del_key_okD:
  assumes "del_key env fuel i k (st, s) = (ok (), (st', s'))"
  shows "unat i < 4" "unat k < 8" "key_at st (unat i) (unat k) \<noteq> None" "st' = set_key_hw (unat i) (unat k) None st"
proof -
  show g: "unat i < 4" "unat k < 8"
    using assms by (auto simp: del_key_def wiphy_consts split: if_splits)
  with assms obtain hw where hw: "key_hw st ! unat i ! unat k = Some hw"
    by (cases "key_hw st ! unat i ! unat k") (auto simp: del_key_def wiphy_consts get_wiphy_def io_bind_def)
  then show "key_at st (unat i) (unat k) \<noteq> None" by (simp add: key_at_def)
  obtain r x where r: "send_lmac_cmd_and_wait_cfm env fuel (build_mm_key_del_req hw) MM_KEY_DEL_CFM
      RWNX_80211_CMD_TIMEOUT_MS s = (r, x)" by fastforce
  with g hw assms show "st' = set_key_hw (unat i) (unat k) None st"
    by (cases r) (simp_all add: del_key_def wiphy_consts get_wiphy_def upd_wiphy_def on_snd_def io_bind_def)
qed

text \<open>
  (C22) Life of a key: after a successful \<open>add_key\<close> the key is reported present and all other keys
  are as before; after a successful \<open>del_key\<close> it is absent, again with the others untouched, and a
  second \<open>del_key\<close> fails with -2 without contacting the firmware.
\<close>

theorem key_lifecycle:
  assumes "wiphy_wf st" and "unat i < 4" and "unat k < 8"
    and "add_key env fuel i k key (st, s) = (ok (), (st1, s1))"
    and "wiphy_wf st1" and "del_key env' fuel' i k (st1, s1') = (ok (), (st2, s2))"
  shows "get_key i k (st1, s1) = (ok \<lparr>ks_present = True, ks_cipher = 0\<rparr>, (st1, s1)) \<and>
     get_key i k (st2, s2) = (ok \<lparr>ks_present = False, ks_cipher = 0\<rparr>, (st2, s2)) \<and>
     (\<forall>v' k'. (v', k') \<noteq> (unat i, unat k) \<longrightarrow> key_at st1 v' k' = key_at st v' k' \<and> key_at st2 v' k' = key_at st v' k') \<and>
     del_key env' fuel' i k (st2, s2) = (err (-2), (st2, s2))"
proof -
  have v: "unat (ucast i :: u8) = unat i" using assms(2) by (simp add: unsigned_ucast_eq take_bit_nat_eq_self)
  with add_key_okD [OF assms(4)] assms(2,3) obtain hw where st1: "st1 = set_key_hw (unat i) (unat k) (Some hw) st" by auto
  note st2 = del_key_okD(4) [OF assms(6)]
  have k1: "key_at st1 v' k' = (if v' = unat i \<and> k' = unat k then Some hw else key_at st v' k')" for v' k'
    unfolding st1 using assms(1-3) by (rule key_at_set)
  have k2: "key_at st2 v' k' = (if v' = unat i \<and> k' = unat k then None else key_at st1 v' k')" for v' k'
    unfolding st2 using assms(5,2,3) by (rule key_at_set)
  have "del_key env' fuel' i k (st2, s2) = (err (-2), (st2, s2))"
    using k2 [of "unat i" "unat k"] assms(2,3) by (simp add: del_key_def wiphy_consts get_wiphy_def io_bind_def key_at_def)
  with k1 k2 assms(2,3) show ?thesis by (auto simp: get_key_at)
qed

theorem key_lifecycle_witness:
  "\<exists>st1 s1 st2 s2. add_key (reply_env [0, 7]) 1 1 2 [1, 2, 3] (WiphyOpsImpl_new, idle_bsp) = (ok (), (st1, s1)) \<and>
     del_key (reply_env []) 1 1 2 (st1, idle_bsp) = (ok (), (st2, s2)) \<and>
     get_key 1 2 (st2, s2) = (ok \<lparr>ks_present = False, ks_cipher = 0\<rparr>, (st2, s2))"
proof -
  obtain r st1 s1 where a: "add_key (reply_env [0, 7]) 1 1 2 [1, 2, 3] (WiphyOpsImpl_new, idle_bsp) = (r, (st1, s1))" by (metis prod_cases3)
  have "fst (add_key (reply_env [0, 7]) 1 1 2 [1, 2, 3] (WiphyOpsImpl_new, idle_bsp)) = ok ()"
    using add_key_answer [OF reply_answers [of "[0, 7]" 0], of 1 2 "[1, 2, 3]"] by simp
  with a have a: "add_key (reply_env [0, 7]) 1 1 2 [1, 2, 3] (WiphyOpsImpl_new, idle_bsp) = (ok (), (st1, s1))" by simp
  from add_key_okD [OF this] obtain hw where st1: "st1 = set_key_hw 1 2 (Some hw) WiphyOpsImpl_new" by auto
  then have wf: "wiphy_wf st1" by (simp add: set_key_hw_wf wiphy_new_wf)
  have k: "key_at st1 1 2 = Some hw" unfolding st1 by (simp add: key_at_set [OF wiphy_new_wf])
  obtain s2 where "on_snd (cfm_whole (reply_env []) 1 (build_mm_key_del_req hw) MM_KEY_DEL_CFM 64) (st1, idle_bsp) =
      (ok (padded 64 []), (st1, s2))"
    using answersD(1) [OF reply_answers [of "[]" 0] requests_sendable(4) [of hw], of MM_KEY_DEL_CFM 64 st1] by auto
  then have "\<exists>st2. del_key (reply_env []) 1 1 2 (st1, idle_bsp) = (ok (), (st2, s2))"
    using k
    by (auto simp: del_key_def wiphy_consts get_wiphy_def key_at_def io_bind_def upd_wiphy_def on_snd_def cfm_whole_def
        send_lmac_cmd_and_wait_cfm_def split: prod.splits sum.splits)
  then obtain st2 where d: "del_key (reply_env []) 1 1 2 (st1, idle_bsp) = (ok (), (st2, s2))" by blast
  from key_lifecycle [OF wiphy_new_wf _ _ a wf d] a d show ?thesis by auto
qed

end
