(* ===== verification/Sdio_Bus.thy ===== *)
theory Sdio_Bus
  imports Bsp_Types Ieee80211
begin

text \<open>
  The SDIO side of the full driver (\<open>driver/fdrv/src/sdio_bus.rs\<close>, \<open>sdio_host.rs\<close>): the register
  sets of the chips, the device context, and the rings of host ids that match transmit
  confirmations with the frames they confirm.
\<close>

section \<open>Registers and device\<close>

definition SDIO_BUFFER_SIZE :: nat where "SDIO_BUFFER_SIZE = 1536"
definition SDIO_TAIL_LEN :: nat where "SDIO_TAIL_LEN = 4"
definition NX_TXQ_CNT :: nat where "NX_TXQ_CNT = 4"
definition NX_TXDESC_CNT_MAX :: nat where "NX_TXDESC_CNT_MAX = 64"
definition SDIO_SLEEP_ST :: u32 where "SDIO_SLEEP_ST = 0"
definition SDIO_ACTIVE_ST :: u32 where "SDIO_ACTIVE_ST = 1"

record sdio_reg =
  bytemode_len_reg :: u8
  intr_config_reg :: u8
  sleep_reg :: u8
  wakeup_reg :: u8
  flow_ctrl_reg :: u8
  flowctrl_mask_reg :: u8
  register_block :: u8
  bytemode_enable_reg :: u8
  block_cnt_reg :: u8
  misc_int_status_reg :: u8
  rd_fifo_addr :: u8
  wr_fifo_addr :: u8

definition v1_v2_default :: sdio_reg where
  "v1_v2_default =
     \<lparr>bytemode_len_reg = 0x02, intr_config_reg = 0x04, sleep_reg = 0x05, wakeup_reg = 0x09, flow_ctrl_reg = 0x0A,
      flowctrl_mask_reg = 0x7F, register_block = 0x0B, bytemode_enable_reg = 0x11, block_cnt_reg = 0x12,
      misc_int_status_reg = 0, rd_fifo_addr = 0x08, wr_fifo_addr = 0x07\<rparr>"

definition v3_default :: sdio_reg where
  "v3_default =
     \<lparr>bytemode_len_reg = 0x05, intr_config_reg = 0, sleep_reg = 0, wakeup_reg = 0, flow_ctrl_reg = 0x03,
      flowctrl_mask_reg = 0, register_block = 0, bytemode_enable_reg = 0x07, block_cnt_reg = 0,
      misc_int_status_reg = 0x04, rd_fifo_addr = 0x0F, wr_fifo_addr = 0x10\<rparr>"

fun for_product :: "product_id \<Rightarrow> sdio_reg" where
  "for_product Aic8800D80 = v3_default"
| "for_product Aic8800D80X2 = v3_default"
| "for_product _ = v1_v2_default"

datatype bus_state = Down | Up

fun bus_state_repr :: "bus_state \<Rightarrow> u32" where
  "bus_state_repr Down = 0"
| "bus_state_repr Up = 1"

record sdio_dev =
  dev_chipid :: product_id
  dev_sdio_reg :: sdio_reg
  dev_state :: u32

definition SdioDev_new :: "product_id \<Rightarrow> sdio_dev" where
  "SdioDev_new chipid = \<lparr>dev_chipid = chipid, dev_sdio_reg = for_product chipid, dev_state = SDIO_ACTIVE_ST\<rparr>"

definition set_sleep :: "sdio_dev \<Rightarrow> sdio_dev" where
  "set_sleep d = d\<lparr>dev_state := SDIO_SLEEP_ST\<rparr>"

definition set_active :: "sdio_dev \<Rightarrow> sdio_dev" where
  "set_active d = d\<lparr>dev_state := SDIO_ACTIVE_ST\<rparr>"

definition dev_is_v3 :: "sdio_dev \<Rightarrow> bool" where
  "dev_is_v3 d \<longleftrightarrow> dev_chipid d = Aic8800D80 \<or> dev_chipid d = Aic8800D80X2"

definition aicwf_sdio_probe_equiv :: "product_id \<Rightarrow> sdio_dev" where
  "aicwf_sdio_probe_equiv chipid = SdioDev_new chipid"

section \<open>The rings of host ids\<close>

text \<open>\<open>pthis\<close> is an opaque pointer.\<close>

record sdio_host_env =
  txdesc_free_idx :: "u32 list"
  txdesc_used_idx :: "u32 list"
  tx_host_id :: "u64 list list"
  pthis :: "nat option"

definition host_env_default :: sdio_host_env where
  "host_env_default =
     \<lparr>txdesc_free_idx = replicate NX_TXQ_CNT 0, txdesc_used_idx = replicate NX_TXQ_CNT 0,
      tx_host_id = replicate NX_TXQ_CNT (replicate NX_TXDESC_CNT_MAX 0), pthis = None\<rparr>"

definition host_env_init :: "nat option \<Rightarrow> sdio_host_env \<Rightarrow> sdio_host_env" where
  "host_env_init p e = host_env_default\<lparr>pthis := p\<rparr>"

definition txdesc_push :: "nat \<Rightarrow> u64 \<Rightarrow> sdio_host_env \<Rightarrow> sdio_host_env" where
  "txdesc_push queue_idx host_id e =
     (if queue_idx \<ge> NX_TXQ_CNT then e
      else
        let free = unat (txdesc_free_idx e ! queue_idx) mod NX_TXDESC_CNT_MAX in
        e\<lparr>tx_host_id := (tx_host_id e)[queue_idx := (tx_host_id e ! queue_idx)[free := host_id]],
          txdesc_free_idx := (txdesc_free_idx e)[queue_idx := txdesc_free_idx e ! queue_idx + 1]\<rparr>)"

definition tx_cfm_advance :: "nat \<Rightarrow> sdio_host_env \<Rightarrow> u64 option \<times> sdio_host_env" where
  "tx_cfm_advance queue_idx e =
     (if queue_idx \<ge> NX_TXQ_CNT then (None, e)
      else
        let used = unat (txdesc_used_idx e ! queue_idx) mod NX_TXDESC_CNT_MAX in
        (Some (tx_host_id e ! queue_idx ! used),
         e\<lparr>txdesc_used_idx := (txdesc_used_idx e)[queue_idx := txdesc_used_idx e ! queue_idx + 1]\<rparr>))"

lemmas ring_consts = NX_TXQ_CNT_def NX_TXDESC_CNT_MAX_def

section \<open>A bounded queue\<close>

text \<open>
  The interface a client of the rings relies on: \<open>holds e xs\<close> says that the queue holds \<open>xs\<close>, oldest
  first. Adding is allowed while there is room.
\<close>

datatype 'a queue_op = Enq 'a | Deq

text \<open>A sequence of operations and the values it returns.\<close>

fun queue_run :: "('a \<Rightarrow> 's \<Rightarrow> 's) \<Rightarrow> ('s \<Rightarrow> 'a option \<times> 's) \<Rightarrow> 'a queue_op list \<Rightarrow> 's \<Rightarrow> 'a option list \<times> 's" where
  "queue_run enq deq [] s = ([], s)"
| "queue_run enq deq (Enq x # ops) s = queue_run enq deq ops (enq x s)"
| "queue_run enq deq (Deq # ops) s =
     (case deq s of (r, s') \<Rightarrow> (case queue_run enq deq ops s' of (rs, s2) \<Rightarrow> (r # rs, s2)))"

locale bounded_queue =
  fixes holds :: "'s \<Rightarrow> 'a list \<Rightarrow> bool" and enq :: "'a \<Rightarrow> 's \<Rightarrow> 's" and deq :: "'s \<Rightarrow> 'a option \<times> 's"
    and cap :: nat
  assumes enq_holds: "holds s xs \<Longrightarrow> length xs < cap \<Longrightarrow> holds (enq x s) (xs @ [x])"
    and deq_holds: "holds s (x # xs) \<Longrightarrow> fst (deq s) = Some x \<and> holds (snd (deq s)) xs"

text \<open>The number of elements stays between 0 and the capacity.\<close>

fun within :: "nat \<Rightarrow> nat \<Rightarrow> 'a queue_op list \<Rightarrow> bool" where
  "within cap n [] \<longleftrightarrow> True"
| "within cap n (Enq x # ops) \<longleftrightarrow> n < cap \<and> within cap (Suc n) ops"
| "within cap n (Deq # ops) \<longleftrightarrow> 0 < n \<and> within cap (n - 1) ops"

fun enqueued :: "'a queue_op list \<Rightarrow> 'a list" where
  "enqueued [] = []"
| "enqueued (Enq x # ops) = x # enqueued ops"
| "enqueued (Deq # ops) = enqueued ops"

fun dequeues :: "'a queue_op list \<Rightarrow> nat" where
  "dequeues [] = 0"
| "dequeues (Enq x # ops) = dequeues ops"
| "dequeues (Deq # ops) = Suc (dequeues ops)"

lemma within_dequeues: "within cap n ops \<Longrightarrow> dequeues ops \<le> n + length (enqueued ops)"
  by (induction cap n ops rule: within.induct) auto

context bounded_queue
begin

lemma run_fifo:
  "holds s xs \<Longrightarrow> within cap (length xs) ops \<Longrightarrow>
   fst (queue_run enq deq ops s) = map Some (take (dequeues ops) (xs @ enqueued ops)) \<and>
   holds (snd (queue_run enq deq ops s)) (drop (dequeues ops) (xs @ enqueued ops))"
proof (induction ops arbitrary: s xs)
  case Nil
  then show ?case by simp
next
  case (Cons op ops)
  show ?case
  proof (cases op)
    case (Enq x)
    with Cons.prems Cons.IH [OF enq_holds [of s xs x]] show ?thesis by simp
  next
    case Deq
    with Cons.prems obtain x ys where xs: "xs = x # ys" by (cases xs) auto
    obtain r s' where r: "deq s = (r, s')" by fastforce
    with deq_holds [of s x ys] Cons.prems xs have "r = Some x" "holds s' ys" by auto
    with Cons.IH [of s' ys] Cons.prems xs Deq r show ?thesis by (auto split: prod.splits)
  qed
qed

end

section \<open>The ring of one transmit queue\<close>

definition ring_wf :: "sdio_host_env \<Rightarrow> bool" where
  "ring_wf e \<longleftrightarrow> length (txdesc_free_idx e) = 4 \<and> length (txdesc_used_idx e) = 4 \<and> length (tx_host_id e) = 4 \<and>
     (\<forall>r\<in>set (tx_host_id e). length r = 64)"

definition ring_holds :: "nat \<Rightarrow> sdio_host_env \<Rightarrow> u64 list \<Rightarrow> bool" where
  "ring_holds q e xs \<longleftrightarrow> q < 4 \<and> ring_wf e \<and> length xs \<le> 64 \<and>
     txdesc_free_idx e ! q = txdesc_used_idx e ! q + of_nat (length xs) \<and>
     (\<forall>j<length xs. tx_host_id e ! q ! ((unat (txdesc_used_idx e ! q) + j) mod 64) = xs ! j)"

lemma ring_holdsD: "ring_holds q e xs \<Longrightarrow> q < 4"
  by (simp add: ring_holds_def)

lemma ring_index: "unat (i + of_nat j :: u32) mod 64 = (unat i + j) mod 64"
proof -
  have "unat (i + of_nat j) = (unat i + j) mod 2 ^ 32"
    by (simp add: unat_word_ariths(1) unat_of_nat mod_add_right_eq)
  moreover have "(64::nat) dvd 2 ^ 32" by simp
  ultimately show ?thesis by (simp only: mod_mod_cancel)
qed

lemma slots_differ: "j < n \<Longrightarrow> n < 64 \<Longrightarrow> (u + j) mod 64 \<noteq> (u + n) mod (64::nat)"
  using mod_eq_dvd_iff_nat [of "u + j" "u + n" 64] nat_dvd_not_less [of "n - j" 64] by auto

lemma push_holds:
  assumes "ring_holds q e xs" and "length xs < 64" and "q < 4"
  shows "ring_holds q (txdesc_push q x e) (xs @ [x])"
proof -
  let ?u = "unat (txdesc_used_idx e ! q)"
  from assms have wf: "length (txdesc_free_idx e) = 4" "length (tx_host_id e) = 4" "length (tx_host_id e ! q) = 64"
    by (auto simp: ring_holds_def ring_wf_def)
  have free: "unat (txdesc_free_idx e ! q) mod 64 = (?u + length xs) mod 64"
    using assms(1) by (simp add: ring_holds_def ring_index)
  have ids: "tx_host_id (txdesc_push q x e) ! q = (tx_host_id e ! q)[(?u + length xs) mod 64 := x]"
    using assms(3) wf free by (simp add: txdesc_push_def ring_consts Let_def)
  have "tx_host_id (txdesc_push q x e) ! q ! ((?u + j) mod 64) = (xs @ [x]) ! j" if "j < length (xs @ [x])" for j
  proof (cases "j = length xs")
    case True
    then show ?thesis using wf by (simp add: ids)
  next
    case False
    with that have "j < length xs" by simp
    with assms(1,2) slots_differ [of j "length xs" ?u] show ?thesis
      by (simp add: ids ring_holds_def nth_append)
  qed
  moreover have "ring_wf (txdesc_push q x e)"
    using assms(1,3) set_update_subset_insert [of "tx_host_id e" q "(tx_host_id e ! q)[unat (txdesc_free_idx e ! q) mod 64 := x]"]
      wf by (auto simp: ring_holds_def ring_wf_def txdesc_push_def ring_consts Let_def)
  moreover have "txdesc_used_idx (txdesc_push q x e) = txdesc_used_idx e"
    "txdesc_free_idx (txdesc_push q x e) ! q = txdesc_free_idx e ! q + 1"
    using assms(3) wf by (simp_all add: txdesc_push_def ring_consts Let_def)
  ultimately show ?thesis using assms by (simp add: ring_holds_def algebra_simps)
qed

lemma cfm_holds:
  assumes "ring_holds q e (x # xs)" and "q < 4"
  shows "fst (tx_cfm_advance q e) = Some x \<and> ring_holds q (snd (tx_cfm_advance q e)) xs"
proof -
  let ?u = "txdesc_used_idx e ! q"
  from assms have wf: "ring_wf e" "length (txdesc_used_idx e) = 4" by (auto simp: ring_holds_def ring_wf_def)
  have at: "tx_host_id e ! q ! ((unat ?u + j) mod 64) = (x # xs) ! j" if "j \<le> length xs" for j
    using assms(1) that by (simp add: ring_holds_def)
  have "tx_host_id e ! q ! ((unat (?u + 1) + j) mod 64) = xs ! j" if "j < length xs" for j
  proof -
    have "(unat (?u + 1) + j) mod 64 = (unat ?u + Suc j) mod 64"
    proof -
      have "(unat (?u + 1) + j) mod 64 = (unat (?u + 1) mod 64 + j) mod 64" by (simp only: mod_add_left_eq)
      also have "\<dots> = ((unat ?u + 1) mod 64 + j) mod 64" using ring_index [of ?u 1] by simp
      also have "\<dots> = (unat ?u + Suc j) mod 64" by (simp only: mod_add_left_eq) simp
      finally show ?thesis .
    qed
    with at [of "Suc j"] that show ?thesis by simp
  qed
  moreover have "tx_host_id e ! q ! (unat ?u mod 64) = x" using at [of 0] by simp
  ultimately show ?thesis
    using assms wf by (auto simp: tx_cfm_advance_def ring_consts Let_def ring_holds_def ring_wf_def)
qed

interpretation ring: bounded_queue "ring_holds q" "txdesc_push q" "tx_cfm_advance q" 64 for q
  by unfold_locales (auto simp: push_holds cfm_holds ring_holdsD)


lemma push_full:
  assumes "ring_holds q e xs" and "length xs = 64"
  shows "fst (tx_cfm_advance q (txdesc_push q x e)) = Some x"
proof -
  from assms have wf: "q < 4" "length (txdesc_free_idx e) = 4" "length (tx_host_id e) = 4" "length (tx_host_id e ! q) = 64"
    by (auto simp: ring_holds_def ring_wf_def)
  have "unat (txdesc_free_idx e ! q) mod 64 = unat (txdesc_used_idx e ! q) mod 64"
    using assms ring_index [of "txdesc_used_idx e ! q" 64] by (simp add: ring_holds_def)
  with wf show ?thesis by (simp add: txdesc_push_def tx_cfm_advance_def ring_consts Let_def)
qed

text \<open>
  Transmit confirmations return the host ids in the order they were pushed: starting from an
  empty ring at any index, through any interleaving that keeps at most 64 ids outstanding, and
  across the wrap-around of the 32-bit counters. With 64 ids outstanding a further push overwrites
  the oldest one, and the next confirmation returns the new id in its place.
\<close>

theorem host_ids_in_order:
  assumes "ring_wf e" and "q < 4" and "txdesc_free_idx e ! q = txdesc_used_idx e ! q" and "within 64 0 ops"
    and "ring_holds q e' xs" and "length xs = 64"
  shows "fst (queue_run (txdesc_push q) (tx_cfm_advance q) ops e) = map Some (take (dequeues ops) (enqueued ops)) \<and>
     dequeues ops \<le> length (enqueued ops) \<and>
     fst (tx_cfm_advance q (txdesc_push q x e')) = Some x"
proof -
  have "ring_holds q e []" using assms(1-3) by (simp add: ring_holds_def)
  from ring.run_fifo [OF this] assms(4) within_dequeues [OF assms(4)] push_full [OF assms(5,6)] show ?thesis by simp
qed

theorem host_ids_in_order_witness:
  "fst (queue_run (txdesc_push 1) (tx_cfm_advance 1) [Enq 7, Enq 8, Deq, Enq 9, Deq, Deq]
      (host_env_default\<lparr>txdesc_free_idx := replicate 4 0xFFFFFFFF, txdesc_used_idx := replicate 4 0xFFFFFFFF\<rparr>)) =
     [Some 7, Some 8, Some 9]"
proof -
  let ?full = "host_env_default\<lparr>txdesc_free_idx := replicate 4 64\<rparr>"
  have "ring_holds 1 ?full (replicate 64 0)"
    by (simp add: ring_holds_def ring_wf_def host_env_default_def ring_consts)
  from host_ids_in_order [OF _ _ _ _ this, of "host_env_default\<lparr>txdesc_free_idx := replicate 4 0xFFFFFFFF, txdesc_used_idx := replicate 4 0xFFFFFFFF\<rparr>"
      "[Enq 7, Enq 8, Deq, Enq 9, Deq, Deq]" 0] show ?thesis
    by (simp add: ring_wf_def host_env_default_def ring_consts)
qed

section \<open>The SDIO host\<close>

text \<open>The platform's operations (\<open>SdioHostOps\<close>) are the parameter.\<close>

record 'w sdio_host_ops =
  send_pkt :: "byte list \<Rightarrow> nat \<Rightarrow> ('w, nat) io"
  recv_pkt :: "byte list \<Rightarrow> u32 \<Rightarrow> u8 \<Rightarrow> ('w, nat \<times> byte list) io"

datatype sdio_type = SdioData | SdioCfg | SdioCfgCmdRsp | SdioCfgDataCfm

fun sdio_type_repr :: "sdio_type \<Rightarrow> u8" where
  "sdio_type_repr SdioData = 0x00"
| "sdio_type_repr SdioCfg = 0x10"
| "sdio_type_repr SdioCfgCmdRsp = 0x11"
| "sdio_type_repr SdioCfgDataCfm = 0x12"

record sdio_host_dev =
  hd_chipid :: product_id

definition SdioHost_new :: "product_id \<Rightarrow> sdio_host_dev" where
  "SdioHost_new chipid = \<lparr>hd_chipid = chipid\<rparr>"

definition send_cfg_cmd :: "'w sdio_host_ops \<Rightarrow> byte list \<Rightarrow> ('w, nat) io" where
  "send_cfg_cmd ops buf = send_pkt ops buf (length buf)"

definition recv_cfg_rsp :: "'w sdio_host_ops \<Rightarrow> byte list \<Rightarrow> sdio_type \<Rightarrow> ('w, nat \<times> byte list) io" where
  "recv_cfg_rsp ops buf msg_type = recv_pkt ops buf (of_nat (length buf)) (sdio_type_repr msg_type)"

definition send_data :: "'w sdio_host_ops \<Rightarrow> byte list \<Rightarrow> ('w, nat) io" where
  "send_data ops buf = send_pkt ops buf (length buf)"

definition recv_data :: "'w sdio_host_ops \<Rightarrow> byte list \<Rightarrow> u32 \<Rightarrow> ('w, nat \<times> byte list) io" where
  "recv_data ops buf len = recv_pkt ops buf len (sdio_type_repr SdioData)"

end
