(* ===== verification/Cfgfile.thy ===== *)
theory Cfgfile
  imports Prelude
begin

text \<open>
  The configuration files of the full driver (\<open>driver/fdrv/src/cfgfile.rs\<close>): the search for a tag at
  the start of a line, MAC addresses and 32-bit values in hexadecimal. Files are byte lists; the
  cursor loops are recursive functions over the index.
\<close>

section \<open>Searching a tag\<close>

text \<open>\<open>while cur < len && data[cur] != b'\n' { cur += 1 }\<close>\<close>

function line_end :: "byte list \<Rightarrow> nat \<Rightarrow> nat" where
  "line_end data cur = (if cur < length data \<and> data ! cur \<noteq> 10 then line_end data (Suc cur) else cur)"
  by pat_completeness auto

termination
  by (relation "measure (\<lambda>(data, cur). length data - cur)") auto

declare line_end.simps [simp del]

lemma line_end_ge: "cur \<le> line_end data cur"
proof (induction data cur rule: line_end.induct)
  case (1 data cur)
  then show ?case by (subst line_end.simps) auto
qed

function find_tag_from :: "byte list \<Rightarrow> byte list \<Rightarrow> nat \<Rightarrow> byte list option" where
  "find_tag_from data tag line_start =
     (if line_start < length data then
        let cur = line_end data line_start;
            line = take (cur - line_start) (drop line_start data)
        in if length line \<ge> length tag \<and> take (length tag) line = tag
           then Some (take (cur - (line_start + length tag)) (drop (line_start + length tag) data))
           else find_tag_from data tag (cur + 1)
      else None)"
  by pat_completeness auto

termination
  using line_end_ge
  by (relation "measure (\<lambda>(data, tag, i). length data - i)") (auto simp: less_Suc_eq_le diff_less_mono2 le_imp_less_Suc)

declare find_tag_from.simps [simp del]

definition find_tag :: "byte list \<Rightarrow> byte list \<Rightarrow> byte list option" where
  "find_tag file_data tag_name = find_tag_from file_data tag_name 0"

section \<open>Hexadecimal values\<close>

definition hex_nibble :: "byte \<Rightarrow> u8 option" where
  "hex_nibble b =
     (if 0x30 \<le> b \<and> b \<le> 0x39 then Some (b - 0x30)
      else if 0x61 \<le> b \<and> b \<le> 0x66 then Some (b - 0x61 + 10)
      else if 0x41 \<le> b \<and> b \<le> 0x46 then Some (b - 0x41 + 10)
      else None)"

text \<open>The loop of \<open>parse_mac_addr\<close>; the bytes of \<open>out\<close> written so far.\<close>

function mac_loop :: "byte list \<Rightarrow> nat \<Rightarrow> byte list \<Rightarrow> byte list option" where
  "mac_loop s i out =
     (if length out < 6 \<and> i + 2 \<le> length s then
        Option.bind (hex_nibble (s ! i)) (\<lambda>hi.
        Option.bind (hex_nibble (s ! (i + 1))) (\<lambda>lo.
          let out' = out @ [push_bit 4 hi OR lo];
              i' = i + 2
          in mac_loop s (if length out' < 6 \<and> i' < length s \<and> s ! i' = 0x3a then i' + 1 else i') out'))
      else if length out = 6 then Some out else None)"
  by pat_completeness auto

termination
  by (relation "measure (\<lambda>(s, i, out). 6 - length out)") auto

declare mac_loop.simps [simp del]

definition parse_mac_addr :: "byte list \<Rightarrow> byte list option" where
  "parse_mac_addr s = mac_loop s 0 []"

fun hex8_loop :: "byte list \<Rightarrow> nat \<Rightarrow> u32 \<Rightarrow> u32 option" where
  "hex8_loop s 0 v = Some v"
| "hex8_loop s (Suc n) v =
     (let i = 8 - Suc n in
      if i < length s then
        Option.bind (hex_nibble (s ! i)) (\<lambda>d. hex8_loop s n (push_bit 4 v OR ucast d))
      else None)"

definition parse_hex8 :: "byte list \<Rightarrow> u32 option" where
  "parse_hex8 s = (if length s < 8 then None else hex8_loop s 8 0)"

section \<open>The two files\<close>

definition ascii :: "string \<Rightarrow> byte list" where
  "ascii s = map (\<lambda>c. of_nat (of_char c)) s"

definition DEFAULT_MAC :: "byte list" where
  "DEFAULT_MAC = [0, 111, 111, 111, 111, 0]"

text \<open>The configuration is its single field, the MAC address; the result is always \<open>Ok\<close>.\<close>

definition parse_configfile :: "byte list \<Rightarrow> byte list" where
  "parse_configfile file_data =
     (case find_tag file_data (ascii ''MAC_ADDR='') of
        None \<Rightarrow> DEFAULT_MAC
      | Some value \<Rightarrow> (case parse_mac_addr value of None \<Rightarrow> DEFAULT_MAC | Some mac \<Rightarrow> mac))"

record karst_conf =
  tx_iq_comp_2_4g_path_0 :: u32
  tx_iq_comp_2_4g_path_1 :: u32
  rx_iq_comp_2_4g_path_0 :: u32
  rx_iq_comp_2_4g_path_1 :: u32
  tx_iq_comp_5g_path_0 :: u32
  tx_iq_comp_5g_path_1 :: u32
  rx_iq_comp_5g_path_0 :: u32
  rx_iq_comp_5g_path_1 :: u32
  default_path :: u8

definition DEFAULT_IQ :: u32 where
  "DEFAULT_IQ = 0x01000000"

text \<open>\<open>parse_tag!\<close>\<close>

definition iq_tag :: "byte list \<Rightarrow> string \<Rightarrow> u32" where
  "iq_tag file_data tag =
     (case find_tag file_data (ascii tag) of
        None \<Rightarrow> DEFAULT_IQ
      | Some v \<Rightarrow> (case parse_hex8 v of None \<Rightarrow> DEFAULT_IQ | Some x \<Rightarrow> x))"

definition parse_karst_configfile :: "byte list \<Rightarrow> karst_conf \<Rightarrow> karst_conf" where
  "parse_karst_configfile file_data config =
     \<lparr>tx_iq_comp_2_4g_path_0 = iq_tag file_data ''KARST_TX_IQ_COMP_2_4G_PATH_0='',
      tx_iq_comp_2_4g_path_1 = iq_tag file_data ''KARST_TX_IQ_COMP_2_4G_PATH_1='',
      rx_iq_comp_2_4g_path_0 = iq_tag file_data ''KARST_RX_IQ_COMP_2_4G_PATH_0='',
      rx_iq_comp_2_4g_path_1 = iq_tag file_data ''KARST_RX_IQ_COMP_2_4G_PATH_1='',
      tx_iq_comp_5g_path_0 = iq_tag file_data ''KARST_TX_IQ_COMP_5G_PATH_0='',
      tx_iq_comp_5g_path_1 = iq_tag file_data ''KARST_TX_IQ_COMP_5G_PATH_1='',
      rx_iq_comp_5g_path_0 = iq_tag file_data ''KARST_RX_IQ_COMP_5G_PATH_0='',
      rx_iq_comp_5g_path_1 = iq_tag file_data ''KARST_RX_IQ_COMP_5G_PATH_1='',
      default_path =
        (case find_tag file_data (ascii ''KARST_DEFAULT_PATH='') of
           None \<Rightarrow> default_path config
         | Some v \<Rightarrow> if v = [] then default_path config
                      else (case hex_nibble (v ! 0) of None \<Rightarrow> 2 | Some x \<Rightarrow> x))\<rparr>"

section \<open>The search, line by line\<close>

text \<open>The reference: the lines of the file in order, the first that begins with the tag.\<close>

function first_tag_line :: "byte list \<Rightarrow> byte list \<Rightarrow> byte list option" where
  "first_tag_line tag data =
     (if data = [] then None
      else let line = takeWhile (\<lambda>b. b \<noteq> 10) data in
        if take (length tag) line = tag then Some (drop (length tag) line)
        else first_tag_line tag (drop (Suc (length line)) data))"
  by pat_completeness auto

termination
  by (relation "measure (\<lambda>(tag, data). length data)") auto

declare first_tag_line.simps [simp del]

lemma line_end_at: "line_end (pre @ xs) (length pre) = length pre + length (takeWhile (\<lambda>b. b \<noteq> 10) xs)"
proof (induction xs arbitrary: pre)
  case Nil
  then show ?case by (subst line_end.simps) simp
next
  case (Cons x xs)
  show ?case
    using Cons.IH [of "pre @ [x]"] by (subst line_end.simps) simp
qed

lemma find_tag_from_at: "find_tag_from (pre @ xs) tag (length pre) = first_tag_line tag xs"
proof (induction "length xs" arbitrary: pre xs rule: less_induct)
  case less
  let ?line = "takeWhile (\<lambda>b. b \<noteq> 10) xs"
  show ?case
  proof (cases "xs = []")
    case True
    then show ?thesis by (simp add: find_tag_from.simps first_tag_line.simps)
  next
    case False
    have line: "take (length ?line) xs = ?line" by (metis takeWhile_eq_take)
    have val: "take (length ?line - length tag) (drop (length tag) xs) = drop (length tag) ?line"
      by (metis line drop_take)
    have rest: "find_tag_from (pre @ xs) tag (Suc (length pre + length ?line)) =
        first_tag_line tag (drop (Suc (length ?line)) xs)"
    proof (cases "length ?line = length xs")
      case True
      then show ?thesis by (simp add: find_tag_from.simps first_tag_line.simps)
    next
      case False
      with length_takeWhile_le [of "\<lambda>b. b \<noteq> 10" xs] have "length ?line < length xs" by linarith
      then have "length (pre @ take (Suc (length ?line)) xs) = Suc (length pre + length ?line)" by simp
      with less.hyps [of "drop (Suc (length ?line)) xs" "pre @ take (Suc (length ?line)) xs"] \<open>xs \<noteq> []\<close>
      show ?thesis by simp
    qed
    have step: "find_tag_from (pre @ xs) tag (length pre) =
        (if length tag \<le> length ?line \<and> take (length tag) ?line = tag
         then Some (take (length ?line - length tag) (drop (length tag) xs))
         else find_tag_from (pre @ xs) tag (Suc (length pre + length ?line)))"
    proof -
      have l: "take (length pre + length ?line - length pre) (drop (length pre) (pre @ xs)) = ?line" by (simp add: line)
      show ?thesis
        using False by (subst find_tag_from.simps, simp only: line_end_at l Let_def) simp
    qed
    have "length tag \<le> length ?line" if "take (length tag) ?line = tag"
      using that by (metis length_take min.absorb_iff1 min.commute)
    then show ?thesis
      unfolding step rest val using False by (subst first_tag_line.simps) (auto simp: Let_def)
  qed
qed

lemma find_tag_lines: "find_tag data tag = first_tag_line tag data"
  unfolding find_tag_def using find_tag_from_at [of "[]" data tag] by simp


section \<open>Printing\<close>

definition hex_digit :: "u8 \<Rightarrow> byte" where
  "hex_digit d = (if d < 10 then 0x30 + d else 0x61 + (d - 10))"

lemma hex_nibble_digit: "d < 16 \<Longrightarrow> hex_nibble (hex_digit d) = Some d"
proof -
  assume "d < 16"
  then have "unat d \<in> {..<16}" by (simp add: word_less_nat_alt)
  then have "unat d \<in> set [0..<16]" by auto
  moreover have "\<forall>n\<in>set [0..<16]. hex_nibble (hex_digit (of_nat n)) = Some (of_nat n)" by code_simp
  ultimately show ?thesis by fastforce
qed

definition hex_byte :: "byte \<Rightarrow> byte list" where
  "hex_byte b = [hex_digit (drop_bit 4 b), hex_digit (take_bit 4 b)]"

lemma nibbles_less: "drop_bit 4 (b :: byte) < 16" "take_bit 4 (b :: byte) < 16"
proof -
  have "unat b < 2 ^ LENGTH(8)" by (rule unsigned_less)
  then show "drop_bit 4 b < 16"
    by (simp add: word_less_nat_alt unsigned_drop_bit_eq drop_bit_eq_div [where 'a = nat] take_bit_nat_eq_self)
  show "take_bit 4 b < 16"
    by (simp add: word_less_nat_alt unsigned_take_bit_eq take_bit_eq_mod [where 'a = nat])
qed

lemma nibbles_join: "push_bit 4 (drop_bit 4 b) OR take_bit 4 b = (b :: byte)"
  by (rule bit_word_eqI) (auto simp: bit_simps)

lemma hex_byte_nibbles:
  "hex_nibble (hex_byte b ! 0) = Some (drop_bit 4 b)" "hex_nibble (hex_byte b ! 1) = Some (take_bit 4 b)"
  by (simp_all add: hex_byte_def hex_nibble_digit nibbles_less)

text \<open>Six bytes with colons, as they are written in the file.\<close>

fun mac_text :: "byte list \<Rightarrow> byte list" where
  "mac_text [] = []"
| "mac_text [b] = hex_byte b"
| "mac_text (b # bs) = hex_byte b @ 0x3a # mac_text bs"

lemma mac_loop_text:
  assumes "length out + length bs = 6"
  shows "mac_loop (pre @ mac_text bs @ extra) (length pre) out = Some (out @ bs)"
  using assms
proof (induction bs arbitrary: pre out rule: mac_text.induct)
  case 1
  then show ?case by (subst mac_loop.simps) simp
next
  case (2 b)
  let ?s = "pre @ mac_text [b] @ extra"
  have s: "?s ! length pre = hex_byte b ! 0" "?s ! (length pre + 1) = hex_byte b ! 1"
    by (simp_all add: hex_byte_def nth_append)
  have "length pre + 2 \<le> length ?s" by (simp add: hex_byte_def)
  then show ?case
    using "2.prems" by (subst mac_loop.simps, simp only: s hex_byte_nibbles) (subst mac_loop.simps, simp add: nibbles_join)
next
  case (3 b c bs)
  let ?s = "pre @ mac_text (b # c # bs) @ extra"
  have s: "?s ! length pre = hex_byte b ! 0" "?s ! (length pre + 1) = hex_byte b ! 1" "?s ! (length pre + 2) = 0x3a"
    by (simp_all add: hex_byte_def nth_append)
  have l: "length pre + 2 \<le> length ?s" "length pre + 2 < length ?s" by (simp_all add: hex_byte_def)
  have "mac_loop ?s (length pre) out = mac_loop ?s (length pre + 2 + 1) (out @ [b])"
    using "3.prems" l by (subst mac_loop.simps, simp only: s hex_byte_nibbles) (simp add: nibbles_join hex_byte_def nth_append)
  also have "\<dots> = Some ((out @ [b]) @ c # bs)"
    using "3.IH" [of "out @ [b]" "pre @ hex_byte b @ [0x3a]"] "3.prems" by (simp add: hex_byte_def)
  finally show ?case by simp
qed


text \<open>Eight hexadecimal digits of a 32-bit value.\<close>

definition hex8_text :: "u32 \<Rightarrow> byte list" where
  "hex8_text v = map (\<lambda>k. hex_digit (ucast (take_bit 4 (drop_bit (4 * k) v)))) [7, 6, 5, 4, 3, 2, 1, 0]"

lemma hex8_nibble: "hex_nibble (hex_digit (ucast (take_bit 4 (x :: u32)))) = Some (ucast (take_bit 4 x))"
proof (rule hex_nibble_digit)
  show "ucast (take_bit 4 x) < (16 :: u8)"
    by (simp add: word_less_nat_alt unsigned_ucast_eq unsigned_take_bit_eq take_bit_take_bit take_bit_eq_mod [where 'a = nat])
qed

lemmas hex8_unroll = hex8_loop.simps(2) [of _ 7, simplified] hex8_loop.simps(2) [of _ 6, simplified]
  hex8_loop.simps(2) [of _ 5, simplified] hex8_loop.simps(2) [of _ 4, simplified] hex8_loop.simps(2) [of _ 3, simplified]
  hex8_loop.simps(2) [of _ 2, simplified] hex8_loop.simps(2) [of _ 1, unfolded Suc_1] hex8_loop.simps(2) [of _ 0]

lemma join_nibbles:
  fixes v :: u32
  shows "fold (\<lambda>k a. push_bit 4 a OR take_bit 4 (drop_bit (4 * k) v)) (rev [0..<n]) (drop_bit (4 * n) v) = v"
proof (induction n)
  case (Suc n)
  have "push_bit 4 (drop_bit (4 * Suc n) v) OR take_bit 4 (drop_bit (4 * n) v) = drop_bit (4 * n) v"
    by (rule bit_word_eqI) (auto simp: bit_simps algebra_simps)
  with Suc show ?case by simp
qed simp

lemma parse_hex8_text: "parse_hex8 (hex8_text v @ extra) = Some v"
proof -
  have u: "ucast (ucast (take_bit 4 (x :: u32)) :: u8) = take_bit 4 x" for x
    by (rule bit_word_eqI) (auto simp: bit_simps)
  have "parse_hex8 (hex8_text v @ extra) = Some (fold (\<lambda>k a. push_bit 4 a OR take_bit 4 (drop_bit (4 * k) v)) [7, 6, 5, 4, 3, 2, 1, 0] 0)"
    unfolding parse_hex8_def hex8_text_def by (simp add: hex8_unroll hex8_nibble u Let_def)
  also have "fold (\<lambda>k a. push_bit 4 a OR take_bit 4 (drop_bit (4 * k) v)) [7, 6, 5, 4, 3, 2, 1, 0] 0 = v"
  proof -
    have "[7, 6, 5, 4, 3, 2, 1, 0] = rev [0..<8::nat]" by code_simp
    moreover have "drop_bit (4 * 8) v = 0" by (rule bit_word_eqI) (auto simp: bit_simps dest: bit_imp_le_length)
    ultimately show ?thesis using join_nibbles [of v 8] by simp
  qed
  finally show ?thesis .
qed


section \<open>Files\<close>

definition lines_bytes :: "byte list list \<Rightarrow> byte list" where
  "lines_bytes ls = concat (map (\<lambda>l. l @ [10]) ls)"

definition other_line :: "byte list \<Rightarrow> byte list \<Rightarrow> bool" where
  "other_line tag l \<longleftrightarrow> 10 \<notin> set l \<and> take (length tag) l \<noteq> tag"

lemma takeWhile_line: "10 \<notin> set l \<Longrightarrow> rest = [] \<or> hd rest = 10 \<Longrightarrow> takeWhile (\<lambda>b. b \<noteq> 10) (l @ rest) = (l :: byte list)"
  by (cases rest) (auto simp: takeWhile_append takeWhile_eq_all_conv)

lemma find_tag_file:
  assumes "list_all (other_line tag) ls" and "10 \<notin> set (tag @ val)" and "rest = [] \<or> hd rest = 10" and "tag \<noteq> []"
  shows "find_tag (lines_bytes ls @ tag @ val @ rest) tag = Some val"
proof -
  have "first_tag_line tag (lines_bytes ls @ tag @ val @ rest) = Some val"
    using assms(1)
  proof (induction ls)
    case Nil
    have "takeWhile (\<lambda>b. b \<noteq> 10) ((tag @ val) @ rest) = tag @ val"
      using assms by (intro takeWhile_line) auto
    with assms(4) show ?case by (subst first_tag_line.simps) (simp add: lines_bytes_def)
  next
    case (Cons l ls)
    let ?rest = "lines_bytes ls @ tag @ val @ rest"
    have "lines_bytes (l # ls) @ tag @ val @ rest = l @ 10 # ?rest" by (simp add: lines_bytes_def)
    moreover have "takeWhile (\<lambda>b. b \<noteq> 10) (l @ 10 # ?rest) = l"
      using Cons.prems by (intro takeWhile_line) (auto simp: other_line_def)
    ultimately show ?case
      using Cons by (subst first_tag_line.simps) (simp add: other_line_def)
  qed
  then show ?thesis by (simp add: find_tag_lines)
qed

lemma hex_digit_visible: "d < 16 \<Longrightarrow> hex_digit d \<noteq> 10"
proof -
  assume "d < 16"
  then have "hex_nibble (hex_digit d) = Some d" by (rule hex_nibble_digit)
  moreover have "hex_nibble 10 = None" by (simp add: hex_nibble_def)
  ultimately show ?thesis by auto
qed

lemma texts_visible: "10 \<notin> set (mac_text bs)" "10 \<notin> set (hex8_text v)"
proof -
  show "10 \<notin> set (mac_text bs)"
    by (induction bs rule: mac_text.induct) (auto simp: hex_byte_def hex_digit_visible [OF nibbles_less(1)] hex_digit_visible [OF nibbles_less(2)] dest: sym)
  have "hex_digit (ucast (take_bit 4 (x :: u32))) \<noteq> 10" for x
    using hex8_nibble [of x] by (auto simp: hex_nibble_def split: if_splits)
  then show "10 \<notin> set (hex8_text v)" by (auto simp: hex8_text_def dest: sym)
qed

text \<open>
  (C40) Round trip of the configuration files: a MAC address written after \<open>MAC_ADDR=\<close>, or a 32-bit
  value in eight digits after any other tag, is read back exactly, from the first line that begins
  with the tag, whatever stands on the other lines and behind the value on its line.
\<close>

theorem config_roundtrip:
  assumes "length mac = 6" and "list_all (other_line (ascii ''MAC_ADDR='')) ls" and "10 \<notin> set extra"
    and "rest = [] \<or> hd rest = 10"
    and "list_all (other_line (ascii tag)) ls'" and "10 \<notin> set (ascii tag)" and "tag \<noteq> []"
  shows "parse_configfile (lines_bytes ls @ ascii ''MAC_ADDR='' @ (mac_text mac @ extra) @ rest) = mac \<and>
     iq_tag (lines_bytes ls' @ ascii tag @ (hex8_text v @ extra) @ rest) tag = v"
proof -
  have t: "ascii ''MAC_ADDR='' = [77, 65, 67, 95, 65, 68, 68, 82, 61]" by code_simp
  have "find_tag (lines_bytes ls @ ascii ''MAC_ADDR='' @ (mac_text mac @ extra) @ rest) (ascii ''MAC_ADDR='') = Some (mac_text mac @ extra)"
    using assms(2-4) texts_visible(1) [of mac] by (intro find_tag_file) (auto simp: t)
  moreover have "parse_mac_addr (mac_text mac @ extra) = Some mac"
    using mac_loop_text [of "[]" mac "[]" extra] assms(1) by (simp add: parse_mac_addr_def)
  moreover have "find_tag (lines_bytes ls' @ ascii tag @ (hex8_text v @ extra) @ rest) (ascii tag) = Some (hex8_text v @ extra)"
    using assms(3-7) texts_visible(2) [of v] by (intro find_tag_file) (auto simp: ascii_def)
  ultimately show ?thesis by (simp add: parse_configfile_def iq_tag_def parse_hex8_text)
qed

theorem config_roundtrip_witness:
  "parse_configfile (lines_bytes [[0x23, 0x20, 0x61]] @ ascii ''MAC_ADDR='' @ (mac_text [0xAA, 0, 0, 0, 0x10, 1] @ [13]) @ [10, 0x61])
     = [0xAA, 0, 0, 0, 0x10, 1]"
proof -
  have t: "ascii ''MAC_ADDR='' = [77, 65, 67, 95, 65, 68, 68, 82, 61]" "ascii ''K='' = [75, 61]" by code_simp+
  show ?thesis
    using config_roundtrip [of "[0xAA, 0, 0, 0, 0x10, 1]" "[[0x23, 0x20, 0x61]]" "[13]" "[10, 0x61]" "''K=''" "[]" 0]
    by (simp add: t other_line_def)
qed

end
