(* ===== verification/Fdrv.thy ===== *)
theory Fdrv
  imports Wiphy
begin

text \<open>
  The remaining parts of the full driver (\<open>driver/fdrv/src\<close>): the dispatch of firmware indications
  (\<open>e2a_dispatch.rs\<close>), the global control plane (\<open>platform.rs\<close>), the synchronous IPC command
  (\<open>ipc.rs\<close>), the interface manager, the network device, the data path hooks, the TCP ACK tables,
  the private commands and the driver context of the top-level crate (\<open>src/lib.rs\<close>).
\<close>

section \<open>Indications of the firmware\<close>

text \<open>The six registered callbacks, as functions on the world they act on.\<close>

record 'w e2a_cbs =
  scan_result_cb :: "(scanu_result_ind \<Rightarrow> byte list \<Rightarrow> 'w \<Rightarrow> 'w) option"
  scan_done_cb :: "('w \<Rightarrow> 'w) option"
  connect_result_cb :: "(sm_connect_ind \<Rightarrow> 'w \<Rightarrow> 'w) option"
  disconnect_cb :: "(sm_disconnect_ind \<Rightarrow> 'w \<Rightarrow> 'w) option"
  ps_change_cb :: "(mm_ps_change_ind \<Rightarrow> 'w \<Rightarrow> 'w) option"
  rssi_status_cb :: "(mm_rssi_status_ind \<Rightarrow> 'w \<Rightarrow> 'w) option"

definition e2a_cbs_none :: "'w e2a_cbs" where
  "e2a_cbs_none =
     \<lparr>scan_result_cb = None, scan_done_cb = None, connect_result_cb = None, disconnect_cb = None,
      ps_change_cb = None, rssi_status_cb = None\<rparr>"

definition set_scan_result_cb :: "(scanu_result_ind \<Rightarrow> byte list \<Rightarrow> 'w \<Rightarrow> 'w) option \<Rightarrow> 'w e2a_cbs \<Rightarrow> 'w e2a_cbs" where
  "set_scan_result_cb cb c = c\<lparr>scan_result_cb := cb\<rparr>"

definition set_scan_done_cb :: "('w \<Rightarrow> 'w) option \<Rightarrow> 'w e2a_cbs \<Rightarrow> 'w e2a_cbs" where
  "set_scan_done_cb cb c = c\<lparr>scan_done_cb := cb\<rparr>"

definition set_connect_result_cb :: "(sm_connect_ind \<Rightarrow> 'w \<Rightarrow> 'w) option \<Rightarrow> 'w e2a_cbs \<Rightarrow> 'w e2a_cbs" where
  "set_connect_result_cb cb c = c\<lparr>connect_result_cb := cb\<rparr>"

definition set_disconnect_cb :: "(sm_disconnect_ind \<Rightarrow> 'w \<Rightarrow> 'w) option \<Rightarrow> 'w e2a_cbs \<Rightarrow> 'w e2a_cbs" where
  "set_disconnect_cb cb c = c\<lparr>disconnect_cb := cb\<rparr>"

definition set_ps_change_cb :: "(mm_ps_change_ind \<Rightarrow> 'w \<Rightarrow> 'w) option \<Rightarrow> 'w e2a_cbs \<Rightarrow> 'w e2a_cbs" where
  "set_ps_change_cb cb c = c\<lparr>ps_change_cb := cb\<rparr>"

definition set_rssi_status_cb :: "(mm_rssi_status_ind \<Rightarrow> 'w \<Rightarrow> 'w) option \<Rightarrow> 'w e2a_cbs \<Rightarrow> 'w e2a_cbs" where
  "set_rssi_status_cb cb c = c\<lparr>rssi_status_cb := cb\<rparr>"

text \<open>\<open>if let Some(ind) = parsed { if registered { cb(&ind) } }\<close>\<close>

definition notify :: "'i option \<Rightarrow> ('i \<Rightarrow> 'w \<Rightarrow> 'w) option \<Rightarrow> 'w \<Rightarrow> 'w" where
  "notify ind cb w = (case ind of None \<Rightarrow> w | Some i \<Rightarrow> (case cb of None \<Rightarrow> w | Some f \<Rightarrow> f i w))"

definition e2a_indication_handler :: "'w e2a_cbs \<Rightarrow> u16 \<Rightarrow> byte list \<Rightarrow> 'w \<Rightarrow> 'w" where
  "e2a_indication_handler cbs msg_id param w =
     (if param = [] then w
      else if msg_id = SCANU_RESULT_IND then
        notify (parse_scanu_result_ind param) (map_option (\<lambda>f ind. f ind param) (scan_result_cb cbs)) w
      else if msg_id = SCANU_START_CFM then (case scan_done_cb cbs of None \<Rightarrow> w | Some f \<Rightarrow> f w)
      else if msg_id = SM_CONNECT_IND then notify (parse_sm_connect_ind param) (connect_result_cb cbs) w
      else if msg_id = SM_DISCONNECT_IND then notify (parse_sm_disconnect_ind param) (disconnect_cb cbs) w
      else if msg_id = MM_PS_CHANGE_IND then notify (parse_mm_ps_change_ind param) (ps_change_cb cbs) w
      else if msg_id = MM_RSSI_STATUS_IND then notify (parse_mm_rssi_status_ind param) (rssi_status_cb cbs) w
      else w)"

section \<open>The global control plane\<close>

record platform_state =
  platform_wiphy :: "wiphy_state option"
  default_iface_id :: "ifindex option"

definition default_interface_id :: "platform_state \<Rightarrow> ifindex option" where
  "default_interface_id p = default_iface_id p"

text \<open>\<open>with_wiphy_mut\<close>: \<open>None\<close> when nothing is stored; the closure's result is kept as a value.\<close>

definition with_wiphy_mut ::
  "('w, 'a) wop \<Rightarrow> platform_state \<times> 'w bsp \<Rightarrow> 'a result option \<times> platform_state \<times> 'w bsp" where
  "with_wiphy_mut f = (\<lambda>(p, s).
     case platform_wiphy p of
       None \<Rightarrow> (None, (p, s))
     | Some st \<Rightarrow> (case f (st, s) of (r, (st', s')) \<Rightarrow> (Some r, (p\<lparr>platform_wiphy := Some st'\<rparr>, s'))))"

definition platform_init :: "'w bsp_env \<Rightarrow> nat \<Rightarrow> 'w e2a_cbs \<Rightarrow> (platform_state \<times> 'w bsp, unit) io" where
  "platform_init env fuel cbs = (\<lambda>(p, s).
     if platform_wiphy p \<noteq> None then (ok (), (p, s))
     else
       let p1 = p\<lparr>platform_wiphy := Some WiphyOpsImpl_new\<rparr>;
           s1 = set_e2a_indication_cb (Some (e2a_indication_handler cbs)) s
       in (case with_wiphy_mut (add_interface env fuel Station) (p1, s1) of
             (Some (Inr iface_id), (p2, s2)) \<Rightarrow> (ok (), (p2\<lparr>default_iface_id := Some iface_id\<rparr>, s2))
           | (Some (Inl e), x) \<Rightarrow> (Inl e, x)
           | (None, x) \<Rightarrow> (err (-5), x)))"

section \<open>The synchronous command\<close>

definition CMD_TX_BUF_SIZE :: nat where "CMD_TX_BUF_SIZE = 8 + LMAC_MSG_MAX_LEN"

text \<open>The words of the parameter array as little-endian bytes.\<close>

definition ipc_handle_e2a_msg :: "ipc_e2a_msg \<Rightarrow> cmd_mgr \<Rightarrow> cmd_mgr" where
  "ipc_handle_e2a_msg msg m =
     (let len = min (unat (e2a_param_len msg)) (IPC_E2A_MSG_PARAM_SIZE * 4) in
      on_cfm (e2a_id msg) (take len (concat (map le32 (e2a_param msg)))) m)"

definition ipc_send_cmd_sync ::
  "lmac_msg \<Rightarrow> u16 \<Rightarrow> u32 \<Rightarrow> (lmac_msg \<Rightarrow> ('w, unit) io) \<Rightarrow> (cmd_mgr \<times> 'w \<Rightarrow> cmd_mgr \<times> 'w) \<Rightarrow> ('w \<Rightarrow> 'w)
   \<Rightarrow> (cmd_mgr \<times> 'w, unit) io" where
  "ipc_send_cmd_sync msg reqid timeout_ms tx_fn poll_fn idle =
     io_bind (push_cmd reqid) (\<lambda>token.
     io_bind (on_snd (io_map_err (tx_fn msg) (Errno (-5)))) (\<lambda>_.
       wait_done token timeout_ms poll_fn None idle))"

section \<open>Interface manager\<close>

datatype netlink_msg_type = DaemonOn | DaemonOff | DaemonAlive | DelSta | NewSta | IntfRpt | StaRpt | FrameRpt
  | TimeTick | PrivInfoCmd | BSteerCmd | BSteerBlockAdd | BSteerBlockDel | BSteerRoam | GeneralCmd | Customer | ConfigUpdate

fun netlink_msg_repr :: "netlink_msg_type \<Rightarrow> u32" where
  "netlink_msg_repr DaemonOn = 1"
| "netlink_msg_repr DaemonOff = 2"
| "netlink_msg_repr DaemonAlive = 3"
| "netlink_msg_repr DelSta = 4"
| "netlink_msg_repr NewSta = 5"
| "netlink_msg_repr IntfRpt = 6"
| "netlink_msg_repr StaRpt = 7"
| "netlink_msg_repr FrameRpt = 8"
| "netlink_msg_repr TimeTick = 9"
| "netlink_msg_repr PrivInfoCmd = 10"
| "netlink_msg_repr BSteerCmd = 11"
| "netlink_msg_repr BSteerBlockAdd = 12"
| "netlink_msg_repr BSteerBlockDel = 13"
| "netlink_msg_repr BSteerRoam = 14"
| "netlink_msg_repr GeneralCmd = 100"
| "netlink_msg_repr Customer = 101"
| "netlink_msg_repr ConfigUpdate = 102"

definition NL_AIC_PROTOCOL :: u32 where "NL_AIC_PROTOCOL = 29"
definition NL_MAX_MSG_SIZE :: nat where "NL_MAX_MSG_SIZE = 768"

datatype wifi_state = WifiDown | WifiUp | Scanning | Connecting | Connected | Disconnecting

fun wifi_state_repr :: "wifi_state \<Rightarrow> u32" where
  "wifi_state_repr WifiDown = 0" | "wifi_state_repr WifiUp = 1" | "wifi_state_repr Scanning = 2"
| "wifi_state_repr Connecting = 3" | "wifi_state_repr Connected = 4" | "wifi_state_repr Disconnecting = 5"

record wifi_manager =
  wm_state :: wifi_state
  wm_interface_name :: string

definition WifiManager_new :: "string \<Rightarrow> wifi_manager" where
  "WifiManager_new interface = \<lparr>wm_state = WifiDown, wm_interface_name = interface\<rparr>"

definition wm_set_state :: "wifi_state \<Rightarrow> wifi_manager \<Rightarrow> wifi_manager" where
  "wm_set_state st m = m\<lparr>wm_state := st\<rparr>"

definition wm_up :: "wifi_manager \<Rightarrow> unit result \<times> wifi_manager" where
  "wm_up m = (ok (), m\<lparr>wm_state := WifiUp\<rparr>)"

definition wm_down :: "wifi_manager \<Rightarrow> unit result \<times> wifi_manager" where
  "wm_down m = (ok (), m\<lparr>wm_state := WifiDown\<rparr>)"

section \<open>Network device\<close>

record net_device_stats =
  nd_rx_packets :: u32
  nd_tx_packets :: u32
  nd_rx_bytes :: u64
  nd_tx_bytes :: u64
  nd_rx_errors :: u32
  nd_tx_errors :: u32
  nd_rx_dropped :: u32
  nd_tx_dropped :: u32

record net_device =
  nd_name :: "byte list"
  nd_mac_addr :: mac_addr
  nd_up :: bool
  nd_carrier_ok :: bool
  nd_stats :: net_device_stats

definition net_device_default :: net_device where
  "net_device_default =
     \<lparr>nd_name = replicate 16 0, nd_mac_addr = replicate 6 0, nd_up = False, nd_carrier_ok = False,
      nd_stats = \<lparr>nd_rx_packets = 0, nd_tx_packets = 0, nd_rx_bytes = 0, nd_tx_bytes = 0, nd_rx_errors = 0,
                  nd_tx_errors = 0, nd_rx_dropped = 0, nd_tx_dropped = 0\<rparr>\<rparr>"

definition NetDevice_new :: "byte list \<Rightarrow> net_device" where
  "NetDevice_new name =
     (let len = min (length name) 15 in
      net_device_default\<lparr>nd_name := take len name @ drop len (nd_name net_device_default)\<rparr>)"

definition name_str :: "net_device \<Rightarrow> byte list" where
  "name_str n = (let s = takeWhile (\<lambda>b. b \<noteq> 0) (nd_name n) in if utf8_valid s then s else [])"

definition nd_set_mac_addr :: "mac_addr \<Rightarrow> net_device \<Rightarrow> net_device" where
  "nd_set_mac_addr mac n = n\<lparr>nd_mac_addr := mac\<rparr>"

definition carrier_on :: "net_device \<Rightarrow> net_device" where
  "carrier_on n = n\<lparr>nd_carrier_ok := True\<rparr>"

definition carrier_off :: "net_device \<Rightarrow> net_device" where
  "carrier_off n = n\<lparr>nd_carrier_ok := False\<rparr>"

section \<open>Data path hooks\<close>

record 'w rx_data_hook =
  rx_data_cb :: "(byte list \<Rightarrow> 'w \<Rightarrow> 'w) option"

definition set_rx_data_cb :: "(byte list \<Rightarrow> 'w \<Rightarrow> 'w) option \<Rightarrow> 'w rx_data_hook \<Rightarrow> 'w rx_data_hook" where
  "set_rx_data_cb cb h = h\<lparr>rx_data_cb := cb\<rparr>"

definition fdrv_rx_data_invoke :: "'w rx_data_hook \<Rightarrow> byte list \<Rightarrow> 'w \<Rightarrow> 'w" where
  "fdrv_rx_data_invoke h buf w = (case rx_data_cb h of None \<Rightarrow> w | Some cb \<Rightarrow> cb buf w)"

definition tx_data :: "byte list \<Rightarrow> unit result" where
  "tx_data buf = err (-38)"

section \<open>TCP acknowledgements\<close>

definition TCP_ACK_NUM :: nat where "TCP_ACK_NUM = 32"
definition TCP_ACK_DROP_CNT :: u32 where "TCP_ACK_DROP_CNT = 10"
definition ACK_OLD_TIME_MS :: u32 where "ACK_OLD_TIME_MS = 4000"
definition MIN_WIN_KB :: u32 where "MIN_WIN_KB = 256"

definition u32_before :: "u32 \<Rightarrow> u32 \<Rightarrow> bool" where
  "u32_before a b \<longleftrightarrow> sint (a - b) \<le> 0"

record tcp_ack_msg =
  tm_source :: u16
  tm_dest :: u16
  tm_saddr :: int
  tm_daddr :: int
  tm_seq :: u32
  tm_win :: u16

record tcp_ack_info =
  ti_ack_info_num :: nat
  ti_busy :: u8
  ti_drop_cnt :: u32
  ti_psh_flag :: u8
  ti_psh_seq :: u32
  ti_win_scale :: u16
  ti_last_time_ms :: u64
  ti_timeout_ms :: u64
  ti_msgbuf :: "nat option"
  ti_in_send_msg :: "nat option"
  ti_ack_msg :: tcp_ack_msg

definition tcp_ack_info_default :: tcp_ack_info where
  "tcp_ack_info_default =
     \<lparr>ti_ack_info_num = 0, ti_busy = 0, ti_drop_cnt = 0, ti_psh_flag = 0, ti_psh_seq = 0, ti_win_scale = 0,
      ti_last_time_ms = 0, ti_timeout_ms = 0, ti_msgbuf = None, ti_in_send_msg = None,
      ti_ack_msg = \<lparr>tm_source = 0, tm_dest = 0, tm_saddr = 0, tm_daddr = 0, tm_seq = 0, tm_win = 0\<rparr>\<rparr>"

record tcp_ack_manage =
  ta_enable :: bool
  ta_max_num :: nat
  ta_free_index :: int
  ta_last_time_ms :: u64
  ta_timeout_ms :: u64
  ta_max_drop_cnt :: u32
  ta_ack_info :: "tcp_ack_info list"
  ta_ack_winsize_kb :: u32

definition TcpAckManage_new :: tcp_ack_manage where
  "TcpAckManage_new =
     \<lparr>ta_enable = False, ta_max_num = 0, ta_free_index = 0, ta_last_time_ms = 0, ta_timeout_ms = ucast ACK_OLD_TIME_MS,
      ta_max_drop_cnt = TCP_ACK_DROP_CNT,
      ta_ack_info = map (\<lambda>i. tcp_ack_info_default\<lparr>ti_ack_info_num := i, ti_timeout_ms := ucast ACK_OLD_TIME_MS\<rparr>)
                      [0..<TCP_ACK_NUM],
      ta_ack_winsize_kb = MIN_WIN_KB\<rparr>"

definition filter_send_tcp_ack :: "byte list \<Rightarrow> nat \<Rightarrow> int" where
  "filter_send_tcp_ack buf plen = 0"

section \<open>Private commands\<close>

definition PRIV_CMD_BUF_MAX :: nat where "PRIV_CMD_BUF_MAX = 4096"

record priv_cmd =
  pc_buf :: "byte list"
  pc_used_len :: nat
  pc_total_len :: nat

definition PrivCmd_new :: "nat \<Rightarrow> priv_cmd" where
  "PrivCmd_new total_len = \<lparr>pc_buf = replicate total_len 0, pc_used_len = 0, pc_total_len = total_len\<rparr>"

definition priv_cmd_default :: priv_cmd where
  "priv_cmd_default = PrivCmd_new PRIV_CMD_BUF_MAX"

definition from_buf :: "byte list \<Rightarrow> priv_cmd" where
  "from_buf buf = (PrivCmd_new (length buf))\<lparr>pc_buf := buf, pc_used_len := length buf\<rparr>"

text \<open>
  \<open>str::split_whitespace\<close> on the bytes of a string: the length of a Unicode white space character
  at the front, or 0.
\<close>

fun ws_len :: "byte list \<Rightarrow> nat" where
  "ws_len (a # bs) =
     (if (9 \<le> a \<and> a \<le> 13) \<or> a = 32 then 1
      else case bs of
        b # cs \<Rightarrow>
          if a = 0xC2 \<and> (b = 0x85 \<or> b = 0xA0) then 2
          else (case cs of
                  c # _ \<Rightarrow>
                    if (a = 0xE1 \<and> b = 0x9A \<and> c = 0x80) \<or>
                       (a = 0xE2 \<and> b = 0x80 \<and> ((0x80 \<le> c \<and> c \<le> 0x8A) \<or> c = 0xA8 \<or> c = 0xA9 \<or> c = 0xAF)) \<or>
                       (a = 0xE2 \<and> b = 0x81 \<and> c = 0x9F) \<or> (a = 0xE3 \<and> b = 0x80 \<and> c = 0x80)
                    then 3 else 0
                | [] \<Rightarrow> 0)
      | [] \<Rightarrow> 0)"
| "ws_len [] = 0"

function split_ws :: "byte list \<Rightarrow> byte list \<Rightarrow> byte list list" where
  "split_ws word s =
     (if s = [] then (if word = [] then [] else [word])
      else let n = ws_len s in
        if n = 0 then split_ws (word @ [hd s]) (tl s)
        else if word = [] then split_ws [] (drop n s) else word # split_ws [] (drop n s))"
  by pat_completeness auto

termination
  by (relation "measure (\<lambda>(w, s). length s)") auto

declare split_ws.simps [simp del]

definition parse_args :: "priv_cmd \<Rightarrow> byte list list result" where
  "parse_args c =
     bind_res (slice_get 0 (pc_used_len c) (pc_buf c)) (\<lambda>s. ok (split_ws [] (if utf8_valid s then s else [])))"

section \<open>Vendor commands\<close>

definition AIC_OUI :: "byte list" where "AIC_OUI = [0x00, 0xA0, 0xC5]"

datatype vendor_subcmd = GetVersion | SetMacAddr | GetMacAddr | VScan | VConnect | VDisconnect | GetRssi | GetLinkSpeed

fun vendor_subcmd_repr :: "vendor_subcmd \<Rightarrow> u32" where
  "vendor_subcmd_repr GetVersion = 1" | "vendor_subcmd_repr SetMacAddr = 2" | "vendor_subcmd_repr GetMacAddr = 3"
| "vendor_subcmd_repr VScan = 4" | "vendor_subcmd_repr VConnect = 5" | "vendor_subcmd_repr VDisconnect = 6"
| "vendor_subcmd_repr GetRssi = 7" | "vendor_subcmd_repr GetLinkSpeed = 8"

section \<open>The driver context\<close>

record 'p wireless_driver =
  wd_cmd_mgr :: cmd_mgr
  wd_wiphy :: 'p

definition WirelessDriver_new :: "'p \<Rightarrow> 'p wireless_driver" where
  "WirelessDriver_new w = \<lparr>wd_cmd_mgr = CmdMgr_new, wd_wiphy = w\<rparr>"

text \<open>The placeholder control plane has no state.\<close>

definition wireless_driver_init_stub :: "unit wireless_driver" where
  "wireless_driver_init_stub = WirelessDriver_new ()"


section \<open>Initialisation of the control plane\<close>

text \<open>
  \<open>platform_init\<close>: success on a fresh platform means that the interface of the confirmation,
  asked for with the indication handler registered, is the default one. After a failure the control plane
  stays stored, so that the next call reports success at once although there is no default
  interface and nothing is sent.
\<close>

theorem platform_init_outcome:
  assumes "platform_wiphy p = None" and "default_iface_id p = None"
    and "platform_init env fuel cbs (p, s) = (r, (p', s'))"
  shows "case r of
      Inr _ \<Rightarrow> \<exists>i st. add_interface env fuel Station
          (WiphyOpsImpl_new, s\<lparr>e2a_indication_cb := Some (e2a_indication_handler cbs)\<rparr>) = (ok i, (st, s')) \<and>
        default_interface_id p' = Some i \<and> platform_wiphy p' = Some st
    | Inl e \<Rightarrow> default_interface_id p' = None \<and>
        platform_init env fuel cbs (p', s'') = (ok (), (p', s''))"
proof -
  obtain q st s1 where q: "add_interface env fuel Station
      (WiphyOpsImpl_new, s\<lparr>e2a_indication_cb := Some (e2a_indication_handler cbs)\<rparr>) = (q, (st, s1))" by (metis prod_cases3)
  with assms show ?thesis
    by (cases q) (auto simp: platform_init_def with_wiphy_mut_def set_e2a_indication_cb_def default_interface_id_def Let_def)
qed

theorem platform_init_outcome_witness:
  "\<exists>p s. platform_init (thread_env noise_host 5 (\<lambda>_. None)) 5 e2a_cbs_none
       (\<lparr>platform_wiphy = None, default_iface_id = None\<rparr>, sample_bsp\<lparr>current_product_id := 0xFFFF\<rparr>) = (err (-22), (p, s)) \<and>
     default_interface_id p = None \<and>
     platform_init (thread_env noise_host 5 (\<lambda>_. None)) 5 e2a_cbs_none (p, sample_bsp) = (ok (), (p, sample_bsp))"
proof -
  let ?p = "\<lparr>platform_wiphy = None, default_iface_id = None\<rparr>"
  let ?s = "sample_bsp\<lparr>current_product_id := 0xFFFF\<rparr>"
  obtain r p s where r: "platform_init (thread_env noise_host 5 (\<lambda>_. None)) 5 e2a_cbs_none (?p, ?s) = (r, (p, s))"
    by (metis prod_cases3)
  moreover have "fst (platform_init (thread_env noise_host 5 (\<lambda>_. None)) 5 e2a_cbs_none (?p, ?s)) = err (-22)"
    by (simp add: platform_init_def with_wiphy_mut_def set_e2a_indication_cb_def add_interface_def cfm_whole_def on_snd_def
        send_lmac_cmd_and_wait_cfm_with_buf_def io_bind_def aicbsp_current_product_id.simps PRODUCT_ID_NONE_def Let_def)
  ultimately show ?thesis
    using platform_init_outcome [OF _ _ r, of sample_bsp] by auto
qed

section \<open>Sequence numbers\<close>

text \<open>
  \<open>u32_before\<close> orders sequence numbers modulo 2^32: \<open>a\<close> comes before everything up to 2^31 - 1
  ahead of it and not after, also across the wrap-around. Exactly half a turn apart, each of the
  two numbers counts as before the other.
\<close>

theorem u32_before_window:
  assumes "n < 2 ^ 31"
  shows "u32_before a (a + of_nat n) \<and> (0 < n \<longrightarrow> \<not> u32_before (a + of_nat n) a) \<and>
     u32_before a (a + 2 ^ 31) \<and> u32_before (a + 2 ^ 31) a"
proof -
  have w: "sint (word_of_int x :: u32) = (x + 2 ^ 31) mod 2 ^ 32 - 2 ^ 31" for x
    by (simp add: int_word_sint)
  have "sint (of_nat n :: u32) = int n"
    using w [of "int n"] assms by simp
  moreover have "sint (- of_nat n :: u32) = - int n"
    using w [of "- int n"] assms by simp
  ultimately show ?thesis by (simp add: u32_before_def)
qed

theorem u32_before_window_witness:
  "u32_before 0xFFFFFFFA (0xFFFFFFFA + 16) \<and> \<not> u32_before (0xFFFFFFFA + 16) 0xFFFFFFFA"
  using u32_before_window [of 16 "0xFFFFFFFA"] by simp

end
