(* ===== verification/Spec2Isabelle.thy ===== *)
theory Spec2Isabelle
  imports Skb Mmc Sdhci Cmd Bsp_Types Sdio_Ops Backend Cis Fw_Load Firmware Ipc Sd1_Power Irq
    Host_Irq_Laws Card_Irq Cmd53_Laws Cmd53_Blocks Bsp_Func
    Flow Lifecycle Ieee80211 Lmac_Cmd Wiphy Wiphy_Laws Sdio_Bus Cfgfile Fdrv
begin

text \<open>
  Verification of the AIC8800 wireless driver stack.

  \<^bold>\<open>The program.\<close> The repository ports the Linux driver of the AIC8800 WiFi chips to a small
  operating system. Under \<open>src/kernel\<close> it has the services the Linux driver expects: packet buffers
  (\<open>skb\<close>), the SDIO core (\<open>mmc\<close>), the host-controller helpers (\<open>sdhci\<close>) and the 802.11 types
  (\<open>ieee80211\<close>). Under \<open>src/driver/bsp\<close> is the board support: it powers the module, enumerates the
  card, recognises the chip from its CIS, runs a receive and a transmit thread, and downloads the
  firmware over an exchange of LMAC messages. Under \<open>src/driver/fdrv\<close> is the full driver: it builds
  the LMAC requests of the control plane (scan, connect, keys, stations, access point), sends them
  through the IPC layer of the BSP and interprets confirmations and indications.

  \<^bold>\<open>How it is modelled.\<close> A Rust value is a word, list, record or datatype of the same shape; machine
  integers keep their width. An operation that may fail returns \<open>rust_error + 'a\<close>, where an error
  code, an \<open>AxError\<close>, a panic (slice range, overflow) and running out of fuel are different
  values; an operation with effects is a function from a state to a result and a state (\<open>io\<close> in
  \<open>Prelude\<close>). The device, the scheduler and the platform's callbacks are parameters: records of
  functions (\<open>sdio_host\<close>, \<open>bsp_env\<close>, \<open>cccr_access\<close>) whose laws are stated where a theorem needs them.

  \<^item> \<open>Prelude\<close>, \<open>Io_Rules\<close>: results, stateful computations, slices with their panics, little-endian
    codecs; rules for computations (preserved properties, triples with a failure branch).
  \<^item> \<open>Skb\<close> (\<open>kernel/skb\<close>): \<open>skbuff\<close>, \<open>skb_queue\<close>, \<open>frame_queue\<close>. The buffer operations refine a
    three-part abstract buffer; the priority queue returns the most urgent frame as long as its
    cursor is sound, and a priority-0 frame can be overtaken.
  \<^item> \<open>Mmc\<close> (\<open>kernel/mmc\<close>): device ids, enabling a function, the claimed host, the driver registry.
  \<^item> \<open>Sdhci\<close> (\<open>kernel/sdhci\<close>): CMD53 arguments, the split of a transfer into block and byte commands
    (equal to an explicit plan), transfers over a FIFO, the DMA buffer and cache lines.
  \<^item> \<open>Cmd\<close> (\<open>bsp/src/cmd.rs\<close>): message layout, message ids and the command manager with eight slots; the
    locale \<open>completion_table\<close> states what its clients rely on, \<open>rwnx\<close> interprets it.
  \<^item> \<open>Bsp_Types\<close>, \<open>Sdio_Ops\<close>, \<open>Backend\<close>, \<open>Cis\<close> (\<open>bsp/src/sdio\<close>): chip identification, flow control and
    packet transfer of every chip, the host with its CMD52/CMD53 commands, clock and
    enumeration, the CIS parser.
  \<^item> \<open>Irq\<close> (\<open>bsp/src/sdio/irq.rs\<close>): the wait queues, the timer tick, the registration of the interrupt.
  \<^item> \<open>Host_Irq\<close> (\<open>backend.rs\<close>): the state the interrupt handler shares with the transfers, the handler
    \<open>handle_sdhci_host_irq\<close>, the waits for it, the card interrupt and its worker. \<open>Host_Irq_Laws\<close>
    gives the outcome of an interrupt, the restart of DMA at a boundary, and two races in which a
    completion is lost; \<open>Card_Irq\<close> that the card interrupt is never enabled, an invariant of a step
    relation over handler, worker and transfers.
  \<^item> \<open>Cmd53\<close> (\<open>backend.rs\<close>): both modes of CMD53 down to the registers, and the block access of the host
    built from them. \<open>Cmd53_Laws\<close>: byte mode moves exactly the bytes through the data port.
    \<open>Cmd53_Dma\<close>, \<open>Cmd53_Blocks\<close>: block mode over DMA with a cache that writes back at any time; what the
    engine finds in memory, what a read brings back, and that every exit releases what was taken.
  \<^item> \<open>Fw_Load\<close>, \<open>Firmware\<close> (\<open>bsp/src/fw_load.rs\<close>, \<open>firmware.rs\<close>): the upload protocol and the choice of images.
  \<^item> \<open>Ipc\<close> (\<open>bsp/src/sdio/flow.rs\<close>, first half): the cells the threads share, receive and transmit
    path, the exchanges of the main thread. The locale \<open>driver_threads\<close> is the contract of the waits
    (other threads change the manager by confirmations only); \<open>threads\<close> interprets it on the
    driver's own two threads.
  \<^item> \<open>Sd1_Power\<close>, \<open>Bsp_Func\<close>, \<open>Flow\<close>, \<open>Lifecycle\<close> (\<open>bsp/src/gpio.rs\<close>, \<open>mmc_impl.rs\<close>, \<open>flow.rs\<close>, \<open>lib.rs\<close>): power-up,
    probe, initialisation, firmware download, shutdown and the public entry points.
  \<^item> \<open>Ieee80211\<close> (\<open>kernel/ieee80211\<close>): types, frame predicates, ciphers, the traits with their default methods.
  \<^item> \<open>Lmac_Cmd\<close> (\<open>fdrv/src/lmac_cmd.rs\<close>): every request builder and parser; the builders are lists of
    fields, and the layout lemmas give the exact bytes.
  \<^item> \<open>Wiphy\<close>, \<open>Wiphy_Laws\<close> (\<open>fdrv/src/wiphy_impl.rs\<close>, \<open>wiphy.rs\<close>): the control plane. \<open>wiphy_exec\<close> runs any
    operation; \<open>well_behaved\<close> is their common contract, proved by composition inside
    \<open>driver_threads\<close>. \<open>Wiphy_Laws\<close> has the meaning of the station table, keys, power and answers.
  \<^item> \<open>Sdio_Bus\<close> (\<open>fdrv/src/sdio_bus.rs\<close>, \<open>sdio_host.rs\<close>): register sets and the host-id rings, an instance of
    the locale \<open>bounded_queue\<close>.
  \<^item> \<open>Cfgfile\<close> (\<open>fdrv/src/cfgfile.rs\<close>): the configuration files, with a line-by-line reference.
  \<^item> \<open>Fdrv\<close>: indication dispatch, platform, synchronous command, manager, network device, data hooks,
    TCP ACK tables, private and vendor commands, and \<open>src/lib.rs\<close>.

  \<^bold>\<open>Bounds and fuel.\<close> Loops with a bound in the code are total recursive functions. Two loops have no
  bound of their own: the transmit thread retries while the host answers \<open>EAGAIN\<close>, and the caller's
  wait for the transmit result does not count spurious wake-ups. They take fuel; \<open>Hang\<close> is the value
  of running out. A hundred rounds are enough for the second one when no wake-up is spurious
  (\<open>submit_terminates\<close>), and the theorems about the first one hold for every positive fuel.

  \<^bold>\<open>The controller.\<close> \<open>Ipc\<close> and the layers above it work over an abstract host (\<open>sdio_host\<close>); \<open>sd1_host\<close>
  in \<open>Cmd53\<close> is the real one over registers. Its laws are stated as predicates of the register bank and
  the DMA environment (\<open>w1c_regs\<close>, \<open>pio_write_port\<close>, \<open>pio_read_port\<close>, \<open>dma_bus\<close>, \<open>gated\<close>), each with a bank
  that satisfies it. Assertions and overflow checks are those of a build with debug assertions.

  \<^bold>\<open>Not modelled.\<close> The wait queues, the scheduler and the interrupt registration are crates outside
  the repository and enter as parameters, as do the cache instructions and the memory behind the DMA
  buffer. The spin delays inside the register code have no effect there. Log messages are left out
  (registers that are read for them are read), and so are constants no code uses. \<open>IpcHostCb\<close>,
  \<open>BusOps\<close>, \<open>NetDeviceXmit\<close> and \<open>TxDataIf\<close> are traits without an implementation and without default methods.
  Locks are not modelled: each operation accesses the shared cells as the code does under its lock, and
  nothing is claimed about deadlocks.
\<close>

end
